theory Spec2Isabelle
  imports Complex_Main "HOL-Library.Word"
begin

section \<open>Shared data model\<close>

text \<open>
  The bitmap as the code sees it through the accessor functions of the library
  (\<^verbatim>\<open>FreeImage_HasPixels\<close>, \<^verbatim>\<open>FreeImage_GetImageType\<close>, \<^verbatim>\<open>FreeImage_GetBPP\<close>,
  \<^verbatim>\<open>FreeImage_GetColorType\<close>, \<^verbatim>\<open>FreeImage_GetColorType2\<close>, \<^verbatim>\<open>FreeImage_GetWidth\<close>,
  \<^verbatim>\<open>FreeImage_GetHeight\<close>, \<^verbatim>\<open>FreeImage_GetLine\<close>, \<^verbatim>\<open>FreeImage_GetColorsUsed\<close>,
  \<^verbatim>\<open>FreeImage_GetPalette\<close>, \<^verbatim>\<open>FreeImage_GetScanLine\<close>): every accessor is a field.
  The accessors themselves are not part of the files under study.
\<close>

datatype FREE_IMAGE_TYPE =
  FIT_UNKNOWN | FIT_BITMAP | FIT_UINT16 | FIT_INT16 | FIT_UINT32 | FIT_INT32
  | FIT_FLOAT | FIT_DOUBLE | FIT_COMPLEX | FIT_RGB16 | FIT_RGBA16 | FIT_RGBF | FIT_RGBAF
  | FIT_RGB32 | FIT_RGBA32 | FIT_COMPLEXF

datatype FREE_IMAGE_COLOR_TYPE =
  FIC_MINISWHITE | FIC_MINISBLACK | FIC_RGB | FIC_PALETTE | FIC_RGBALPHA | FIC_CMYK | FIC_YUV

datatype FREE_IMAGE_COLOR_CHANNEL =
  FICC_RGB | FICC_RED | FICC_GREEN | FICC_BLUE | FICC_ALPHA | FICC_BLACK | FICC_REAL
  | FICC_IMAG | FICC_MAG | FICC_PHASE

text \<open>The pixel structures \<^verbatim>\<open>FIRGB8\<close>, \<^verbatim>\<open>FIRGBA8\<close>, \<^verbatim>\<open>FIRGB16\<close>, ..., \<^verbatim>\<open>FIRGBAF\<close>, by
  channel type; \<^verbatim>\<open>FICOMPLEX\<close> and \<^verbatim>\<open>FICOMPLEXF\<close> with their fields \<^verbatim>\<open>r\<close> and \<^verbatim>\<open>i\<close>.\<close>

record 'a FIRGB =
  red :: 'a
  green :: 'a
  blue :: 'a

record 'a FIRGBA = "'a FIRGB" +
  alpha :: 'a

datatype 'a FICOMPLEX = FICOMPLEX (real_part: 'a) (imag_part: 'a)

record FIBITMAP =
  HasPixels :: bool
  GetImageType :: FREE_IMAGE_TYPE
  GetBPP :: nat
  GetColorType :: FREE_IMAGE_COLOR_TYPE
  GetColorType2 :: FREE_IMAGE_COLOR_TYPE
  GetWidth :: "32 word"
  GetHeight :: "32 word"
  GetLine :: "32 word"
  GetColorsUsed :: "32 word"
  GetPalette :: "8 word FIRGBA list"
  GetScanLine :: "nat \<Rightarrow> 8 word list"

section \<open>Plugin registry (Source/FreeImage/Plugin.cpp)\<close>

subsection \<open>Hooks, descriptors and the catalogue\<close>

text \<open>
  A call through a function pointer either returns or throws; the pointer itself may be
  null (\<open>None\<close>).  A string result may be the null pointer (\<open>None\<close>).
\<close>

datatype 'a outcome = Returns 'a | Throws

text \<open>What ends a function that has no handler of its own: a null pointer is
  dereferenced or called, a hook's exception passes through, or an integer is divided by
  zero.\<close>

datatype fault = NullPointer | Exception | DivideByZero

type_synonym FREE_IMAGE_FORMAT = int

definition FIF_UNKNOWN :: FREE_IMAGE_FORMAT where
  "FIF_UNKNOWN = -1"

datatype whence = SEEK_SET | SEEK_CUR | SEEK_END

text \<open>The stream interface \<^verbatim>\<open>FreeImageIO\<close>, with the two entries the registry itself calls.
  \<open>'h\<close> is the state of the stream behind a handle.\<close>

record 'h FreeImageIO =
  seek_proc :: "'h \<Rightarrow> int \<Rightarrow> whence \<Rightarrow> 'h"
  tell_proc :: "'h \<Rightarrow> int"

text \<open>The capability table \<^verbatim>\<open>Plugin\<close>: the hooks used by the functions below.\<close>

record ('h, 'd) Plugin =
  format_proc :: "string option outcome option"
  extension_proc :: "string option outcome option"
  mime_proc :: "string option outcome option"
  open_proc :: "('h FreeImageIO \<Rightarrow> 'h \<Rightarrow> bool \<Rightarrow> 'd option \<times> 'h) option"
  close_proc :: "('h FreeImageIO \<Rightarrow> 'h \<Rightarrow> 'd option \<Rightarrow> 'h) option"
  load_proc :: "('h FreeImageIO \<Rightarrow> 'h \<Rightarrow> int \<Rightarrow> int \<Rightarrow> 'd option \<Rightarrow> FIBITMAP option \<times> 'h) option"
  save_proc :: "('h FreeImageIO \<Rightarrow> FIBITMAP \<Rightarrow> 'h \<Rightarrow> int \<Rightarrow> int \<Rightarrow> 'd option \<Rightarrow> bool \<times> 'h) option"
  validate_proc :: "('h FreeImageIO \<Rightarrow> 'h \<Rightarrow> bool \<times> 'h) option"

definition null_Plugin :: "('h, 'd) Plugin" where
  "null_Plugin = \<lparr> format_proc = None, extension_proc = None, mime_proc = None,
     open_proc = None, close_proc = None, load_proc = None, save_proc = None,
     validate_proc = None \<rparr>"

record ('h, 'd) PluginNode =
  m_id :: int
  m_instance :: "nat option"
  m_plugin :: "('h, 'd) Plugin"
  m_format :: "string option"
  m_description :: "string option"
  m_extension :: "string option"
  m_regexpr :: "string option"
  m_enabled :: bool

text \<open>\<^verbatim>\<open>std::map<int, std::unique_ptr<PluginNode>>\<close>: the entries in ascending key order.\<close>

record ('h, 'd) PluginList =
  m_plugin_map :: "(int \<times> ('h, 'd) PluginNode) list"
  m_node_count :: int

text \<open>\<^verbatim>\<open>std::map::emplace\<close>: inserts at the key's place unless the key is present.\<close>

fun emplace :: "int \<Rightarrow> 'v \<Rightarrow> (int \<times> 'v) list \<Rightarrow> (int \<times> 'v) list" where
  "emplace k v [] = [(k, v)]"
| "emplace k v ((k', v') # rest) =
     (if k = k' then (k', v') # rest
      else if k < k' then (k, v) # (k', v') # rest
      else (k', v') # emplace k v rest)"

definition PluginList_new :: "('h, 'd) PluginList" where
  "PluginList_new = \<lparr> m_plugin_map = [], m_node_count = 0 \<rparr>"

definition Size :: "('h, 'd) PluginList \<Rightarrow> int" where
  "Size pl = int (length (m_plugin_map pl))"

text \<open>The one-time setup entry point \<^verbatim>\<open>FI_InitProc\<close>: given the id, it fills the
  (zero-initialised) capability table, or throws.\<close>

type_synonym ('h, 'd) FI_InitProc = "int \<Rightarrow> ('h, 'd) Plugin outcome"

text \<open>Calling a string hook: a null hook is a null call.\<close>

definition call_proc :: "'a outcome option \<Rightarrow> fault + 'a" where
  "call_proc p = (case p of None \<Rightarrow> Inl NullPointer
                  | Some Throws \<Rightarrow> Inl Exception
                  | Some (Returns r) \<Rightarrow> Inr r)"

definition AddNode ::
  "('h, 'd) PluginList \<Rightarrow> ('h, 'd) FI_InitProc option \<Rightarrow> nat option \<Rightarrow> string option
     \<Rightarrow> string option \<Rightarrow> string option \<Rightarrow> string option
     \<Rightarrow> FREE_IMAGE_FORMAT \<times> ('h, 'd) PluginList" where
  "AddNode pl init_proc instance format description extension regexpr =
     (case init_proc of
        None \<Rightarrow> (FIF_UNKNOWN, pl)
      | Some init \<Rightarrow>
          (let curr_id = int (length (m_plugin_map pl)) in
           case init curr_id of
             Throws \<Rightarrow> (FIF_UNKNOWN, pl)
           | Returns plugin \<Rightarrow>
               (case (case format of
                        Some f \<Rightarrow> Returns (Some f)
                      | None \<Rightarrow> (case format_proc plugin of
                                   Some r \<Rightarrow> r
                                 | None \<Rightarrow> Returns None)) of
                  Throws \<Rightarrow> (FIF_UNKNOWN, pl)
                | Returns None \<Rightarrow> (FIF_UNKNOWN, pl)
                | Returns (Some the_format) \<Rightarrow>
                    (let node = \<lparr> m_id = curr_id, m_instance = instance, m_plugin = plugin,
                                   m_format = format, m_description = description,
                                   m_extension = extension, m_regexpr = regexpr,
                                   m_enabled = True \<rparr>
                     in (curr_id, pl\<lparr> m_plugin_map := emplace curr_id node (m_plugin_map pl) \<rparr>)))))"

subsection \<open>String comparison\<close>

text \<open>\<^verbatim>\<open>tolower\<close> in the C locale; a string is its characters before the terminating NUL.\<close>

definition tolower :: "char \<Rightarrow> int" where
  "tolower c = (let n = of_char c in if 65 \<le> n \<and> n \<le> 90 then n + 32 else n)"

fun FreeImage_stricmp :: "string \<Rightarrow> string \<Rightarrow> int" where
  "FreeImage_stricmp [] [] = 0"
| "FreeImage_stricmp [] (y # ys) = 0 - tolower y"
| "FreeImage_stricmp (x # xs) [] = tolower x - 0"
| "FreeImage_stricmp (x # xs) (y # ys) =
     (if tolower x \<noteq> 0 \<and> tolower x = tolower y then FreeImage_stricmp xs ys
      else tolower x - tolower y)"

subsection \<open>Lookups\<close>

text \<open>The effective format name is computed for every entry, before the enabled state
  is examined.\<close>

fun FindNodeFromFormat_loop ::
  "(int \<times> ('h, 'd) PluginNode) list \<Rightarrow> string \<Rightarrow> fault + ('h, 'd) PluginNode option" where
  "FindNodeFromFormat_loop [] format = Inr None"
| "FindNodeFromFormat_loop ((k, node) # rest) format =
     (case (case m_format node of
              Some f \<Rightarrow> Inr (Some f)
            | None \<Rightarrow> call_proc (format_proc (m_plugin node))) of
        Inl e \<Rightarrow> Inl e
      | Inr the_format \<Rightarrow>
          (if m_enabled node then
             (case the_format of
                None \<Rightarrow> Inl NullPointer
              | Some tf \<Rightarrow>
                  (if FreeImage_stricmp tf format = 0 then Inr (Some node)
                   else FindNodeFromFormat_loop rest format))
           else FindNodeFromFormat_loop rest format))"

definition FindNodeFromFormat ::
  "('h, 'd) PluginList \<Rightarrow> string \<Rightarrow> fault + ('h, 'd) PluginNode option" where
  "FindNodeFromFormat pl format = FindNodeFromFormat_loop (m_plugin_map pl) format"

fun FindNodeFromMime_loop ::
  "(int \<times> ('h, 'd) PluginNode) list \<Rightarrow> string \<Rightarrow> fault + ('h, 'd) PluginNode option" where
  "FindNodeFromMime_loop [] mime = Inr None"
| "FindNodeFromMime_loop ((k, node) # rest) mime =
     (case (case mime_proc (m_plugin node) of
              Some r \<Rightarrow> call_proc (Some r)
            | None \<Rightarrow> Inr (Some [])) of
        Inl e \<Rightarrow> Inl e
      | Inr the_mime \<Rightarrow>
          (if m_enabled node then
             (case the_mime of
                Some tm \<Rightarrow>
                  (if tm = mime then Inr (Some node)
                   else FindNodeFromMime_loop rest mime)
              | None \<Rightarrow> FindNodeFromMime_loop rest mime)
           else FindNodeFromMime_loop rest mime))"

definition FindNodeFromMime ::
  "('h, 'd) PluginList \<Rightarrow> string \<Rightarrow> fault + ('h, 'd) PluginNode option" where
  "FindNodeFromMime pl mime = FindNodeFromMime_loop (m_plugin_map pl) mime"

definition FindNodeFromFIF :: "('h, 'd) PluginList \<Rightarrow> int \<Rightarrow> ('h, 'd) PluginNode option" where
  "FindNodeFromFIF pl node_id = map_of (m_plugin_map pl) node_id"

subsection \<open>Process-wide state\<close>

record ('h, 'd) globals =
  s_plugins :: "('h, 'd) PluginList option"
  s_plugin_reference_count :: int

text \<open>One \<^verbatim>\<open>AddNode\<close> call of the built-in sequence: the setup entry point and the four
  optional overrides (the module handle is null for a built-in).\<close>

type_synonym ('h, 'd) registration =
  "('h, 'd) FI_InitProc option \<times> string option \<times> string option \<times> string option \<times> string option"

definition AddNode_local ::
  "('h, 'd) PluginList \<Rightarrow> ('h, 'd) registration \<Rightarrow> FREE_IMAGE_FORMAT \<times> ('h, 'd) PluginList" where
  "AddNode_local pl r =
     (case r of (init_proc, format, description, extension, regexpr) \<Rightarrow>
        AddNode pl init_proc None format description extension regexpr)"

text \<open>\<^verbatim>\<open>FreeImage_Initialise\<close>.  The setup entry points of the built-in formats
  (\<^verbatim>\<open>InitBMP\<close>, \<^verbatim>\<open>InitICO\<close>, ...) are defined in the plugin files, so the fixed sequence of
  \<^verbatim>\<open>AddNode\<close> calls is the parameter \<open>builtins\<close>; their results are discarded.  The search
  for external modules exists on Windows only and is left out.\<close>

definition FreeImage_Initialise ::
  "('h, 'd) registration list \<Rightarrow> ('h, 'd) globals \<Rightarrow> ('h, 'd) globals" where
  "FreeImage_Initialise builtins g =
     (if s_plugin_reference_count g = 0 then
        \<lparr> s_plugins = Some (fold (\<lambda>r pl. snd (AddNode_local pl r)) builtins PluginList_new),
          s_plugin_reference_count = s_plugin_reference_count g + 1 \<rparr>
      else g\<lparr> s_plugin_reference_count := s_plugin_reference_count g + 1 \<rparr>)"

definition FreeImage_DeInitialise :: "('h, 'd) globals \<Rightarrow> ('h, 'd) globals" where
  "FreeImage_DeInitialise g =
     (let c = s_plugin_reference_count g - 1 in
      if c = 0 then \<lparr> s_plugins = None, s_plugin_reference_count = c \<rparr>
      else g\<lparr> s_plugin_reference_count := c \<rparr>)"

subsection \<open>Enable and disable\<close>

definition set_enabled ::
  "int \<Rightarrow> bool \<Rightarrow> (int \<times> ('h, 'd) PluginNode) list \<Rightarrow> (int \<times> ('h, 'd) PluginNode) list" where
  "set_enabled fif enable nodes =
     map (\<lambda>(k, node). if k = fif then (k, node\<lparr> m_enabled := enable \<rparr>) else (k, node)) nodes"

definition FreeImage_SetPluginEnabled ::
  "('h, 'd) globals \<Rightarrow> FREE_IMAGE_FORMAT \<Rightarrow> bool \<Rightarrow> int \<times> ('h, 'd) globals" where
  "FreeImage_SetPluginEnabled g fif enable =
     (case s_plugins g of
        None \<Rightarrow> (-1, g)
      | Some pl \<Rightarrow>
          (case FindNodeFromFIF pl fif of
             None \<Rightarrow> (-1, g)
           | Some node \<Rightarrow>
               (let previous_state = (if m_enabled node then 1 else 0)
                in (previous_state,
                    g\<lparr> s_plugins :=
                         Some (pl\<lparr> m_plugin_map := set_enabled fif enable (m_plugin_map pl) \<rparr>) \<rparr>))))"

definition FreeImage_IsPluginEnabled :: "('h, 'd) globals \<Rightarrow> FREE_IMAGE_FORMAT \<Rightarrow> int" where
  "FreeImage_IsPluginEnabled g fif =
     (case s_plugins g of
        None \<Rightarrow> -1
      | Some pl \<Rightarrow> (case FindNodeFromFIF pl fif of
                      None \<Rightarrow> 0
                    | Some node \<Rightarrow> (if m_enabled node then 1 else 0)))"

subsection \<open>Access functions\<close>

definition FreeImage_GetFIFCount :: "('h, 'd) globals \<Rightarrow> int" where
  "FreeImage_GetFIFCount g = (case s_plugins g of None \<Rightarrow> 0 | Some pl \<Rightarrow> Size pl)"

definition FreeImage_GetFIFFromFormat ::
  "('h, 'd) globals \<Rightarrow> string \<Rightarrow> fault + FREE_IMAGE_FORMAT" where
  "FreeImage_GetFIFFromFormat g format =
     (case s_plugins g of
        None \<Rightarrow> Inr FIF_UNKNOWN
      | Some pl \<Rightarrow>
          (case FindNodeFromFormat pl format of
             Inl e \<Rightarrow> Inl e
           | Inr None \<Rightarrow> Inr FIF_UNKNOWN
           | Inr (Some node) \<Rightarrow> Inr (m_id node)))"

definition FreeImage_GetFIFFromMime ::
  "('h, 'd) globals \<Rightarrow> string \<Rightarrow> fault + FREE_IMAGE_FORMAT" where
  "FreeImage_GetFIFFromMime g mime =
     (case s_plugins g of
        None \<Rightarrow> Inr FIF_UNKNOWN
      | Some pl \<Rightarrow>
          (case FindNodeFromMime pl mime of
             Inl e \<Rightarrow> Inl e
           | Inr None \<Rightarrow> Inr FIF_UNKNOWN
           | Inr (Some node) \<Rightarrow> Inr (m_id node)))"

definition FreeImage_GetFormatFromFIF ::
  "('h, 'd) globals \<Rightarrow> FREE_IMAGE_FORMAT \<Rightarrow> fault + string option" where
  "FreeImage_GetFormatFromFIF g fif =
     (case s_plugins g of
        None \<Rightarrow> Inr None
      | Some pl \<Rightarrow>
          (case FindNodeFromFIF pl fif of
             None \<Rightarrow> Inr None
           | Some node \<Rightarrow>
               (case m_format node of
                  Some f \<Rightarrow> Inr (Some f)
                | None \<Rightarrow> call_proc (format_proc (m_plugin node)))))"

definition FreeImage_GetFIFExtensionList ::
  "('h, 'd) globals \<Rightarrow> FREE_IMAGE_FORMAT \<Rightarrow> fault + string option" where
  "FreeImage_GetFIFExtensionList g fif =
     (case s_plugins g of
        None \<Rightarrow> Inr None
      | Some pl \<Rightarrow>
          (case FindNodeFromFIF pl fif of
             None \<Rightarrow> Inr None
           | Some node \<Rightarrow>
               (case m_extension node of
                  Some e \<Rightarrow> Inr (Some e)
                | None \<Rightarrow>
                    (case extension_proc (m_plugin node) of
                       Some r \<Rightarrow> call_proc (Some r)
                     | None \<Rightarrow> Inr None))))"

subsection \<open>Detection by file name\<close>

text \<open>\<^verbatim>\<open>strrchr(filename, '.')\<close>: what follows the last dot, or the whole name.\<close>

definition extension_of :: "string \<Rightarrow> string" where
  "extension_of filename =
     (if CHR ''.'' \<in> set filename then rev (takeWhile (\<lambda>c. c \<noteq> CHR ''.'') (rev filename))
      else filename)"

text \<open>The tokens \<^verbatim>\<open>strtok\<close> yields one after the other: the non-empty pieces between
  delimiters.\<close>

fun split_at :: "char \<Rightarrow> string \<Rightarrow> string list" where
  "split_at d [] = [[]]"
| "split_at d (c # cs) =
     (if c = d then [] # split_at d cs
      else (case split_at d cs of
              [] \<Rightarrow> [[c]]
            | t # ts \<Rightarrow> (c # t) # ts))"

definition strtok_all :: "string \<Rightarrow> char \<Rightarrow> string list" where
  "strtok_all s d = filter (\<lambda>t. t \<noteq> []) (split_at d s)"

fun GetFIFFromFilename_loop ::
  "('h, 'd) globals \<Rightarrow> ('h, 'd) PluginList \<Rightarrow> string \<Rightarrow> int list
     \<Rightarrow> fault + FREE_IMAGE_FORMAT" where
  "GetFIFFromFilename_loop g pl extension [] = Inr FIF_UNKNOWN"
| "GetFIFFromFilename_loop g pl extension (i # rest) =
     (case FindNodeFromFIF pl i of
        None \<Rightarrow> Inl NullPointer
      | Some node \<Rightarrow>
          (if m_enabled node then
             (case FreeImage_GetFormatFromFIF g i of
                Inl e \<Rightarrow> Inl e
              | Inr None \<Rightarrow> Inl NullPointer
              | Inr (Some fmt) \<Rightarrow>
                  (if FreeImage_stricmp fmt extension = 0 then Inr i
                   else
                     (case FreeImage_GetFIFExtensionList g i of
                        Inl e \<Rightarrow> Inl e
                      | Inr None \<Rightarrow> Inl NullPointer
                      | Inr (Some exts) \<Rightarrow>
                          (if list_ex (\<lambda>token. FreeImage_stricmp token extension = 0)
                                (strtok_all exts CHR '','')
                           then Inr i
                           else GetFIFFromFilename_loop g pl extension rest))))
           else GetFIFFromFilename_loop g pl extension rest))"

definition FreeImage_GetFIFFromFilename ::
  "('h, 'd) globals \<Rightarrow> string option \<Rightarrow> fault + FREE_IMAGE_FORMAT" where
  "FreeImage_GetFIFFromFilename g filename =
     (case filename of
        None \<Rightarrow> Inr FIF_UNKNOWN
      | Some name \<Rightarrow>
          (case s_plugins g of
             None \<Rightarrow> Inr FIF_UNKNOWN
           | Some pl \<Rightarrow>
               GetFIFFromFilename_loop g pl (extension_of name)
                 (map int [0..<nat (FreeImage_GetFIFCount g)])))"

subsection \<open>Probing\<close>

definition FreeImage_ValidateFIF ::
  "('h, 'd) globals \<Rightarrow> FREE_IMAGE_FORMAT \<Rightarrow> 'h FreeImageIO \<Rightarrow> 'h \<Rightarrow> bool \<times> 'h" where
  "FreeImage_ValidateFIF g fif io handle =
     (case s_plugins g of
        None \<Rightarrow> (False, handle)
      | Some pl \<Rightarrow>
          (case FindNodeFromFIF pl fif of
             None \<Rightarrow> (False, handle)
           | Some node \<Rightarrow>
               (let tell = tell_proc io handle;
                    (validated, handle') =
                       (if m_enabled node then
                          (case validate_proc (m_plugin node) of
                             Some validate \<Rightarrow> validate io handle
                           | None \<Rightarrow> (False, handle))
                        else (False, handle))
                in (validated, seek_proc io handle' tell SEEK_SET))))"

subsection \<open>Load and save\<close>

text \<open>The calls that leave the registry, in the order they are made: the plugin hooks, and
  the message callback \<^verbatim>\<open>FreeImage_OutputMessageProc\<close>.\<close>

datatype call = Open_hook int | Close_hook int | Load_hook int | Save_hook int
  | OutputMessage int string

fun is_plugin_hook :: "call \<Rightarrow> bool" where
  "is_plugin_hook (OutputMessage fif text) = False"
| "is_plugin_hook c = True"

definition FreeImage_Open ::
  "('h, 'd) PluginNode \<Rightarrow> 'h FreeImageIO \<Rightarrow> 'h \<times> call list \<Rightarrow> bool
     \<Rightarrow> 'd option \<times> ('h \<times> call list)" where
  "FreeImage_Open node io w open_for_reading =
     (case open_proc (m_plugin node) of
        Some f \<Rightarrow> (case f io (fst w) open_for_reading of
                     (data, handle') \<Rightarrow> (data, (handle', snd w @ [Open_hook (m_id node)])))
      | None \<Rightarrow> (None, w))"

definition FreeImage_Close ::
  "('h, 'd) PluginNode \<Rightarrow> 'h FreeImageIO \<Rightarrow> 'h \<times> call list \<Rightarrow> 'd option \<Rightarrow> 'h \<times> call list" where
  "FreeImage_Close node io w data =
     (case close_proc (m_plugin node) of
        Some f \<Rightarrow> (f io (fst w) data, snd w @ [Close_hook (m_id node)])
      | None \<Rightarrow> w)"

definition FreeImage_LoadFromHandle ::
  "('h, 'd) globals \<Rightarrow> FREE_IMAGE_FORMAT \<Rightarrow> 'h FreeImageIO \<Rightarrow> 'h \<times> call list \<Rightarrow> int
     \<Rightarrow> fault + (FIBITMAP option \<times> ('h \<times> call list))" where
  "FreeImage_LoadFromHandle g fif io w flags =
     (if 0 \<le> fif \<and> fif < FreeImage_GetFIFCount g then
        (case s_plugins g of
           None \<Rightarrow> Inl NullPointer
         | Some pl \<Rightarrow>
             (case FindNodeFromFIF pl fif of
                None \<Rightarrow> Inr (None, w)
              | Some node \<Rightarrow>
                  (case load_proc (m_plugin node) of
                     None \<Rightarrow> Inr (None, w)
                   | Some load \<Rightarrow>
                       (case FreeImage_Open node io w True of
                          (data, w1) \<Rightarrow>
                            (case load io (fst w1) (-1) flags data of
                               (bitmap, handle2) \<Rightarrow>
                                 Inr (bitmap,
                                      FreeImage_Close node io
                                        (handle2, snd w1 @ [Load_hook (m_id node)]) data))))))
      else Inr (None, w))"

definition FreeImage_SaveToHandle ::
  "('h, 'd) globals \<Rightarrow> FREE_IMAGE_FORMAT \<Rightarrow> FIBITMAP \<Rightarrow> 'h FreeImageIO \<Rightarrow> 'h \<times> call list \<Rightarrow> int
     \<Rightarrow> fault + (bool \<times> ('h \<times> call list))" where
  "FreeImage_SaveToHandle g fif dib io w flags =
     (if \<not> HasPixels dib then
        Inr (False, (fst w, snd w @ [OutputMessage fif
               (''FreeImage_SaveToHandle: cannot save '' @ [CHR 0x22] @ ''header only''
                  @ [CHR 0x22] @ '' formats'')]))
      else if 0 \<le> fif \<and> fif < FreeImage_GetFIFCount g then
        (case s_plugins g of
           None \<Rightarrow> Inl NullPointer
         | Some pl \<Rightarrow>
             (case FindNodeFromFIF pl fif of
                None \<Rightarrow> Inr (False, w)
              | Some node \<Rightarrow>
                  (case save_proc (m_plugin node) of
                     None \<Rightarrow> Inr (False, w)
                   | Some save \<Rightarrow>
                       (case FreeImage_Open node io w False of
                          (data, w1) \<Rightarrow>
                            (case save io dib (fst w1) (-1) flags data of
                               (result, handle2) \<Rightarrow>
                                 Inr (result,
                                      FreeImage_Close node io
                                        (handle2, snd w1 @ [Save_hook (m_id node)]) data))))))
      else Inr (False, w))"

section \<open>Colour toolkit (the colour manipulation routines)\<close>

subsection \<open>Floating-point arithmetic\<close>

text \<open>
  The routines compute in \<^verbatim>\<open>float\<close> and \<^verbatim>\<open>double\<close>.  Their arithmetic is a parameter of
  the model: a record of the operations the code applies, over any carrier \<open>'f\<close>.  What
  is proved for every such record holds for the machine's arithmetic, whatever its
  rounding, infinities and NaNs do.  \<open>fp_const\<close> converts an exact constant or integer
  value into the format; the two casts are those to \<^verbatim>\<open>uint8_t\<close> and \<^verbatim>\<open>uint32_t\<close>;
  \<open>fp_cabs\<close> is \<^verbatim>\<open>std::abs\<close> of the complex number with the given parts.
\<close>

record 'f fp_ops =
  fp_const :: "rat \<Rightarrow> 'f"
  fp_add :: "'f \<Rightarrow> 'f \<Rightarrow> 'f"
  fp_sub :: "'f \<Rightarrow> 'f \<Rightarrow> 'f"
  fp_mul :: "'f \<Rightarrow> 'f \<Rightarrow> 'f"
  fp_div :: "'f \<Rightarrow> 'f \<Rightarrow> 'f"
  fp_neg :: "'f \<Rightarrow> 'f"
  fp_pow :: "'f \<Rightarrow> 'f \<Rightarrow> 'f"
  fp_floor :: "'f \<Rightarrow> 'f"
  fp_cabs :: "'f \<Rightarrow> 'f \<Rightarrow> 'f"
  fp_less :: "'f \<Rightarrow> 'f \<Rightarrow> bool"
  fp_eq :: "'f \<Rightarrow> 'f \<Rightarrow> bool"
  fp_to_uint8 :: "'f \<Rightarrow> 8 word"
  fp_to_uint32 :: "'f \<Rightarrow> 32 word"

text \<open>\<^verbatim>\<open>MAX\<close> and \<^verbatim>\<open>MIN\<close> of \<^verbatim>\<open>Utilities.h\<close>: \<^verbatim>\<open>(a > b) ? a : b\<close> and \<^verbatim>\<open>(a < b) ? a : b\<close>.\<close>

definition MAX_fp :: "'f fp_ops \<Rightarrow> 'f \<Rightarrow> 'f \<Rightarrow> 'f" where
  "MAX_fp ops a b = (if fp_less ops b a then a else b)"

definition MIN_fp :: "'f fp_ops \<Rightarrow> 'f \<Rightarrow> 'f \<Rightarrow> 'f" where
  "MIN_fp ops a b = (if fp_less ops a b then a else b)"

subsection \<open>\<^verbatim>\<open>FreeImage_GetAdjustColorsLookupTable\<close>\<close>

text \<open>The loop \<^verbatim>\<open>for (int i = 0; i < 256; i++) a[i] = f(a[i]);\<close> over an array.\<close>

definition for_each_256 :: "('a \<Rightarrow> 'a) \<Rightarrow> 'a list \<Rightarrow> 'a list" where
  "for_each_256 f a = fold (\<lambda>i a. a[i := f (a ! i)]) [0..<256] a"

text \<open>The loop \<^verbatim>\<open>for (int i = 0; i < 256; i++) a[i] = f(i);\<close> filling a fresh array.\<close>

definition fill_256 :: "(nat \<Rightarrow> 'a) \<Rightarrow> 'a list" where
  "fill_256 f = map f [0..<256]"

definition FreeImage_GetAdjustColorsLookupTable ::
  "'f fp_ops \<Rightarrow> 'f \<Rightarrow> 'f \<Rightarrow> 'f \<Rightarrow> bool \<Rightarrow> int \<times> 8 word list" where
  "FreeImage_GetAdjustColorsLookupTable ops brightness contrast gamma invert =
     (if fp_eq ops brightness (fp_const ops 0) \<and> fp_eq ops contrast (fp_const ops 0)
         \<and> fp_eq ops gamma (fp_const ops 1) \<and> \<not> invert
      then (0, fill_256 (\<lambda>i. of_nat i))
      else
        (let dblLUT0 = fill_256 (\<lambda>i. fp_const ops (of_nat i));
             (dblLUT1, result1) =
               (if \<not> fp_eq ops contrast (fp_const ops 0) then
                  (let v = fp_div ops (fp_add ops (fp_const ops 100) contrast) (fp_const ops 100)
                   in (for_each_256
                         (\<lambda>d. let value = fp_add ops (fp_const ops 128)
                                            (fp_mul ops (fp_sub ops d (fp_const ops 128)) v)
                              in MAX_fp ops (fp_const ops 0) (MIN_fp ops value (fp_const ops 255)))
                         dblLUT0,
                       1))
                else (dblLUT0, 0));
             (dblLUT2, result2) =
               (if \<not> fp_eq ops brightness (fp_const ops 0) then
                  (let v = fp_div ops (fp_add ops (fp_const ops 100) brightness) (fp_const ops 100)
                   in (for_each_256
                         (\<lambda>d. let value = fp_mul ops d v
                              in MAX_fp ops (fp_const ops 0) (MIN_fp ops value (fp_const ops 255)))
                         dblLUT1,
                       result1 + 1))
                else (dblLUT1, result1));
             (dblLUT3, result3) =
               (if fp_less ops (fp_const ops 0) gamma \<and> \<not> fp_eq ops gamma (fp_const ops 1) then
                  (let exponent = fp_div ops (fp_const ops 1) gamma;
                       v = fp_mul ops (fp_const ops 255)
                             (fp_pow ops (fp_const ops 255) (fp_neg ops exponent))
                   in (for_each_256
                         (\<lambda>d. let value = fp_mul ops (fp_pow ops d exponent) v
                              in MAX_fp ops (fp_const ops 0) (MIN_fp ops value (fp_const ops 255)))
                         dblLUT2,
                       result2 + 1))
                else (dblLUT2, result2))
         in if \<not> invert then
              (result3,
               fill_256 (\<lambda>i. fp_to_uint8 ops
                                (fp_floor ops (fp_add ops (dblLUT3 ! i) (fp_const ops (1 / 2))))))
            else
              (result3 + 1,
               fill_256 (\<lambda>i. 255 - fp_to_uint8 ops
                                (fp_floor ops (fp_add ops (dblLUT3 ! i) (fp_const ops (1 / 2))))))))"

subsection \<open>\<^verbatim>\<open>FreeImage_AdjustCurve\<close>\<close>

text \<open>The byte offsets of the channels in a pixel (\<^verbatim>\<open>FreeImage.h\<close>), for the colour order the
  build selects (\<^verbatim>\<open>FREEIMAGE_COLORORDER=1\<close>, red first).\<close>

definition FI_RGBA_RED :: nat where "FI_RGBA_RED = 0"
definition FI_RGBA_GREEN :: nat where "FI_RGBA_GREEN = 1"
definition FI_RGBA_BLUE :: nat where "FI_RGBA_BLUE = 2"
definition FI_RGBA_ALPHA :: nat where "FI_RGBA_ALPHA = 3"

text \<open>\<^verbatim>\<open>bits[k] = LUT[bits[k]]\<close>.\<close>

definition apply_LUT :: "8 word list \<Rightarrow> nat \<Rightarrow> 8 word list \<Rightarrow> 8 word list" where
  "apply_LUT LUT k bits = bits[k := LUT ! unat (bits ! k)]"

text \<open>The two nested loops over \<open>y\<close> and \<open>x\<close>; \<open>body x\<close> is what one iteration does to
  the scanline.\<close>

definition for_each_pixel ::
  "(nat \<Rightarrow> 8 word list \<Rightarrow> 8 word list) \<Rightarrow> FIBITMAP \<Rightarrow> FIBITMAP" where
  "for_each_pixel body src =
     fold (\<lambda>y dib. dib\<lparr> GetScanLine :=
              (GetScanLine dib)(y := fold body [0..<unat (GetWidth dib)] (GetScanLine dib y)) \<rparr>)
       [0..<unat (GetHeight src)] src"

definition FreeImage_AdjustCurve ::
  "FIBITMAP \<Rightarrow> 8 word list option \<Rightarrow> FREE_IMAGE_COLOR_CHANNEL \<Rightarrow> fault + (bool \<times> FIBITMAP)" where
  "FreeImage_AdjustCurve src LUT channel =
     (case (if \<not> HasPixels src \<or> LUT = None \<or> GetImageType src \<noteq> FIT_BITMAP then None
            else LUT) of
        None \<Rightarrow> Inr (False, src)
      | Some lut \<Rightarrow>
          if GetBPP src \<noteq> 8 \<and> GetBPP src \<noteq> 24 \<and> GetBPP src \<noteq> 32 then Inr (False, src)
          else if GetBPP src = 8 then
            (if GetColorType src = FIC_PALETTE then
               Inr (True, src\<lparr> GetPalette :=
                      fold (\<lambda>pal rgb. rgb[pal := (rgb ! pal)\<lparr>
                                red := lut ! unat (red (rgb ! pal)),
                                green := lut ! unat (green (rgb ! pal)),
                                blue := lut ! unat (blue (rgb ! pal)) \<rparr>])
                        [0..<unat (GetColorsUsed src)] (GetPalette src) \<rparr>)
             else Inr (True, for_each_pixel (\<lambda>x. apply_LUT lut x) src))
          else if GetWidth src = 0 then Inl DivideByZero
          else
            (let bytespp = unat (GetLine src div GetWidth src) in
             case channel of
               FICC_RGB \<Rightarrow>
                 Inr (True, for_each_pixel
                        (\<lambda>x bits. apply_LUT lut (x * bytespp + FI_RGBA_RED)
                                    (apply_LUT lut (x * bytespp + FI_RGBA_GREEN)
                                      (apply_LUT lut (x * bytespp + FI_RGBA_BLUE) bits))) src)
             | FICC_BLUE \<Rightarrow>
                 Inr (True, for_each_pixel (\<lambda>x. apply_LUT lut (x * bytespp + FI_RGBA_BLUE)) src)
             | FICC_GREEN \<Rightarrow>
                 Inr (True, for_each_pixel (\<lambda>x. apply_LUT lut (x * bytespp + FI_RGBA_GREEN)) src)
             | FICC_RED \<Rightarrow>
                 Inr (True, for_each_pixel (\<lambda>x. apply_LUT lut (x * bytespp + FI_RGBA_RED)) src)
             | FICC_ALPHA \<Rightarrow>
                 (if 32 = GetBPP src then
                    Inr (True, for_each_pixel (\<lambda>x. apply_LUT lut (x * bytespp + FI_RGBA_ALPHA)) src)
                  else Inr (True, src))
             | _ \<Rightarrow> Inr (True, src)))"

subsection \<open>Histogram engine\<close>

text \<open>
  The caller's histogram storage is a store of 32-bit counters, addressed in units of one
  counter; a buffer pointer is an address in it, or null.  Buffers may interleave or
  overlap, so the store is shared by all four.
\<close>

type_synonym counters = "nat \<Rightarrow> 32 word"

record ('p, 'v) HistogramBuilder =
  mHist :: "nat option"
  mStride :: "32 word"
  PixelSelector :: "'p \<Rightarrow> 'v"

definition HistogramBuilder :: "('p \<Rightarrow> 'v) \<Rightarrow> nat option \<Rightarrow> 32 word \<Rightarrow> ('p, 'v) HistogramBuilder" where
  "HistogramBuilder sel hist stride = \<lparr> mHist = hist, mStride = stride, PixelSelector = sel \<rparr>"

definition Discardable :: "('p, 'v) HistogramBuilder \<Rightarrow> bool" where
  "Discardable b \<longleftrightarrow> mHist b = None"

text \<open>\<^verbatim>\<open>SetZero\<close> and \<^verbatim>\<open>Add\<close> are only called on builders that are not discardable; on a
  null buffer the model leaves the store as it is.\<close>

definition SetZero :: "('p, 'v) HistogramBuilder \<Rightarrow> 32 word \<Rightarrow> counters \<Rightarrow> counters" where
  "SetZero b v m = (case mHist b of None \<Rightarrow> m | Some a \<Rightarrow> m(a := v))"

text \<open>The index \<^verbatim>\<open>i * mStride\<close> is a product of two \<^verbatim>\<open>uint32_t\<close>.\<close>

definition Add ::
  "('p, 'v) HistogramBuilder \<Rightarrow> 'p \<Rightarrow> ('v \<Rightarrow> 32 word) \<Rightarrow> counters \<Rightarrow> counters" where
  "Add b pixel indexFunction m =
     (let i = indexFunction (PixelSelector b pixel) in
      case mHist b of
        None \<Rightarrow> m
      | Some a \<Rightarrow> m(a + unat (i * mStride b) := m (a + unat (i * mStride b)) + 1))"

text \<open>\<^verbatim>\<open>BitmapForEach<PixelType>\<close> (of \<^verbatim>\<open>SimpleTools.h\<close>): one visit of every pixel, row by
  row.  \<open>px\<close> reads pixel \<open>x\<close> of a scanline as a value of the pixel type.\<close>

definition BitmapForEach ::
  "(8 word list \<Rightarrow> nat \<Rightarrow> 'p) \<Rightarrow> FIBITMAP \<Rightarrow> ('p \<Rightarrow> nat \<Rightarrow> nat \<Rightarrow> 's \<Rightarrow> 's) \<Rightarrow> 's \<Rightarrow> 's" where
  "BitmapForEach px dib f s =
     fold (\<lambda>y. fold (\<lambda>x. f (px (GetScanLine dib y) x) x y) [0..<unat (GetWidth dib)])
       [0..<unat (GetHeight dib)] s"

text \<open>\<^verbatim>\<open>(..., builders.Add(p, indexFunction))\<close>: the builders from left to right.\<close>

definition AddAll ::
  "('p, 'v) HistogramBuilder list \<Rightarrow> ('v \<Rightarrow> 32 word) \<Rightarrow> 'p \<Rightarrow> counters \<Rightarrow> counters" where
  "AddAll builders indexFunction p m = fold (\<lambda>b. Add b p indexFunction) builders m"

definition HistogramFloat ::
  "'f fp_ops \<Rightarrow> (8 word list \<Rightarrow> nat \<Rightarrow> 'p) \<Rightarrow> FIBITMAP \<Rightarrow> 32 word \<Rightarrow> 'f \<Rightarrow> 'f
     \<Rightarrow> ('p, 'f) HistogramBuilder list \<Rightarrow> counters \<Rightarrow> bool \<times> counters" where
  "HistogramFloat ops px mBitmap mBinsNumber mMinVal mMaxVal builders m =
     (if fp_less ops mMaxVal mMinVal \<or> mBinsNumber < 1 then (False, m)
      else if fp_eq ops mMinVal mMaxVal then
        (let pixelsNumber = GetWidth mBitmap * GetHeight mBitmap
         in (True, fold (\<lambda>b. SetZero b pixelsNumber) builders m))
      else
        (let divisor = fp_div ops (fp_const ops (of_nat (unat mBinsNumber))) (fp_sub ops mMaxVal mMinVal);
             CalculateBinIndex = (\<lambda>value.
               let scaled = fp_mul ops (fp_sub ops value mMinVal) divisor;
                   i = fp_to_uint32 ops
                         (if fp_less ops (fp_const ops 0) scaled then scaled else fp_const ops 0)
               in min i (mBinsNumber - 1))
         in (True, BitmapForEach px mBitmap (\<lambda>p x y. AddAll builders CalculateBinIndex p) m)))"

text \<open>\<^verbatim>\<open>ToWiderType\<close> (of \<^verbatim>\<open>SimpleTools.h\<close>) names a type of twice the width; multiplied by the
  \<^verbatim>\<open>uint32_t\<close> bin count, the product is computed in \<open>'w\<close>: 32 bits for 8- and 16-bit
  channels, 64 bits for 32-bit channels.\<close>

definition CalculateBinIndexSigned ::
  "'w::len itself \<Rightarrow> 32 word \<Rightarrow> 'a::len word \<Rightarrow> 32 word" where
  "CalculateBinIndexSigned wide mBinsNumber value =
     (let uvalue = (word_of_int (sint value + 2 ^ (LENGTH('a) - 1)) :: 'w word);
          i = (ucast (drop_bit LENGTH('a) (uvalue * ucast mBinsNumber)) :: 32 word)
      in min i (mBinsNumber - 1))"

definition HistogramSInt ::
  "'w::len itself \<Rightarrow> (8 word list \<Rightarrow> nat \<Rightarrow> 'p) \<Rightarrow> FIBITMAP \<Rightarrow> 32 word
     \<Rightarrow> ('p, 'a::len word) HistogramBuilder list \<Rightarrow> counters \<Rightarrow> bool \<times> counters" where
  "HistogramSInt wide px mBitmap mBinsNumber builders m =
     (if mBinsNumber < 1 then (False, m)
      else (True, BitmapForEach px mBitmap
                    (\<lambda>p x y. AddAll builders (CalculateBinIndexSigned wide mBinsNumber) p) m))"

definition CalculateBinIndexWithoutScale :: "32 word \<Rightarrow> 'a::len word \<Rightarrow> 32 word" where
  "CalculateBinIndexWithoutScale mBinsNumber value =
     (let i = (ucast value :: 32 word) in min i (mBinsNumber - 1))"

definition CalculateBinIndexWithScale ::
  "'w::len itself \<Rightarrow> 32 word \<Rightarrow> 'a::len word \<Rightarrow> 32 word" where
  "CalculateBinIndexWithScale wide mBinsNumber value =
     (let i = (ucast (drop_bit LENGTH('a) ((ucast value :: 'w word) * ucast mBinsNumber)) :: 32 word)
      in min i (mBinsNumber - 1))"

definition HistogramUInt ::
  "'w::len itself \<Rightarrow> (8 word list \<Rightarrow> nat \<Rightarrow> 'p) \<Rightarrow> FIBITMAP \<Rightarrow> 32 word
     \<Rightarrow> ('p, 'a::len word) HistogramBuilder list \<Rightarrow> counters \<Rightarrow> bool \<times> counters" where
  "HistogramUInt wide px mBitmap mBinsNumber builders m =
     (if mBinsNumber < 1 then (False, m)
      else if unat mBinsNumber = 2 ^ LENGTH('a) then
        (True, BitmapForEach px mBitmap
                 (\<lambda>p x y. AddAll builders (CalculateBinIndexWithoutScale mBinsNumber) p) m)
      else
        (True, BitmapForEach px mBitmap
                 (\<lambda>p x y. AddAll builders (CalculateBinIndexWithScale wide mBinsNumber) p) m))"

text \<open>\<^verbatim>\<open>InvokeWithBuildersImpl<N>::Apply\<close>: the first builder is moved to the end of the
  argument list, or dropped when it is discardable; after \<open>N\<close> steps the function is called
  with what is left.\<close>

fun InvokeWithBuildersImpl ::
  "nat \<Rightarrow> (('p, 'v) HistogramBuilder list \<Rightarrow> 'r) \<Rightarrow> ('p, 'v) HistogramBuilder list \<Rightarrow> 'r" where
  "InvokeWithBuildersImpl 0 f args = f args"
| "InvokeWithBuildersImpl (Suc n) f [] = f []"
| "InvokeWithBuildersImpl (Suc n) f (b0 # args) =
     (if \<not> Discardable b0 then InvokeWithBuildersImpl n f (args @ [b0])
      else InvokeWithBuildersImpl n f args)"

definition InvokeWithBuilders ::
  "(('p, 'v) HistogramBuilder list \<Rightarrow> 'r) \<Rightarrow> ('p, 'v) HistogramBuilder list \<Rightarrow> 'r" where
  "InvokeWithBuilders f builders = InvokeWithBuildersImpl (length builders) f builders"

text \<open>What \<^verbatim>\<open>SimpleTools.h\<close> and the bitmap library provide to the histogram code and is
  not part of the files under study: the two arithmetics; for every pixel type, the read of
  pixel \<open>x\<close> of a scanline (\<^verbatim>\<open>uint8_t\<close> is the byte itself); \<^verbatim>\<open>Brightness\<close>, a fixed
  combination of the red, green and blue channel at the channel's width; and, for the
  floating-point types, the bounds \<^verbatim>\<open>PixelMin(StripAlpha(min))\<close> and
  \<^verbatim>\<open>PixelMax(StripAlpha(max))\<close> of what \<^verbatim>\<open>FreeImage_FindMinMaxValue\<close> reports, or \<open>None\<close>
  when it fails.\<close>

record ('f, 'd) SimpleTools =
  float_ops :: "'f fp_ops"
  double_ops :: "'d fp_ops"
  px_FIRGBA8 :: "8 word list \<Rightarrow> nat \<Rightarrow> 8 word FIRGBA"
  px_FIRGB8 :: "8 word list \<Rightarrow> nat \<Rightarrow> 8 word FIRGB"
  px_FIRGBA16 :: "8 word list \<Rightarrow> nat \<Rightarrow> 16 word FIRGBA"
  px_FIRGB16 :: "8 word list \<Rightarrow> nat \<Rightarrow> 16 word FIRGB"
  px_FIRGBA32 :: "8 word list \<Rightarrow> nat \<Rightarrow> 32 word FIRGBA"
  px_FIRGB32 :: "8 word list \<Rightarrow> nat \<Rightarrow> 32 word FIRGB"
  px_FIRGBAF :: "8 word list \<Rightarrow> nat \<Rightarrow> 'f FIRGBA"
  px_FIRGBF :: "8 word list \<Rightarrow> nat \<Rightarrow> 'f FIRGB"
  px_FICOMPLEX :: "8 word list \<Rightarrow> nat \<Rightarrow> 'd FICOMPLEX"
  px_FICOMPLEXF :: "8 word list \<Rightarrow> nat \<Rightarrow> 'f FICOMPLEX"
  px_double :: "8 word list \<Rightarrow> nat \<Rightarrow> 'd"
  px_float :: "8 word list \<Rightarrow> nat \<Rightarrow> 'f"
  px_uint32 :: "8 word list \<Rightarrow> nat \<Rightarrow> 32 word"
  px_int32 :: "8 word list \<Rightarrow> nat \<Rightarrow> 32 word"
  px_uint16 :: "8 word list \<Rightarrow> nat \<Rightarrow> 16 word"
  px_int16 :: "8 word list \<Rightarrow> nat \<Rightarrow> 16 word"
  Brightness8 :: "8 word \<Rightarrow> 8 word \<Rightarrow> 8 word \<Rightarrow> 8 word"
  Brightness16 :: "16 word \<Rightarrow> 16 word \<Rightarrow> 16 word \<Rightarrow> 16 word"
  Brightness32 :: "32 word \<Rightarrow> 32 word \<Rightarrow> 32 word \<Rightarrow> 32 word"
  BrightnessF :: "'f \<Rightarrow> 'f \<Rightarrow> 'f \<Rightarrow> 'f"
  bounds_FIRGBF :: "FIBITMAP \<Rightarrow> ('f \<times> 'f) option"
  bounds_FIRGBAF :: "FIBITMAP \<Rightarrow> ('f \<times> 'f) option"
  bounds_FICOMPLEX :: "FIBITMAP \<Rightarrow> ('d \<times> 'd) option"
  bounds_FICOMPLEXF :: "FIBITMAP \<Rightarrow> ('f \<times> 'f) option"
  bounds_double :: "FIBITMAP \<Rightarrow> ('d \<times> 'd) option"
  bounds_float :: "FIBITMAP \<Rightarrow> ('f \<times> 'f) option"

definition px_uint8 :: "8 word list \<Rightarrow> nat \<Rightarrow> 8 word" where
  "px_uint8 bits x = bits ! x"

definition SelectRed :: "('a, 'z) FIRGB_scheme \<Rightarrow> 'a" where
  "SelectRed p = red p"

definition SelectGreen :: "('a, 'z) FIRGB_scheme \<Rightarrow> 'a" where
  "SelectGreen p = green p"

definition SelectBlue :: "('a, 'z) FIRGB_scheme \<Rightarrow> 'a" where
  "SelectBlue p = blue p"

definition SelectRgbBrightness :: "('a \<Rightarrow> 'a \<Rightarrow> 'a \<Rightarrow> 'a) \<Rightarrow> ('a, 'z) FIRGB_scheme \<Rightarrow> 'a" where
  "SelectRgbBrightness Brightness p = Brightness (red p) (green p) (blue p)"

definition SelectReal :: "'a FICOMPLEX \<Rightarrow> 'a" where
  "SelectReal p = real_part p"

definition SelectImag :: "'a FICOMPLEX \<Rightarrow> 'a" where
  "SelectImag p = imag_part p"

definition SelectAbs :: "'a fp_ops \<Rightarrow> 'a FICOMPLEX \<Rightarrow> 'a" where
  "SelectAbs ops p = fp_cabs ops (real_part p) (imag_part p)"

definition SelectIdentity :: "'a \<Rightarrow> 'a" where
  "SelectIdentity p = p"

text \<open>A value written through \<^verbatim>\<open>outMinVal\<close> or \<^verbatim>\<open>outMaxVal\<close>, with the type it is written
  as.  The two pointers are taken not to point into the histogram buffers.\<close>

datatype ('f, 'd) scalar =
  Uint8 "8 word" | Uint16 "16 word" | Int16 "16 word" | Uint32 "32 word" | Int32 "32 word"
  | Float 'f | Double 'd

record ('f, 'd) histogram_result =
  success :: bool
  outMin :: "('f, 'd) scalar option"
  outMax :: "('f, 'd) scalar option"
  store :: counters

text \<open>\<^verbatim>\<open>if (success) SetIntMinMax<Ty>(outMinVal, outMaxVal)\<close>, with \<open>lowest\<close> and \<open>highest\<close>
  the limits of \<open>Ty\<close>.\<close>

definition SetIntMinMax ::
  "('f, 'd) scalar \<Rightarrow> ('f, 'd) scalar \<Rightarrow> bool \<Rightarrow> bool \<Rightarrow> bool \<times> counters
     \<Rightarrow> ('f, 'd) histogram_result" where
  "SetIntMinMax lowest highest outMinVal outMaxVal r =
     \<lparr> success = fst r,
       outMin = (if fst r \<and> outMinVal then Some lowest else None),
       outMax = (if fst r \<and> outMaxVal then Some highest else None),
       store = snd r \<rparr>"

definition ClearHistogram :: "nat option \<Rightarrow> 32 word \<Rightarrow> 32 word \<Rightarrow> counters \<Rightarrow> counters" where
  "ClearHistogram hist stride binsNumber m =
     (case hist of
        None \<Rightarrow> m
      | Some a \<Rightarrow>
          if stride = 1 then (\<lambda>p. if a \<le> p \<and> p < a + unat binsNumber then 0 else m p)
          else fold (\<lambda>i m. m(a + i * unat stride := 0)) [0..<unat binsNumber] m)"

text \<open>\<^verbatim>\<open>FindHistogramBounds\<close>; \<open>FindMinMax\<close> is the bounds entry of the tools for the pixel type,
  \<open>as_scalar\<close> the type the bounds are written as.\<close>

definition FindHistogramBounds ::
  "(FIBITMAP \<Rightarrow> ('v \<times> 'v) option) \<Rightarrow> ('v \<Rightarrow> ('f, 'd) scalar) \<Rightarrow> FIBITMAP \<Rightarrow> bool \<Rightarrow> bool
     \<Rightarrow> ('v \<times> 'v \<times> ('f, 'd) scalar option \<times> ('f, 'd) scalar option) option" where
  "FindHistogramBounds FindMinMax as_scalar dib outMinVal outMaxVal =
     (case FindMinMax dib of
        None \<Rightarrow> None
      | Some (minVal, maxVal) \<Rightarrow>
          Some (minVal, maxVal,
                if outMinVal then Some (as_scalar minVal) else None,
                if outMaxVal then Some (as_scalar maxVal) else None))"

text \<open>A floating-point case of the switch: the bounds, then the histogram.\<close>

definition float_case ::
  "('v \<times> 'v \<times> ('f, 'd) scalar option \<times> ('f, 'd) scalar option) option
     \<Rightarrow> ('v \<Rightarrow> 'v \<Rightarrow> counters \<Rightarrow> bool \<times> counters) \<Rightarrow> counters \<Rightarrow> ('f, 'd) histogram_result" where
  "float_case bounds run m =
     (case bounds of
        None \<Rightarrow> \<lparr> success = False, outMin = None, outMax = None, store = m \<rparr>
      | Some (minVal, maxVal, omin, omax) \<Rightarrow>
          (case run minVal maxVal m of
             (ok, m') \<Rightarrow> \<lparr> success = ok, outMin = omin, outMax = omax, store = m' \<rparr>))"

text \<open>The \<^verbatim>\<open>switch\<close> of \<^verbatim>\<open>FreeImage_MakeHistogram\<close>, entered with the cleared buffers.\<close>

definition MakeHistogram_switch ::
  "('f, 'd) SimpleTools \<Rightarrow> FIBITMAP \<Rightarrow> 32 word \<Rightarrow> bool \<Rightarrow> bool
     \<Rightarrow> nat option \<Rightarrow> 32 word \<Rightarrow> nat option \<Rightarrow> 32 word
     \<Rightarrow> nat option \<Rightarrow> 32 word \<Rightarrow> nat option \<Rightarrow> 32 word
     \<Rightarrow> counters \<Rightarrow> ('f, 'd) histogram_result" where
  "MakeHistogram_switch tools dib binsNumber outMinVal outMaxVal
       histR strideR histG strideG histB strideB histL strideL m =
     (case GetImageType dib of
        FIT_BITMAP \<Rightarrow>
          (let bpp = GetBPP dib; colorType = GetColorType2 dib in
           SetIntMinMax (Uint8 0) (Uint8 255) outMinVal outMaxVal
             (if (colorType = FIC_RGBALPHA \<or> colorType = FIC_YUV) \<and> bpp = 32 then
                InvokeWithBuilders (HistogramUInt TYPE(32) (px_FIRGBA8 tools) dib binsNumber)
                  [HistogramBuilder SelectRed histR strideR,
                  HistogramBuilder SelectGreen histG strideG,
                  HistogramBuilder SelectBlue histB strideB,
                  HistogramBuilder (SelectRgbBrightness (Brightness8 tools)) histL strideL]
                  m
              else if (colorType = FIC_RGB \<or> colorType = FIC_YUV) \<and> bpp = 24 then
                InvokeWithBuilders (HistogramUInt TYPE(32) (px_FIRGB8 tools) dib binsNumber)
                  [HistogramBuilder SelectRed histR strideR,
                  HistogramBuilder SelectGreen histG strideG,
                  HistogramBuilder SelectBlue histB strideB,
                  HistogramBuilder (SelectRgbBrightness (Brightness8 tools)) histL strideL]
                  m
              else if colorType = FIC_MINISBLACK \<and> bpp = 8 then
                InvokeWithBuilders (HistogramUInt TYPE(32) px_uint8 dib binsNumber)
                  [HistogramBuilder SelectIdentity histR strideR]
                  m
              else (False, m)))
      | FIT_RGBF \<Rightarrow>
          float_case (FindHistogramBounds (bounds_FIRGBF tools) Float dib outMinVal outMaxVal)
            (\<lambda>minVal maxVal. InvokeWithBuilders
               (HistogramFloat (float_ops tools) (px_FIRGBF tools) dib binsNumber minVal maxVal)
               [HistogramBuilder SelectRed histR strideR,
                HistogramBuilder SelectGreen histG strideG,
                HistogramBuilder SelectBlue histB strideB,
                HistogramBuilder (SelectRgbBrightness (BrightnessF tools)) histL strideL])
            m
      | FIT_RGBAF \<Rightarrow>
          float_case (FindHistogramBounds (bounds_FIRGBAF tools) Float dib outMinVal outMaxVal)
            (\<lambda>minVal maxVal. InvokeWithBuilders
               (HistogramFloat (float_ops tools) (px_FIRGBAF tools) dib binsNumber minVal maxVal)
               [HistogramBuilder SelectRed histR strideR,
                HistogramBuilder SelectGreen histG strideG,
                HistogramBuilder SelectBlue histB strideB,
                HistogramBuilder (SelectRgbBrightness (BrightnessF tools)) histL strideL])
            m
      | FIT_COMPLEX \<Rightarrow>
          float_case (FindHistogramBounds (bounds_FICOMPLEX tools) Double dib outMinVal outMaxVal)
            (\<lambda>minVal maxVal. InvokeWithBuilders
               (HistogramFloat (double_ops tools) (px_FICOMPLEX tools) dib binsNumber minVal maxVal)
               [HistogramBuilder SelectReal histR strideR,
                HistogramBuilder SelectImag histG strideG,
                HistogramBuilder (SelectAbs (double_ops tools)) histB strideB])
            m
      | FIT_COMPLEXF \<Rightarrow>
          float_case (FindHistogramBounds (bounds_FICOMPLEXF tools) Float dib outMinVal outMaxVal)
            (\<lambda>minVal maxVal. InvokeWithBuilders
               (HistogramFloat (float_ops tools) (px_FICOMPLEXF tools) dib binsNumber minVal maxVal)
               [HistogramBuilder SelectReal histR strideR,
                HistogramBuilder SelectImag histG strideG,
                HistogramBuilder (SelectAbs (float_ops tools)) histB strideB])
            m
      | FIT_DOUBLE \<Rightarrow>
          float_case (FindHistogramBounds (bounds_double tools) Double dib outMinVal outMaxVal)
            (\<lambda>minVal maxVal. InvokeWithBuilders
               (HistogramFloat (double_ops tools) (px_double tools) dib binsNumber minVal maxVal)
               [HistogramBuilder SelectIdentity histR strideR])
            m
      | FIT_FLOAT \<Rightarrow>
          float_case (FindHistogramBounds (bounds_float tools) Float dib outMinVal outMaxVal)
            (\<lambda>minVal maxVal. InvokeWithBuilders
               (HistogramFloat (float_ops tools) (px_float tools) dib binsNumber minVal maxVal)
               [HistogramBuilder SelectIdentity histR strideR])
            m
      | FIT_RGBA32 \<Rightarrow>
          SetIntMinMax (Uint32 0) (Uint32 0xFFFFFFFF) outMinVal outMaxVal
            (InvokeWithBuilders (HistogramUInt TYPE(64) (px_FIRGBA32 tools) dib binsNumber)
               [HistogramBuilder SelectRed histR strideR,
                HistogramBuilder SelectGreen histG strideG,
                HistogramBuilder SelectBlue histB strideB,
                HistogramBuilder (SelectRgbBrightness (Brightness32 tools)) histL strideL]
               m)
      | FIT_RGB32 \<Rightarrow>
          SetIntMinMax (Uint32 0) (Uint32 0xFFFFFFFF) outMinVal outMaxVal
            (InvokeWithBuilders (HistogramUInt TYPE(64) (px_FIRGB32 tools) dib binsNumber)
               [HistogramBuilder SelectRed histR strideR,
                HistogramBuilder SelectGreen histG strideG,
                HistogramBuilder SelectBlue histB strideB,
                HistogramBuilder (SelectRgbBrightness (Brightness32 tools)) histL strideL]
               m)
      | FIT_RGBA16 \<Rightarrow>
          SetIntMinMax (Uint16 0) (Uint16 0xFFFF) outMinVal outMaxVal
            (InvokeWithBuilders (HistogramUInt TYPE(32) (px_FIRGBA16 tools) dib binsNumber)
               [HistogramBuilder SelectRed histR strideR,
                HistogramBuilder SelectGreen histG strideG,
                HistogramBuilder SelectBlue histB strideB,
                HistogramBuilder (SelectRgbBrightness (Brightness16 tools)) histL strideL]
               m)
      | FIT_RGB16 \<Rightarrow>
          SetIntMinMax (Uint16 0) (Uint16 0xFFFF) outMinVal outMaxVal
            (InvokeWithBuilders (HistogramUInt TYPE(32) (px_FIRGB16 tools) dib binsNumber)
               [HistogramBuilder SelectRed histR strideR,
                HistogramBuilder SelectGreen histG strideG,
                HistogramBuilder SelectBlue histB strideB,
                HistogramBuilder (SelectRgbBrightness (Brightness16 tools)) histL strideL]
               m)
      | FIT_UINT32 \<Rightarrow>
          SetIntMinMax (Uint32 0) (Uint32 0xFFFFFFFF) outMinVal outMaxVal
            (InvokeWithBuilders (HistogramUInt TYPE(64) (px_uint32 tools) dib binsNumber)
               [HistogramBuilder SelectIdentity histR strideR]
               m)
      | FIT_INT32 \<Rightarrow>
          SetIntMinMax (Int32 0x80000000) (Int32 0x7FFFFFFF) outMinVal outMaxVal
            (InvokeWithBuilders (HistogramSInt TYPE(64) (px_int32 tools) dib binsNumber)
               [HistogramBuilder SelectIdentity histR strideR]
               m)
      | FIT_UINT16 \<Rightarrow>
          SetIntMinMax (Uint16 0) (Uint16 0xFFFF) outMinVal outMaxVal
            (InvokeWithBuilders (HistogramUInt TYPE(32) (px_uint16 tools) dib binsNumber)
               [HistogramBuilder SelectIdentity histR strideR]
               m)
      | FIT_INT16 \<Rightarrow>
          SetIntMinMax (Int16 0x8000) (Int16 0x7FFF) outMinVal outMaxVal
            (InvokeWithBuilders (HistogramSInt TYPE(32) (px_int16 tools) dib binsNumber)
               [HistogramBuilder SelectIdentity histR strideR]
               m)
      | FIT_UNKNOWN \<Rightarrow> \<lparr> success = False, outMin = None, outMax = None, store = m \<rparr>)"

definition FreeImage_MakeHistogram ::
  "('f, 'd) SimpleTools \<Rightarrow> FIBITMAP \<Rightarrow> 32 word \<Rightarrow> bool \<Rightarrow> bool
     \<Rightarrow> nat option \<Rightarrow> 32 word \<Rightarrow> nat option \<Rightarrow> 32 word
     \<Rightarrow> nat option \<Rightarrow> 32 word \<Rightarrow> nat option \<Rightarrow> 32 word
     \<Rightarrow> counters \<Rightarrow> ('f, 'd) histogram_result" where
  "FreeImage_MakeHistogram tools dib binsNumber outMinVal outMaxVal
       histR strideR histG strideG histB strideB histL strideL m =
     (if \<not> HasPixels dib \<or> binsNumber < 1 then
        \<lparr> success = False, outMin = None, outMax = None, store = m \<rparr>
      else if (histR \<noteq> None \<and> strideR \<le> 0) \<or> (histG \<noteq> None \<and> strideG \<le> 0)
              \<or> (histB \<noteq> None \<and> strideB \<le> 0) \<or> (histL \<noteq> None \<and> strideL \<le> 0) then
        \<lparr> success = False, outMin = None, outMax = None, store = m \<rparr>
      else if histR = None \<and> histG = None \<and> histB = None \<and> histL = None then
        \<lparr> success = True, outMin = None, outMax = None, store = m \<rparr>
      else
        MakeHistogram_switch tools dib binsNumber outMinVal outMaxVal
          histR strideR histG strideG histB strideB histL strideL
          (ClearHistogram histL strideL binsNumber
            (ClearHistogram histB strideB binsNumber
              (ClearHistogram histG strideG binsNumber
                (ClearHistogram histR strideR binsNumber m)))))"

section \<open>Vocabulary of the statements\<close>

subsection \<open>Registry\<close>

text \<open>The catalogue's invariant: the keys are \<open>0, 1, ..., n - 1\<close>, and every descriptor
  carries its key as its id.\<close>

definition keys_dense :: "('h, 'd) PluginList \<Rightarrow> bool" where
  "keys_dense pl \<longleftrightarrow> map fst (m_plugin_map pl) = map int [0..<length (m_plugin_map pl)]"

definition ids_match :: "('h, 'd) PluginList \<Rightarrow> bool" where
  "ids_match pl \<longleftrightarrow> (\<forall>(k, node) \<in> set (m_plugin_map pl). m_id node = k)"

definition registry_ok :: "('h, 'd) PluginList \<Rightarrow> bool" where
  "registry_ok pl \<longleftrightarrow> keys_dense pl \<and> ids_match pl"

text \<open>A format name can be determined: from the override, or from the capability table's
  format-name function.\<close>

definition format_name_determined :: "string option \<Rightarrow> ('h, 'd) Plugin \<Rightarrow> bool" where
  "format_name_determined format plugin \<longleftrightarrow>
     format \<noteq> None \<or> (\<exists>s. format_proc plugin = Some (Returns (Some s)))"

definition registration_fails ::
  "('h, 'd) PluginList \<Rightarrow> ('h, 'd) FI_InitProc option \<Rightarrow> string option \<Rightarrow> bool" where
  "registration_fails pl init_proc format \<longleftrightarrow>
     (case init_proc of
        None \<Rightarrow> True
      | Some init \<Rightarrow> (case init (Size pl) of
                        Throws \<Rightarrow> True
                      | Returns plugin \<Rightarrow> \<not> format_name_determined format plugin))"

text \<open>A sequence of registrations, with the id each one returns.\<close>

fun register_all ::
  "('h, 'd) PluginList \<Rightarrow> ('h, 'd) registration list \<Rightarrow> FREE_IMAGE_FORMAT list \<times> ('h, 'd) PluginList" where
  "register_all pl [] = ([], pl)"
| "register_all pl (r # rs) =
     (let a = AddNode_local pl r; b = register_all (snd a) rs in (fst a # fst b, snd b))"

subsection \<open>Lookup table\<close>

text \<open>The description of the table: the transforms, each clamped to \<open>[0, 255]\<close>, and the
  rounding \<open>floor (x + 0.5)\<close> into a byte.\<close>

definition clamp_255 :: "'f fp_ops \<Rightarrow> 'f \<Rightarrow> 'f" where
  "clamp_255 ops x = MAX_fp ops (fp_const ops 0) (MIN_fp ops x (fp_const ops 255))"

definition contrast_transform :: "'f fp_ops \<Rightarrow> 'f \<Rightarrow> 'f \<Rightarrow> 'f" where
  "contrast_transform ops contrast x =
     clamp_255 ops (fp_add ops (fp_const ops 128)
       (fp_mul ops (fp_sub ops x (fp_const ops 128))
          (fp_div ops (fp_add ops (fp_const ops 100) contrast) (fp_const ops 100))))"

definition brightness_transform :: "'f fp_ops \<Rightarrow> 'f \<Rightarrow> 'f \<Rightarrow> 'f" where
  "brightness_transform ops brightness x =
     clamp_255 ops (fp_mul ops x
       (fp_div ops (fp_add ops (fp_const ops 100) brightness) (fp_const ops 100)))"

definition gamma_transform :: "'f fp_ops \<Rightarrow> 'f \<Rightarrow> 'f \<Rightarrow> 'f" where
  "gamma_transform ops gamma x =
     clamp_255 ops (fp_mul ops (fp_pow ops x (fp_div ops (fp_const ops 1) gamma))
       (fp_mul ops (fp_const ops 255)
          (fp_pow ops (fp_const ops 255) (fp_neg ops (fp_div ops (fp_const ops 1) gamma)))))"

definition invert_transform :: "'f fp_ops \<Rightarrow> 'f \<Rightarrow> 'f" where
  "invert_transform ops x = clamp_255 ops (fp_sub ops (fp_const ops 255) x)"

definition round_half_up :: "'f fp_ops \<Rightarrow> 'f \<Rightarrow> 8 word" where
  "round_half_up ops x = fp_to_uint8 ops (fp_floor ops (fp_add ops x (fp_const ops (1 / 2))))"

definition contrast_applies :: "'f fp_ops \<Rightarrow> 'f \<Rightarrow> bool" where
  "contrast_applies ops contrast \<longleftrightarrow> \<not> fp_eq ops contrast (fp_const ops 0)"

definition brightness_applies :: "'f fp_ops \<Rightarrow> 'f \<Rightarrow> bool" where
  "brightness_applies ops brightness \<longleftrightarrow> \<not> fp_eq ops brightness (fp_const ops 0)"

definition gamma_applies :: "'f fp_ops \<Rightarrow> 'f \<Rightarrow> bool" where
  "gamma_applies ops gamma \<longleftrightarrow>
     fp_less ops (fp_const ops 0) gamma \<and> \<not> fp_eq ops gamma (fp_const ops 1)"

definition all_neutral :: "'f fp_ops \<Rightarrow> 'f \<Rightarrow> 'f \<Rightarrow> 'f \<Rightarrow> bool \<Rightarrow> bool" where
  "all_neutral ops brightness contrast gamma invert \<longleftrightarrow>
     fp_eq ops brightness (fp_const ops 0) \<and> fp_eq ops contrast (fp_const ops 0)
     \<and> fp_eq ops gamma (fp_const ops 1) \<and> \<not> invert"

text \<open>Contrast, then brightness, then gamma, each when it applies.\<close>

definition adjusted :: "'f fp_ops \<Rightarrow> 'f \<Rightarrow> 'f \<Rightarrow> 'f \<Rightarrow> 'f \<Rightarrow> 'f" where
  "adjusted ops brightness contrast gamma x =
     (let x1 = (if contrast_applies ops contrast then contrast_transform ops contrast x else x);
          x2 = (if brightness_applies ops brightness then brightness_transform ops brightness x1 else x1)
      in if gamma_applies ops gamma then gamma_transform ops gamma x2 else x2)"

definition adjustment_count :: "'f fp_ops \<Rightarrow> 'f \<Rightarrow> 'f \<Rightarrow> 'f \<Rightarrow> bool \<Rightarrow> int" where
  "adjustment_count ops brightness contrast gamma invert =
     (if contrast_applies ops contrast then 1 else 0)
     + (if brightness_applies ops brightness then 1 else 0)
     + (if gamma_applies ops gamma then 1 else 0)
     + (if invert then 1 else 0)"

text \<open>The table as the specification words it: the inversion is the last of the
  floating-point transforms, and the result is rounded.\<close>

definition LookupTable_as_stated ::
  "'f fp_ops \<Rightarrow> 'f \<Rightarrow> 'f \<Rightarrow> 'f \<Rightarrow> bool \<Rightarrow> int \<times> 8 word list" where
  "LookupTable_as_stated ops brightness contrast gamma invert =
     (if all_neutral ops brightness contrast gamma invert then (0, map of_nat [0..<256])
      else (adjustment_count ops brightness contrast gamma invert,
            map (\<lambda>i. let x = adjusted ops brightness contrast gamma (fp_const ops (of_nat i))
                     in round_half_up ops (if invert then invert_transform ops x else x))
              [0..<256]))"

text \<open>The table as the code builds it: the value is rounded, and the inversion is taken
  on the byte.\<close>

definition LookupTable_amended ::
  "'f fp_ops \<Rightarrow> 'f \<Rightarrow> 'f \<Rightarrow> 'f \<Rightarrow> bool \<Rightarrow> int \<times> 8 word list" where
  "LookupTable_amended ops brightness contrast gamma invert =
     (if all_neutral ops brightness contrast gamma invert then (0, map of_nat [0..<256])
      else (adjustment_count ops brightness contrast gamma invert,
            map (\<lambda>i. let byte = round_half_up ops
                                  (adjusted ops brightness contrast gamma (fp_const ops (of_nat i)))
                     in if invert then 255 - byte else byte)
              [0..<256]))"

subsection \<open>Histograms\<close>

text \<open>Bin \<open>k\<close> of the buffer at \<open>a\<close> with the given stride; the buffer's bins; their sum.\<close>

definition slot :: "nat \<Rightarrow> 32 word \<Rightarrow> nat \<Rightarrow> nat" where
  "slot a stride k = a + k * unat stride"

definition slots :: "nat \<Rightarrow> 32 word \<Rightarrow> 32 word \<Rightarrow> nat set" where
  "slots a stride binsNumber = slot a stride ` {..<unat binsNumber}"

definition bin_sum :: "counters \<Rightarrow> nat \<Rightarrow> 32 word \<Rightarrow> 32 word \<Rightarrow> nat" where
  "bin_sum m a stride binsNumber = (\<Sum>k<unat binsNumber. unat (m (slot a stride k)))"

text \<open>The largest index times the stride is below \<open>2^32\<close>: the 32-bit product in
  \<^verbatim>\<open>Add\<close> is the index of the bin.\<close>

definition fits :: "32 word \<Rightarrow> 32 word \<Rightarrow> bool" where
  "fits binsNumber stride \<longleftrightarrow> (unat binsNumber - 1) * unat stride < 2 ^ 32"

definition pixel_count :: "FIBITMAP \<Rightarrow> nat" where
  "pixel_count dib = unat (GetWidth dib) * unat (GetHeight dib)"

text \<open>The pixels in the order \<^verbatim>\<open>BitmapForEach\<close> visits them.\<close>

definition bitmap_pixels :: "(8 word list \<Rightarrow> nat \<Rightarrow> 'p) \<Rightarrow> FIBITMAP \<Rightarrow> 'p list" where
  "bitmap_pixels px dib =
     concat (map (\<lambda>y. map (\<lambda>x. px (GetScanLine dib y) x) [0..<unat (GetWidth dib)])
               [0..<unat (GetHeight dib)])"

text \<open>The buffers with a non-null pointer, in order, as (address, stride).\<close>

definition active :: "(nat option \<times> 32 word) list \<Rightarrow> (nat \<times> 32 word) list" where
  "active bufs = concat (map (\<lambda>(h, s). case h of None \<Rightarrow> [] | Some a \<Rightarrow> [(a, s)]) bufs)"

text \<open>One increment, of the bin with index \<open>k\<close>; the increments of one pixel, one per
  buffer; those of all pixels.\<close>

definition bump :: "nat \<times> 32 word \<Rightarrow> 32 word \<Rightarrow> counters \<Rightarrow> counters" where
  "bump buf k m =
     m(fst buf + unat (k * snd buf) := m (fst buf + unat (k * snd buf)) + 1)"

definition run_row :: "(nat \<times> 32 word) list \<Rightarrow> 32 word list \<Rightarrow> counters \<Rightarrow> counters" where
  "run_row act row m = fold (\<lambda>(buf, k). bump buf k) (zip act row) m"

definition run_trace :: "(nat \<times> 32 word) list \<Rightarrow> 32 word list list \<Rightarrow> counters \<Rightarrow> counters" where
  "run_trace act rows m = fold (run_row act) rows m"

text \<open>The index rows of a traversal: one row per pixel, one index per buffer, every index
  at most \<open>binsNumber - 1\<close>.\<close>

definition index_rows :: "32 word \<Rightarrow> nat \<Rightarrow> nat \<Rightarrow> 32 word list list \<Rightarrow> bool" where
  "index_rows binsNumber n_buffers n_pixels rows \<longleftrightarrow>
     length rows = n_pixels
     \<and> list_all (\<lambda>row. length row = n_buffers \<and> list_all (\<lambda>k. k \<le> binsNumber - 1) row) rows"

definition buffer_of :: "('p, 'v) HistogramBuilder \<Rightarrow> nat option \<times> 32 word" where
  "buffer_of b = (mHist b, mStride b)"

text \<open>A traversal that adds every pixel to every kept builder is a run of index rows.\<close>

definition rows_of ::
  "('v \<Rightarrow> 32 word) \<Rightarrow> ('p, 'v) HistogramBuilder list \<Rightarrow> 'p list \<Rightarrow> 32 word list list" where
  "rows_of idx bs pixels =
     map (\<lambda>p. map (\<lambda>b. idx (PixelSelector b p)) (filter (\<lambda>b. \<not> Discardable b) bs)) pixels"

definition row_addrs :: "(nat \<times> 32 word) list \<Rightarrow> 32 word list \<Rightarrow> nat list" where
  "row_addrs act row = map (\<lambda>(buf, k). fst buf + unat (k * snd buf)) (zip act row)"

definition trace_addrs :: "(nat \<times> 32 word) list \<Rightarrow> 32 word list list \<Rightarrow> nat list" where
  "trace_addrs act rows = concat (map (row_addrs act) rows)"

definition inc :: "nat \<Rightarrow> counters \<Rightarrow> counters" where
  "inc q m = m(q := m q + 1)"

text \<open>The store after a traversal of \<open>n\<close> pixels that adds to the buffers \<open>act\<close>.\<close>

definition traversal_of :: "32 word \<Rightarrow> (nat \<times> 32 word) list \<Rightarrow> nat \<Rightarrow> counters \<Rightarrow> counters \<Rightarrow> bool" where
  "traversal_of binsNumber act n m m' \<longleftrightarrow>
     (\<exists>rows. index_rows binsNumber (length act) n rows \<and> m' = run_trace act rows m)"

text \<open>The store after \<^verbatim>\<open>SetZero\<close> on the buffers \<open>act\<close>.\<close>

definition degenerate_fill :: "(nat \<times> 32 word) list \<Rightarrow> 32 word \<Rightarrow> counters \<Rightarrow> counters" where
  "degenerate_fill act v m = fold (\<lambda>buf m. m(fst buf := v)) act m"

text \<open>How many of the four buffers (red, green, blue, brightness, in this order) the
  bitmap's case of the switch passes to the histogram: its builders.\<close>

definition supported_count :: "FIBITMAP \<Rightarrow> nat" where
  "supported_count dib =
     (case GetImageType dib of
        FIT_BITMAP \<Rightarrow>
          (if ((GetColorType2 dib = FIC_RGBALPHA \<or> GetColorType2 dib = FIC_YUV) \<and> GetBPP dib = 32)
              \<or> ((GetColorType2 dib = FIC_RGB \<or> GetColorType2 dib = FIC_YUV) \<and> GetBPP dib = 24)
           then 4
           else if GetColorType2 dib = FIC_MINISBLACK \<and> GetBPP dib = 8 then 1 else 0)
      | FIT_RGBF \<Rightarrow> 4 | FIT_RGBAF \<Rightarrow> 4 | FIT_RGBA32 \<Rightarrow> 4 | FIT_RGB32 \<Rightarrow> 4
      | FIT_RGBA16 \<Rightarrow> 4 | FIT_RGB16 \<Rightarrow> 4
      | FIT_COMPLEX \<Rightarrow> 3 | FIT_COMPLEXF \<Rightarrow> 3
      | FIT_DOUBLE \<Rightarrow> 1 | FIT_FLOAT \<Rightarrow> 1 | FIT_UINT32 \<Rightarrow> 1 | FIT_INT32 \<Rightarrow> 1
      | FIT_UINT16 \<Rightarrow> 1 | FIT_INT16 \<Rightarrow> 1
      | FIT_UNKNOWN \<Rightarrow> 0)"

text \<open>The bounds discovered for a floating-point bitmap, as they are written out.\<close>

definition discovered ::
  "('f, 'd) SimpleTools \<Rightarrow> FIBITMAP \<Rightarrow> (('f, 'd) scalar \<times> ('f, 'd) scalar) option" where
  "discovered tools dib =
     (case GetImageType dib of
        FIT_RGBF \<Rightarrow> map_option (map_prod Float Float) (bounds_FIRGBF tools dib)
      | FIT_RGBAF \<Rightarrow> map_option (map_prod Float Float) (bounds_FIRGBAF tools dib)
      | FIT_COMPLEX \<Rightarrow> map_option (map_prod Double Double) (bounds_FICOMPLEX tools dib)
      | FIT_COMPLEXF \<Rightarrow> map_option (map_prod Float Float) (bounds_FICOMPLEXF tools dib)
      | FIT_DOUBLE \<Rightarrow> map_option (map_prod Double Double) (bounds_double tools dib)
      | FIT_FLOAT \<Rightarrow> map_option (map_prod Float Float) (bounds_float tools dib)
      | _ \<Rightarrow> None)"

fun scalar_less :: "('f, 'd) SimpleTools \<Rightarrow> ('f, 'd) scalar \<Rightarrow> ('f, 'd) scalar \<Rightarrow> bool" where
  "scalar_less tools (Float a) (Float b) = fp_less (float_ops tools) a b"
| "scalar_less tools (Double a) (Double b) = fp_less (double_ops tools) a b"
| "scalar_less tools x y = False"

fun scalar_eq :: "('f, 'd) SimpleTools \<Rightarrow> ('f, 'd) scalar \<Rightarrow> ('f, 'd) scalar \<Rightarrow> bool" where
  "scalar_eq tools (Float a) (Float b) = fp_eq (float_ops tools) a b"
| "scalar_eq tools (Double a) (Double b) = fp_eq (double_ops tools) a b"
| "scalar_eq tools x y = False"

text \<open>The discovered minimum equals the discovered maximum (and does not exceed it).\<close>

definition degenerate :: "('f, 'd) SimpleTools \<Rightarrow> FIBITMAP \<Rightarrow> bool" where
  "degenerate tools dib =
     (case discovered tools dib of
        None \<Rightarrow> False
      | Some (mn, mx) \<Rightarrow> scalar_eq tools mn mx \<and> \<not> scalar_less tools mx mn)"

text \<open>The request is accepted by the switch: the bitmap's encoding matches a case, and for
  a floating-point encoding the bounds are found and the minimum does not exceed the
  maximum.\<close>

definition is_float :: "FREE_IMAGE_TYPE \<Rightarrow> bool" where
  "is_float t \<longleftrightarrow> t \<in> {FIT_RGBF, FIT_RGBAF, FIT_COMPLEX, FIT_COMPLEXF, FIT_DOUBLE, FIT_FLOAT}"

definition accepted :: "('f, 'd) SimpleTools \<Rightarrow> FIBITMAP \<Rightarrow> bool" where
  "accepted tools dib \<longleftrightarrow>
     0 < supported_count dib
     \<and> (case discovered tools dib of
          None \<Rightarrow> \<not> is_float (GetImageType dib)
        | Some (mn, mx) \<Rightarrow> \<not> scalar_less tools mx mn)"

text \<open>What the switch does to the store \<open>m\<close> it is entered with: it succeeds exactly when
  the request is accepted; for a degenerate range it writes the pixel count at the address
  of every builder; otherwise it makes one traversal, or fails and leaves the store.\<close>

definition histogram_outcome ::
  "('f, 'd) SimpleTools \<Rightarrow> FIBITMAP \<Rightarrow> 32 word \<Rightarrow> bool \<Rightarrow> bool \<Rightarrow> (nat \<times> 32 word) list
     \<Rightarrow> counters \<Rightarrow> ('f, 'd) histogram_result \<Rightarrow> bool" where
  "histogram_outcome tools dib binsNumber outMinVal outMaxVal act m r \<longleftrightarrow>
     success r = accepted tools dib
     \<and> (if degenerate tools dib then
          store r = degenerate_fill act (GetWidth dib * GetHeight dib) m
          \<and> outMin r = (if outMinVal then map_option fst (discovered tools dib) else None)
          \<and> outMax r = (if outMaxVal then map_option snd (discovered tools dib) else None)
        else if accepted tools dib then
          traversal_of binsNumber act (pixel_count dib) m (store r)
        else store r = m)"

text \<open>The checks at the head of \<^verbatim>\<open>FreeImage_MakeHistogram\<close>, on the four (pointer, stride)
  pairs; the store after the four calls of \<^verbatim>\<open>ClearHistogram\<close>.\<close>

definition valid_request :: "FIBITMAP \<Rightarrow> 32 word \<Rightarrow> (nat option \<times> 32 word) list \<Rightarrow> bool" where
  "valid_request dib binsNumber bufs \<longleftrightarrow>
     HasPixels dib \<and> 1 \<le> binsNumber \<and> list_all (\<lambda>(h, s). h = None \<or> s \<noteq> 0) bufs"

definition all_null :: "(nat option \<times> 32 word) list \<Rightarrow> bool" where
  "all_null bufs \<longleftrightarrow> list_all (\<lambda>(h, s). h = None) bufs"

definition cleared :: "32 word \<Rightarrow> (nat option \<times> 32 word) list \<Rightarrow> counters \<Rightarrow> counters" where
  "cleared binsNumber bufs m = fold (\<lambda>(h, s). ClearHistogram h s binsNumber) bufs m"



section \<open>Sample inputs\<close>

subsection \<open>A stream, three plugins and their registry\<close>

type_synonym sample_stream = "8 word list \<times> nat"

definition sample_io :: "sample_stream FreeImageIO" where
  "sample_io =
     \<lparr> seek_proc = (\<lambda>h offset origin.
          (let target = (case origin of
                           SEEK_SET \<Rightarrow> offset
                         | SEEK_CUR \<Rightarrow> int (snd h) + offset
                         | SEEK_END \<Rightarrow> int (length (fst h)) + offset)
           in if 0 \<le> target then (fst h, nat target) else h)),
       tell_proc = (\<lambda>h. int (snd h)) \<rparr>"

definition sample_BMP :: "(sample_stream, unit) Plugin" where
  "sample_BMP = null_Plugin\<lparr>
     format_proc := Some (Returns (Some ''BMP'')),
     extension_proc := Some (Returns (Some ''bmp'')),
     mime_proc := Some (Returns (Some ''image/bmp'')),
     open_proc := Some (\<lambda>io h for_reading. (Some (), h)),
     close_proc := Some (\<lambda>io h data. h),
     save_proc := Some (\<lambda>io dib h page flags data. (True, (fst h @ [0x42, 0x4D], snd h + 2))),
     validate_proc := Some (\<lambda>io h. (take 2 (drop (snd h) (fst h)) = [0x42, 0x4D], (fst h, snd h + 2))) \<rparr>"

definition sample_JPEG :: "(sample_stream, unit) Plugin" where
  "sample_JPEG = null_Plugin\<lparr>
     format_proc := Some (Returns (Some ''JPEG'')),
     extension_proc := Some (Returns (Some ''jpg,jif,jpeg,jpe'')),
     mime_proc := Some (Returns (Some ''image/jpeg'')),
     validate_proc := Some (\<lambda>io h. (take 2 (drop (snd h) (fst h)) = [0xFF, 0xD8], (fst h, snd h + 2))) \<rparr>"

definition sample_PNM :: "(sample_stream, unit) Plugin" where
  "sample_PNM = null_Plugin\<lparr>
     extension_proc := Some (Returns (Some ''pbm,pgm,ppm'')),
     mime_proc := Some (Returns (Some ''image/freeimage-pnm'')) \<rparr>"

definition sample_builtins :: "(sample_stream, unit) registration list" where
  "sample_builtins =
     [(Some (\<lambda>fif. Returns sample_BMP), None, None, None, None),
      (Some (\<lambda>fif. Returns sample_JPEG), None, None, None, None),
      (Some (\<lambda>fif. Returns sample_PNM), Some ''PBM'', Some ''Portable Bitmap (ASCII)'',
         Some ''pbm'', Some ''^P1'')]"

definition sample_registry :: "(sample_stream, unit) PluginList" where
  "sample_registry = snd (register_all PluginList_new sample_builtins)"

definition sample_node :: "int \<Rightarrow> (sample_stream, unit) Plugin \<Rightarrow> (sample_stream, unit) PluginNode" where
  "sample_node fif plugin = \<lparr> m_id = fif, m_instance = None, m_plugin = plugin, m_format = None,
     m_description = None, m_extension = None, m_regexpr = None, m_enabled = True \<rparr>"

definition sample_globals :: "(sample_stream, unit) globals" where
  "sample_globals = \<lparr> s_plugins = Some sample_registry, s_plugin_reference_count = 1 \<rparr>"

subsection \<open>Bitmaps\<close>

definition sample_gray :: FIBITMAP where
  "sample_gray = \<lparr> HasPixels = True, GetImageType = FIT_BITMAP, GetBPP = 8,
     GetColorType = FIC_MINISBLACK, GetColorType2 = FIC_MINISBLACK, GetWidth = 3, GetHeight = 2,
     GetLine = 3, GetColorsUsed = 256, GetPalette = [],
     GetScanLine = (\<lambda>y. if y = 0 then [5, 7, 5] else [7, 7, 0]) \<rparr>"

subsection \<open>Arithmetic and colour bitmaps\<close>

text \<open>Exact arithmetic on the reals, for evaluating at inputs where the machine's
  arithmetic is exact too.  The casts truncate towards zero.\<close>

definition exact_ops :: "real fp_ops" where
  "exact_ops =
     \<lparr> fp_const = of_rat, fp_add = (+), fp_sub = (-), fp_mul = (*), fp_div = (/),
       fp_neg = uminus, fp_pow = (powr), fp_floor = (\<lambda>x. of_int \<lfloor>x\<rfloor>),
       fp_cabs = (\<lambda>a b. sqrt (a * a + b * b)), fp_less = (<), fp_eq = (=),
       fp_to_uint8 = (\<lambda>x. word_of_int (if 0 \<le> x then \<lfloor>x\<rfloor> else \<lceil>x\<rceil>)),
       fp_to_uint32 = (\<lambda>x. word_of_int (if 0 \<le> x then \<lfloor>x\<rfloor> else \<lceil>x\<rceil>)) \<rparr>"

definition sample_rgb24 :: FIBITMAP where
  "sample_rgb24 = \<lparr> HasPixels = True, GetImageType = FIT_BITMAP, GetBPP = 24,
     GetColorType = FIC_RGB, GetColorType2 = FIC_RGB, GetWidth = 2, GetHeight = 1,
     GetLine = 6, GetColorsUsed = 0, GetPalette = [],
     GetScanLine = (\<lambda>y. [1, 2, 3, 4, 5, 6]) \<rparr>"

subsection \<open>Histogram requests\<close>

text \<open>Tools for the samples: exact arithmetic, every floating-point pixel reads \<open>3/2\<close> and
  so do the bounds; the integer pixels read zero.\<close>

definition sample_tools :: "(real, real) SimpleTools" where
  "sample_tools =
     \<lparr> float_ops = exact_ops, double_ops = exact_ops,
       px_FIRGBA8 = (\<lambda>bits x. \<lparr> red = 0, green = 0, blue = 0, alpha = 0 \<rparr>),
       px_FIRGB8 = (\<lambda>bits x. \<lparr> red = 0, green = 0, blue = 0 \<rparr>),
       px_FIRGBA16 = (\<lambda>bits x. \<lparr> red = 0, green = 0, blue = 0, alpha = 0 \<rparr>),
       px_FIRGB16 = (\<lambda>bits x. \<lparr> red = 0, green = 0, blue = 0 \<rparr>),
       px_FIRGBA32 = (\<lambda>bits x. \<lparr> red = 0, green = 0, blue = 0, alpha = 0 \<rparr>),
       px_FIRGB32 = (\<lambda>bits x. \<lparr> red = 0, green = 0, blue = 0 \<rparr>),
       px_FIRGBAF = (\<lambda>bits x. \<lparr> red = 3 / 2, green = 3 / 2, blue = 3 / 2, alpha = 1 \<rparr>),
       px_FIRGBF = (\<lambda>bits x. \<lparr> red = 3 / 2, green = 3 / 2, blue = 3 / 2 \<rparr>),
       px_FICOMPLEX = (\<lambda>bits x. FICOMPLEX (3 / 2) (3 / 2)),
       px_FICOMPLEXF = (\<lambda>bits x. FICOMPLEX (3 / 2) (3 / 2)),
       px_double = (\<lambda>bits x. 3 / 2), px_float = (\<lambda>bits x. 3 / 2),
       px_uint32 = (\<lambda>bits x. 0), px_int32 = (\<lambda>bits x. 0),
       px_uint16 = (\<lambda>bits x. 0), px_int16 = (\<lambda>bits x. 0),
       Brightness8 = (\<lambda>r g b. g), Brightness16 = (\<lambda>r g b. g),
       Brightness32 = (\<lambda>r g b. g), BrightnessF = (\<lambda>r g b. g),
       bounds_FIRGBF = (\<lambda>dib. Some (3 / 2, 3 / 2)),
       bounds_FIRGBAF = (\<lambda>dib. Some (3 / 2, 3 / 2)),
       bounds_FICOMPLEX = (\<lambda>dib. Some (3 / 2, 3 / 2)),
       bounds_FICOMPLEXF = (\<lambda>dib. Some (3 / 2, 3 / 2)),
       bounds_double = (\<lambda>dib. Some (3 / 2, 3 / 2)),
       bounds_float = (\<lambda>dib. Some (3 / 2, 3 / 2)) \<rparr>"


definition sample_bilevel :: FIBITMAP where
  "sample_bilevel = \<lparr> HasPixels = True, GetImageType = FIT_BITMAP, GetBPP = 1,
     GetColorType = FIC_MINISBLACK, GetColorType2 = FIC_MINISBLACK, GetWidth = 8, GetHeight = 1,
     GetLine = 1, GetColorsUsed = 2, GetPalette = [],
     GetScanLine = (\<lambda>y. [165]) \<rparr>"

definition stale :: counters where
  "stale = (\<lambda>p. 9)"

text \<open>The grayscale sample as an inverted-grey bitmap; a 65536 by 65536 grayscale bitmap of
  zeros; a single pixel of value 255.\<close>

definition sample_white :: FIBITMAP where
  "sample_white = sample_gray\<lparr> GetColorType := FIC_MINISWHITE, GetColorType2 := FIC_MINISWHITE \<rparr>"

definition sample_huge :: FIBITMAP where
  "sample_huge = \<lparr> HasPixels = True, GetImageType = FIT_BITMAP, GetBPP = 8,
     GetColorType = FIC_MINISBLACK, GetColorType2 = FIC_MINISBLACK,
     GetWidth = 65536, GetHeight = 65536,
     GetLine = 65536, GetColorsUsed = 256, GetPalette = [],
     GetScanLine = (\<lambda>y. replicate 65536 0) \<rparr>"

definition sample_bright :: FIBITMAP where
  "sample_bright = \<lparr> HasPixels = True, GetImageType = FIT_BITMAP, GetBPP = 8,
     GetColorType = FIC_MINISBLACK, GetColorType2 = FIC_MINISBLACK, GetWidth = 1, GetHeight = 1,
     GetLine = 1, GetColorsUsed = 256, GetPalette = [],
     GetScanLine = (\<lambda>y. [255]) \<rparr>"




section \<open>The registry: registration\<close>

lemma emplace_above:
  "\<forall>k' \<in> fst ` set xs. k' < k \<Longrightarrow> emplace k v xs = xs @ [(k, v)]"
  by (induction xs) auto

lemma dense_keys_below:
  assumes d: "map fst xs = map int [0..<length xs]"
  shows "\<forall>k' \<in> fst ` set xs. k' < int (length xs)"
proof -
  have "fst ` set xs = set (map fst xs)" by simp
  also have "\<dots> = set (map int [0..<length xs])" by (simp only: d)
  finally show ?thesis by auto
qed

lemma emplace_dense:
  "map fst xs = map int [0..<length xs] \<Longrightarrow> emplace (int (length xs)) v xs = xs @ [(int (length xs), v)]"
  by (rule emplace_above) (rule dense_keys_below)

lemma registry_ok_new: "registry_ok PluginList_new"
  by (simp add: registry_ok_def keys_dense_def ids_match_def PluginList_new_def)

lemma AddNode_fails_iff:
  "fst (AddNode pl init_proc inst format d e r) = FIF_UNKNOWN \<longleftrightarrow> registration_fails pl init_proc format"
  by (auto simp: AddNode_def registration_fails_def format_name_determined_def Size_def FIF_UNKNOWN_def Let_def
      split: option.splits outcome.splits)

lemma AddNode_fails_unchanged:
  "fst (AddNode pl init_proc inst format d e r) = FIF_UNKNOWN \<Longrightarrow> snd (AddNode pl init_proc inst format d e r) = pl"
  by (auto simp: AddNode_def FIF_UNKNOWN_def Let_def split: option.splits outcome.splits)

lemma AddNode_success:
  assumes "keys_dense pl" and "fst (AddNode pl init_proc inst format d e r) \<noteq> FIF_UNKNOWN"
  shows "\<exists>plugin. AddNode pl init_proc inst format d e r =
           (Size pl, pl\<lparr> m_plugin_map := m_plugin_map pl @
              [(Size pl, \<lparr> m_id = Size pl, m_instance = inst, m_plugin = plugin,
                          m_format = format, m_description = d, m_extension = e, m_regexpr = r,
                          m_enabled = True \<rparr>)] \<rparr>)"
  using assms
  by (auto simp: AddNode_def Size_def Let_def keys_dense_def emplace_dense split: option.splits outcome.splits)

lemma AddNode_keeps_ok:
  assumes "registry_ok pl"
  shows "registry_ok (snd (AddNode pl init_proc inst format d e r))"
proof (cases "fst (AddNode pl init_proc inst format d e r) = FIF_UNKNOWN")
  case True
  then show ?thesis using assms by (simp add: AddNode_fails_unchanged)
next
  case False
  from assms have kd: "keys_dense pl" by (simp add: registry_ok_def)
  from AddNode_success [OF kd False] obtain plugin where
    "AddNode pl init_proc inst format d e r =
           (Size pl, pl\<lparr> m_plugin_map := m_plugin_map pl @
              [(Size pl, \<lparr> m_id = Size pl, m_instance = inst, m_plugin = plugin,
                          m_format = format, m_description = d, m_extension = e, m_regexpr = r,
                          m_enabled = True \<rparr>)] \<rparr>)" by blast
  then show ?thesis using assms
    by (auto simp: registry_ok_def keys_dense_def ids_match_def Size_def)
qed

lemma register_all_fold:
  "snd (register_all pl rs) = fold (\<lambda>r pl. snd (AddNode_local pl r)) rs pl"
  by (induction rs arbitrary: pl) (simp_all add: Let_def)

lemma AddNode_local_cases:
  assumes "keys_dense pl"
  shows "(fst (AddNode_local pl r) = FIF_UNKNOWN \<and> snd (AddNode_local pl r) = pl) \<or>
         (fst (AddNode_local pl r) = Size pl \<and> keys_dense (snd (AddNode_local pl r)) \<and>
          Size (snd (AddNode_local pl r)) = Size pl + 1)"
proof -
  obtain i f d e x where r: "r = (i, f, d, e, x)" by (cases r) auto
  show ?thesis
  proof (cases "fst (AddNode pl i None f d e x) = FIF_UNKNOWN")
    case True
    then show ?thesis by (simp add: r AddNode_local_def AddNode_fails_unchanged)
  next
    case False
    from AddNode_success [OF assms False] obtain plugin where
      "AddNode pl i None f d e x =
           (Size pl, pl\<lparr> m_plugin_map := m_plugin_map pl @
              [(Size pl, \<lparr> m_id = Size pl, m_instance = None, m_plugin = plugin,
                          m_format = f, m_description = d, m_extension = e, m_regexpr = x,
                          m_enabled = True \<rparr>)] \<rparr>)" by blast
    then show ?thesis using assms
      by (auto simp: r AddNode_local_def keys_dense_def Size_def)
  qed
qed

lemma register_all_ids:
  "keys_dense pl \<Longrightarrow>
     filter (\<lambda>fif. fif \<noteq> FIF_UNKNOWN) (fst (register_all pl rs)) =
       map int [length (m_plugin_map pl) ..< length (m_plugin_map (snd (register_all pl rs)))]
     \<and> length (m_plugin_map pl) \<le> length (m_plugin_map (snd (register_all pl rs)))"
proof (induction rs arbitrary: pl)
  case Nil
  then show ?case by simp
next
  case (Cons r rs)
  obtain fif pl' where a: "AddNode_local pl r = (fif, pl')" by (cases "AddNode_local pl r")
  from AddNode_local_cases [OF Cons.prems, of r] a
  consider (fail) "fif = FIF_UNKNOWN" "pl' = pl"
    | (ok) "fif = Size pl" "keys_dense pl'" "Size pl' = Size pl + 1" by auto
  then show ?case
  proof cases
    case fail
    with Cons.IH [OF Cons.prems] a show ?thesis by (simp add: Let_def)
  next
    case ok
    from Cons.IH [OF ok(2), of ] have ih:
      "filter (\<lambda>fif. fif \<noteq> FIF_UNKNOWN) (fst (register_all pl' rs)) =
         map int [length (m_plugin_map pl') ..< length (m_plugin_map (snd (register_all pl' rs)))]"
      "length (m_plugin_map pl') \<le> length (m_plugin_map (snd (register_all pl' rs)))" by auto
    from ok(3) have len: "length (m_plugin_map pl') = Suc (length (m_plugin_map pl))"
      by (simp add: Size_def)
    have ne: "fif \<noteq> FIF_UNKNOWN" using ok(1) by (simp add: Size_def FIF_UNKNOWN_def)
    show ?thesis using a ih len ne ok(1)
      by (simp add: Let_def Size_def upt_conv_Cons)
  qed
qed

lemma register_all_length: "length (fst (register_all pl rs)) = length rs"
  by (induction rs arbitrary: pl) (simp_all add: Let_def)

lemma FindNodeFromFIF_appended:
  "keys_dense pl \<Longrightarrow>
     FindNodeFromFIF (pl\<lparr> m_plugin_map := m_plugin_map pl @ [(Size pl, node)] \<rparr>) (Size pl) = Some node"
proof -
  assume kd: "keys_dense pl"
  have "Size pl \<notin> fst ` set (m_plugin_map pl)"
    using dense_keys_below [of "m_plugin_map pl"] kd by (auto simp: keys_dense_def Size_def)
  then have "map_of (m_plugin_map pl) (Size pl) = None" by (simp add: map_of_eq_None_iff)
  then show ?thesis by (simp add: FindNodeFromFIF_def map_add_def)
qed

lemma Initialise_fresh:
  "s_plugin_reference_count g = 0 \<Longrightarrow>
     FreeImage_Initialise rs g =
       \<lparr> s_plugins = Some (snd (register_all PluginList_new rs)), s_plugin_reference_count = 1 \<rparr>"
  by (simp add: FreeImage_Initialise_def register_all_fold)

lemma DeInitialise_last:
  "s_plugin_reference_count g = 1 \<Longrightarrow>
     FreeImage_DeInitialise g = \<lparr> s_plugins = None, s_plugin_reference_count = 0 \<rparr>"
  by (simp add: FreeImage_DeInitialise_def)

lemma sample_registry_map:
  "m_plugin_map sample_registry =
     [(0, sample_node 0 sample_BMP),
      (1, sample_node 1 sample_JPEG),
      (2, (sample_node 2 sample_PNM)\<lparr> m_format := Some ''PBM'',
             m_description := Some ''Portable Bitmap (ASCII)'',
             m_extension := Some ''pbm'', m_regexpr := Some ''^P1'' \<rparr>)]"
  by (simp add: sample_registry_def sample_builtins_def AddNode_local_def AddNode_def
      PluginList_new_def sample_BMP_def sample_JPEG_def sample_node_def null_Plugin_def Let_def)

lemma sample_fifs:
  "fst (register_all PluginList_new sample_builtins) = [0, 1, 2]"
  by (simp add: sample_builtins_def AddNode_local_def AddNode_def
      PluginList_new_def sample_BMP_def sample_JPEG_def null_Plugin_def Let_def)

lemma sample_registry_ok: "registry_ok sample_registry"
  by (simp add: registry_ok_def keys_dense_def ids_match_def sample_registry_map upt_conv_Cons
      sample_node_def)

text \<open>
  \<^bold>\<open>Claim C8.\<close>  \<^verbatim>\<open>PluginList::AddNode\<close> returns \<open>FIF_UNKNOWN\<close> exactly when the setup entry
  point is absent, when it throws, or when no format name can be determined from the
  override or the format-name function, and then the catalogue is unchanged.  On a
  catalogue with keys \<open>0, ..., n - 1\<close> a successful registration returns \<open>n\<close>, stores the
  descriptor under \<open>n\<close> with id \<open>n\<close> and enabled, and keeps the keys dense.  Hence the
  successful registrations of any sequence on a new catalogue receive \<open>0, 1, 2, ...\<close> in
  order (all of them, when none fails); and \<^verbatim>\<open>FreeImage_Initialise\<close> after the teardown that
  takes the reference count from 1 to 0 yields the state of a first initialisation: a new
  catalogue with the same registrations, hence the same ids.
\<close>

theorem registration_assigns_dense_ids:
  fixes pl :: "('h, 'd) PluginList" and g0 g1 :: "('h, 'd) globals"
    and init_proc :: "('h, 'd) FI_InitProc option" and inst :: "nat option"
    and format d e r :: "string option" and rs :: "('h, 'd) registration list"
  defines "res \<equiv> AddNode pl init_proc inst format d e r"
  defines "fifs \<equiv> fst (register_all (PluginList_new :: ('h, 'd) PluginList) rs)"
  shows "(fst res = FIF_UNKNOWN \<longleftrightarrow> registration_fails pl init_proc format)
       \<and> (registration_fails pl init_proc format \<longrightarrow> snd res = pl)
       \<and> (keys_dense pl \<and> \<not> registration_fails pl init_proc format \<longrightarrow>
            fst res = Size pl \<and> Size (snd res) = Size pl + 1 \<and> keys_dense (snd res)
            \<and> (\<exists>node. FindNodeFromFIF (snd res) (Size pl) = Some node
                  \<and> m_enabled node \<and> m_id node = Size pl))
       \<and> filter (\<lambda>fif. fif \<noteq> FIF_UNKNOWN) fifs
            = map int [0..<length (filter (\<lambda>fif. fif \<noteq> FIF_UNKNOWN) fifs)]
       \<and> (FIF_UNKNOWN \<notin> set fifs \<longrightarrow> fifs = map int [0..<length rs])
       \<and> (s_plugin_reference_count g0 = 0 \<and> s_plugin_reference_count g1 = 1 \<longrightarrow>
            FreeImage_Initialise rs (FreeImage_DeInitialise g1) = FreeImage_Initialise rs g0
            \<and> s_plugins (FreeImage_Initialise rs g0) = Some (snd (register_all PluginList_new rs)))"
proof -
  have a: "fst res = FIF_UNKNOWN \<longleftrightarrow> registration_fails pl init_proc format"
    unfolding res_def by (rule AddNode_fails_iff)
  have b: "registration_fails pl init_proc format \<longrightarrow> snd res = pl"
    using a AddNode_fails_unchanged [of pl init_proc inst format d e r] by (simp add: res_def)
  have c: "keys_dense pl \<and> \<not> registration_fails pl init_proc format \<longrightarrow>
            fst res = Size pl \<and> Size (snd res) = Size pl + 1 \<and> keys_dense (snd res)
            \<and> (\<exists>node. FindNodeFromFIF (snd res) (Size pl) = Some node
                  \<and> m_enabled node \<and> m_id node = Size pl)"
  proof
    assume h: "keys_dense pl \<and> \<not> registration_fails pl init_proc format"
    then have kd: "keys_dense pl" and ok: "fst (AddNode pl init_proc inst format d e r) \<noteq> FIF_UNKNOWN"
      using a by (simp_all add: res_def)
    from AddNode_success [OF kd ok] obtain plugin where eq:
      "res = (Size pl, pl\<lparr> m_plugin_map := m_plugin_map pl @
              [(Size pl, \<lparr> m_id = Size pl, m_instance = inst, m_plugin = plugin,
                          m_format = format, m_description = d, m_extension = e, m_regexpr = r,
                          m_enabled = True \<rparr>)] \<rparr>)" unfolding res_def by blast
    have "keys_dense (snd res)" using kd by (simp add: eq keys_dense_def Size_def)
    moreover have "Size (snd res) = Size pl + 1" by (simp add: eq Size_def)
    moreover have "\<exists>node. FindNodeFromFIF (snd res) (Size pl) = Some node
                  \<and> m_enabled node \<and> m_id node = Size pl"
      using FindNodeFromFIF_appended [OF kd] by (simp add: eq)
    ultimately show "fst res = Size pl \<and> Size (snd res) = Size pl + 1 \<and> keys_dense (snd res)
            \<and> (\<exists>node. FindNodeFromFIF (snd res) (Size pl) = Some node
                  \<and> m_enabled node \<and> m_id node = Size pl)" by (simp add: eq)
  qed
  have kd0: "keys_dense (PluginList_new :: ('h, 'd) PluginList)"
    by (simp add: keys_dense_def PluginList_new_def)
  from register_all_ids [OF kd0, of rs]
  have ids: "filter (\<lambda>fif. fif \<noteq> FIF_UNKNOWN) fifs =
       map int [0 ..< length (m_plugin_map (snd (register_all (PluginList_new :: ('h, 'd) PluginList) rs)))]"
    by (simp add: fifs_def PluginList_new_def)
  have d: "filter (\<lambda>fif. fif \<noteq> FIF_UNKNOWN) fifs
            = map int [0..<length (filter (\<lambda>fif. fif \<noteq> FIF_UNKNOWN) fifs)]"
    by (subst (2) ids) (simp add: ids)
  have e: "FIF_UNKNOWN \<notin> set fifs \<longrightarrow> fifs = map int [0..<length rs]"
  proof
    assume "FIF_UNKNOWN \<notin> set fifs"
    then have "filter (\<lambda>fif. fif \<noteq> FIF_UNKNOWN) fifs = fifs" by (auto simp: filter_id_conv)
    with d show "fifs = map int [0..<length rs]" by (simp add: fifs_def register_all_length)
  qed
  have f: "s_plugin_reference_count g0 = 0 \<and> s_plugin_reference_count g1 = 1 \<longrightarrow>
            FreeImage_Initialise rs (FreeImage_DeInitialise g1) = FreeImage_Initialise rs g0
            \<and> s_plugins (FreeImage_Initialise rs g0) = Some (snd (register_all PluginList_new rs))"
    by (simp add: Initialise_fresh DeInitialise_last)
  from a b c d e f show ?thesis by blast
qed

theorem registration_assigns_dense_ids_witness:
  "keys_dense sample_registry
   \<and> \<not> registration_fails sample_registry (Some (\<lambda>fif. Returns sample_JPEG)) None
   \<and> fst (AddNode sample_registry (Some (\<lambda>fif. Returns sample_JPEG)) None None None None None) = 3
   \<and> registration_fails sample_registry (Some (\<lambda>fif. Throws)) None
   \<and> AddNode sample_registry (Some (\<lambda>fif. Throws)) None None None None None = (FIF_UNKNOWN, sample_registry)
   \<and> registration_fails sample_registry (Some (\<lambda>fif. Returns sample_PNM)) None
   \<and> registration_fails sample_registry None (Some ''X'')
   \<and> FIF_UNKNOWN \<notin> set (fst (register_all PluginList_new sample_builtins))
   \<and> fst (register_all PluginList_new sample_builtins) = [0, 1, 2]
   \<and> FreeImage_Initialise sample_builtins (FreeImage_DeInitialise sample_globals) = sample_globals"
proof -
  have kd: "keys_dense sample_registry"
    using sample_registry_ok by (simp add: registry_ok_def)
  have ok: "\<not> registration_fails sample_registry (Some (\<lambda>fif. Returns sample_JPEG)) None"
    by (simp add: registration_fails_def format_name_determined_def sample_JPEG_def null_Plugin_def)
  have f1: "registration_fails sample_registry (Some (\<lambda>fif. Throws)) None"
    by (simp add: registration_fails_def)
  have f2: "registration_fails sample_registry (Some (\<lambda>fif. Returns sample_PNM)) None"
    by (simp add: registration_fails_def format_name_determined_def sample_PNM_def null_Plugin_def)
  have f3: "registration_fails sample_registry None (Some ''X'')"
    by (simp add: registration_fails_def)
  have sz: "Size sample_registry = 3" by (simp add: Size_def sample_registry_map)
  have nu: "FIF_UNKNOWN \<notin> set (fst (register_all PluginList_new sample_builtins))"
    by (simp add: sample_fifs FIF_UNKNOWN_def)
  have len: "length sample_builtins = 3" by (simp add: sample_builtins_def)
  have c0: "s_plugin_reference_count \<lparr> s_plugins = None :: (sample_stream, unit) PluginList option,
              s_plugin_reference_count = 0 \<rparr> = 0
            \<and> s_plugin_reference_count sample_globals = 1"
    by (simp add: sample_globals_def)
  note t1 = registration_assigns_dense_ids [of sample_registry "Some (\<lambda>fif. Returns sample_JPEG)"
      None None None None None sample_builtins "\<lparr> s_plugins = None, s_plugin_reference_count = 0 \<rparr>"
      sample_globals]
  note t2 = registration_assigns_dense_ids [of sample_registry "Some (\<lambda>fif. Throws)"
      None None None None None sample_builtins "\<lparr> s_plugins = None, s_plugin_reference_count = 0 \<rparr>"
      sample_globals]
  have a: "fst (AddNode sample_registry (Some (\<lambda>fif. Returns sample_JPEG)) None None None None None) = 3"
    using t1 kd ok sz by simp
  have b: "AddNode sample_registry (Some (\<lambda>fif. Throws)) None None None None None = (FIF_UNKNOWN, sample_registry)"
    using t2 f1 by (simp add: prod_eq_iff)
  have c: "fst (register_all PluginList_new sample_builtins) = [0, 1, 2]"
    using t1 nu len by (simp add: upt_conv_Cons)
  have d: "FreeImage_Initialise sample_builtins (FreeImage_DeInitialise sample_globals) = sample_globals"
    using t1 c0 by (simp add: Initialise_fresh sample_registry_def sample_globals_def)
  from kd ok a f1 b f2 f3 nu c d show ?thesis by blast
qed

section \<open>The registry: enabled state\<close>

lemma FindNodeFromFormat_loop_Some:
  "FindNodeFromFormat_loop nodes format = Inr (Some n) \<Longrightarrow> m_enabled n \<and> (\<exists>k. (k, n) \<in> set nodes)"
  by (induction nodes format rule: FindNodeFromFormat_loop.induct)
     (auto split: option.splits sum.splits if_splits)

lemma FindNodeFromMime_loop_Some:
  "FindNodeFromMime_loop nodes mime = Inr (Some n) \<Longrightarrow> m_enabled n \<and> (\<exists>k. (k, n) \<in> set nodes)"
  by (induction nodes mime rule: FindNodeFromMime_loop.induct)
     (auto split: option.splits sum.splits if_splits)

lemma GetFIFFromFilename_loop_Inr:
  "GetFIFFromFilename_loop g pl extension ids = Inr i \<Longrightarrow>
     i = FIF_UNKNOWN \<or> (\<exists>n. FindNodeFromFIF pl i = Some n \<and> m_enabled n)"
  by (induction g pl extension ids rule: GetFIFFromFilename_loop.induct)
     (auto split: option.splits sum.splits if_splits)

lemma map_of_set_enabled:
  "map_of (set_enabled fif en nodes) k =
     (if k = fif then map_option (\<lambda>n. n\<lparr> m_enabled := en \<rparr>) (map_of nodes k) else map_of nodes k)"
  by (induction nodes) (auto simp: set_enabled_def)

lemma set_enabled_entry:
  "(k, n) \<in> set (set_enabled fif en nodes) \<Longrightarrow> k = fif \<Longrightarrow> m_enabled n = en"
  by (auto simp: set_enabled_def split: if_splits)

lemma set_enabled_ids:
  "(k, n) \<in> set (set_enabled fif en nodes) \<Longrightarrow> \<forall>(k, n) \<in> set nodes. m_id n = k \<Longrightarrow> m_id n = k"
  by (auto simp: set_enabled_def split: if_splits)

lemma set_enabled_undo:
  assumes "distinct (map fst nodes)" and "map_of nodes fif = Some node" and "m_enabled node"
  shows "set_enabled fif True (set_enabled fif False nodes) = nodes"
proof -
  have "\<And>k n. (k, n) \<in> set nodes \<Longrightarrow> k = fif \<Longrightarrow> n\<lparr> m_enabled := True \<rparr> = n"
  proof -
    fix k n assume "(k, n) \<in> set nodes" "k = fif"
    with assms(1) have "map_of nodes fif = Some n" by simp
    with assms(2,3) show "n\<lparr> m_enabled := True \<rparr> = n" by simp
  qed
  then show ?thesis
    by (auto simp: set_enabled_def intro!: map_idI)
qed

lemma keys_dense_distinct: "keys_dense pl \<Longrightarrow> distinct (map fst (m_plugin_map pl))"
  by (simp add: keys_dense_def distinct_map inj_on_def)

lemma keys_dense_nonneg:
  assumes "keys_dense pl" and "FindNodeFromFIF pl fif = Some node"
  shows "0 \<le> fif"
proof -
  from assms(2) have "fif \<in> fst ` set (m_plugin_map pl)"
    by (auto simp: FindNodeFromFIF_def dest: map_of_SomeD intro: rev_image_eqI)
  then have "fif \<in> set (map fst (m_plugin_map pl))" by simp
  with assms(1) have "fif \<in> set (map int [0..<length (m_plugin_map pl)])"
    by (simp only: keys_dense_def)
  then show ?thesis by auto
qed

lemma tolower_simps:
  "tolower c = (if 65 \<le> (of_char c :: int) \<and> (of_char c :: int) \<le> 90 then of_char c + 32 else of_char c)"
  by (simp add: tolower_def Let_def)

lemma sample_lookup_before:
  "FreeImage_GetFIFFromFormat sample_globals ''jpeg'' = Inr 1
   \<and> FreeImage_GetFIFFromMime sample_globals ''image/jpeg'' = Inr 1
   \<and> FreeImage_GetFIFFromFilename sample_globals (Some ''photo.JPG'') = Inr 1"
  by (simp add: FreeImage_GetFIFFromFormat_def FreeImage_GetFIFFromMime_def
      FreeImage_GetFIFFromFilename_def sample_globals_def FindNodeFromFormat_def
      FindNodeFromMime_def sample_registry_map sample_node_def sample_BMP_def sample_JPEG_def
      sample_PNM_def null_Plugin_def call_proc_def tolower_simps FreeImage_GetFIFCount_def Size_def
      upt_conv_Cons FindNodeFromFIF_def FreeImage_GetFormatFromFIF_def
      FreeImage_GetFIFExtensionList_def extension_of_def strtok_all_def)

text \<open>
  \<^bold>\<open>Claim C7.\<close>  For a registered id of a catalogue that satisfies the invariant, after
  \<^verbatim>\<open>FreeImage_SetPluginEnabled(fif, FALSE)\<close> the lookups by format name and by MIME type
  and the detection by file name never answer \<open>fif\<close>, and \<^verbatim>\<open>FindNodeFromFormat\<close> and
  \<^verbatim>\<open>FindNodeFromMime\<close> never return its descriptor, for any name; \<^verbatim>\<open>FindNodeFromFIF\<close>
  still returns the descriptor, unchanged but for the enabled flag.  Enabling a plugin
  that was enabled before it was disabled restores the state, and with it every lookup.
\<close>

theorem disabled_plugin_hidden:
  fixes g :: "('h, 'd) globals"
  assumes sp: "s_plugins g = Some pl" and ok: "registry_ok pl"
    and nd: "FindNodeFromFIF pl fif = Some node"
  defines "g' \<equiv> snd (FreeImage_SetPluginEnabled g fif False)"
  shows "FreeImage_GetFIFFromFormat g' format \<noteq> Inr fif
       \<and> FreeImage_GetFIFFromMime g' mime \<noteq> Inr fif
       \<and> FreeImage_GetFIFFromFilename g' filename \<noteq> Inr fif
       \<and> (\<exists>pl'. s_plugins g' = Some pl'
             \<and> FindNodeFromFIF pl' fif = Some (node\<lparr> m_enabled := False \<rparr>)
             \<and> FindNodeFromFormat pl' format \<noteq> Inr (Some (node\<lparr> m_enabled := False \<rparr>))
             \<and> FindNodeFromMime pl' mime \<noteq> Inr (Some (node\<lparr> m_enabled := False \<rparr>)))
       \<and> (m_enabled node \<longrightarrow> snd (FreeImage_SetPluginEnabled g' fif True) = g)"
proof -
  define pl' where "pl' = pl\<lparr> m_plugin_map := set_enabled fif False (m_plugin_map pl) \<rparr>"
  have g': "g' = g\<lparr> s_plugins := Some pl' \<rparr>"
    by (simp add: g'_def FreeImage_SetPluginEnabled_def sp nd pl'_def)
  have sp': "s_plugins g' = Some pl'" by (simp add: g')
  from ok have kd: "keys_dense pl" and im: "\<forall>(k, n) \<in> set (m_plugin_map pl). m_id n = k"
    by (simp_all add: registry_ok_def ids_match_def)
  have pos: "0 \<le> fif" by (rule keys_dense_nonneg [OF kd nd])
  have nd': "FindNodeFromFIF pl' fif = Some (node\<lparr> m_enabled := False \<rparr>)"
    using nd by (simp add: FindNodeFromFIF_def pl'_def map_of_set_enabled)
  have hidden: "\<And>k n. (k, n) \<in> set (m_plugin_map pl') \<Longrightarrow> m_enabled n \<Longrightarrow> m_id n \<noteq> fif"
  proof
    fix k n assume mem: "(k, n) \<in> set (m_plugin_map pl')" and en: "m_enabled n" and "m_id n = fif"
    with set_enabled_ids [OF _ im] have "k = fif" by (simp add: pl'_def)
    with set_enabled_entry [of k n fif False "m_plugin_map pl"] mem en show False
      by (simp add: pl'_def)
  qed
  have a: "FreeImage_GetFIFFromFormat g' format \<noteq> Inr fif"
    using hidden pos
    by (auto simp: FreeImage_GetFIFFromFormat_def sp' FindNodeFromFormat_def FIF_UNKNOWN_def
        split: sum.splits option.splits dest!: FindNodeFromFormat_loop_Some)
  have b: "FreeImage_GetFIFFromMime g' mime \<noteq> Inr fif"
    using hidden pos
    by (auto simp: FreeImage_GetFIFFromMime_def sp' FindNodeFromMime_def FIF_UNKNOWN_def
        split: sum.splits option.splits dest!: FindNodeFromMime_loop_Some)
  have c: "FreeImage_GetFIFFromFilename g' filename \<noteq> Inr fif"
    using pos nd'
    by (auto simp: FreeImage_GetFIFFromFilename_def sp' FIF_UNKNOWN_def
        split: option.splits dest!: GetFIFFromFilename_loop_Inr)
  have d1: "FindNodeFromFormat pl' format \<noteq> Inr (Some (node\<lparr> m_enabled := False \<rparr>))"
    by (auto simp: FindNodeFromFormat_def dest!: FindNodeFromFormat_loop_Some)
  have d2: "FindNodeFromMime pl' mime \<noteq> Inr (Some (node\<lparr> m_enabled := False \<rparr>))"
    by (auto simp: FindNodeFromMime_def dest!: FindNodeFromMime_loop_Some)
  have e: "m_enabled node \<longrightarrow> snd (FreeImage_SetPluginEnabled g' fif True) = g"
  proof
    assume en: "m_enabled node"
    have "set_enabled fif True (set_enabled fif False (m_plugin_map pl)) = m_plugin_map pl"
      by (rule set_enabled_undo [OF keys_dense_distinct [OF kd] _ en])
         (use nd in \<open>simp add: FindNodeFromFIF_def\<close>)
    then have restored: "pl'\<lparr> m_plugin_map := set_enabled fif True (m_plugin_map pl') \<rparr> = pl"
      by (simp add: pl'_def)
    have "snd (FreeImage_SetPluginEnabled g' fif True) =
            g'\<lparr> s_plugins := Some (pl'\<lparr> m_plugin_map := set_enabled fif True (m_plugin_map pl') \<rparr>) \<rparr>"
      by (simp add: FreeImage_SetPluginEnabled_def sp' nd')
    also have "\<dots> = g" using sp by (simp add: restored g')
    finally show "snd (FreeImage_SetPluginEnabled g' fif True) = g" .
  qed
  from a b c sp' nd' d1 d2 e show ?thesis by blast
qed

theorem disabled_plugin_hidden_witness:
  "s_plugins sample_globals = Some sample_registry
   \<and> registry_ok sample_registry
   \<and> FindNodeFromFIF sample_registry 1 = Some (sample_node 1 sample_JPEG)
   \<and> m_enabled (sample_node 1 sample_JPEG)
   \<and> FreeImage_GetFIFFromFormat sample_globals ''jpeg'' = Inr 1
   \<and> FreeImage_GetFIFFromFormat (snd (FreeImage_SetPluginEnabled sample_globals 1 False)) ''jpeg'' \<noteq> Inr 1
   \<and> FreeImage_GetFIFFromMime (snd (FreeImage_SetPluginEnabled sample_globals 1 False)) ''image/jpeg'' \<noteq> Inr 1
   \<and> FreeImage_GetFIFFromFilename (snd (FreeImage_SetPluginEnabled sample_globals 1 False)) (Some ''photo.JPG'') \<noteq> Inr 1
   \<and> snd (FreeImage_SetPluginEnabled (snd (FreeImage_SetPluginEnabled sample_globals 1 False)) 1 True)
        = sample_globals"
proof -
  have a: "s_plugins sample_globals = Some sample_registry" by (simp add: sample_globals_def)
  have b: "FindNodeFromFIF sample_registry 1 = Some (sample_node 1 sample_JPEG)"
    by (simp add: FindNodeFromFIF_def sample_registry_map)
  have c: "m_enabled (sample_node 1 sample_JPEG)" by (simp add: sample_node_def)
  from disabled_plugin_hidden [OF a sample_registry_ok b, of "''jpeg''" "''image/jpeg''" "Some ''photo.JPG''"]
  show ?thesis using a b c sample_registry_ok sample_lookup_before by simp
qed

section \<open>Load and save dispatch\<close>

lemma sample_save_with_pixels:
  "FreeImage_SaveToHandle sample_globals 0 sample_gray sample_io (([], 0), []) 0 =
     Inr (True, (([0x42, 0x4D], 2), [Open_hook 0, Save_hook 0, Close_hook 0]))"
  by (simp add: FreeImage_SaveToHandle_def sample_gray_def sample_globals_def
      FreeImage_GetFIFCount_def Size_def sample_registry_map FindNodeFromFIF_def sample_node_def
      sample_BMP_def null_Plugin_def FreeImage_Open_def FreeImage_Close_def)

text \<open>
  \<^bold>\<open>Claim C6.\<close>  For a bitmap without pixel payload \<^verbatim>\<open>FreeImage_SaveToHandle\<close> returns
  \<open>FALSE\<close>, whatever the format id, the stream and the flags; the stream is as it was, and
  the calls made are those made before plus the message callback: no open, save or close
  hook of any plugin is called.  (On the sample registry the same call with pixels does
  call the three hooks: \<open>sample_save_with_pixels\<close>.)
\<close>

theorem SaveToHandle_header_only:
  assumes "\<not> HasPixels dib"
  shows "\<exists>w'. FreeImage_SaveToHandle g fif dib io (handle, calls) flags = Inr (False, w')
           \<and> fst w' = handle
           \<and> filter is_plugin_hook (snd w') = filter is_plugin_hook calls"
  using assms by (simp add: FreeImage_SaveToHandle_def)

theorem SaveToHandle_header_only_witness:
  "\<not> HasPixels (sample_gray\<lparr> HasPixels := False \<rparr>)
   \<and> (\<exists>w'. FreeImage_SaveToHandle sample_globals 0 (sample_gray\<lparr> HasPixels := False \<rparr>)
               sample_io (([], 0), []) 0 = Inr (False, w')
           \<and> fst w' = ([], 0) \<and> filter is_plugin_hook (snd w') = [])"
proof -
  have h: "\<not> HasPixels (sample_gray\<lparr> HasPixels := False \<rparr>)" by simp
  from SaveToHandle_header_only [OF h, of sample_globals 0 sample_io "([], 0)" "[]" 0]
  show ?thesis using h by simp
qed

section \<open>Probing\<close>

lemma sample_io_law:
  "tell_proc sample_io (seek_proc sample_io h' (tell_proc sample_io h) SEEK_SET) = tell_proc sample_io h"
  by (simp add: sample_io_def)

lemma sample_validate:
  "FreeImage_ValidateFIF sample_globals 0 sample_io ([0x42, 0x4D, 0, 0], 0)
     = (True, ([0x42, 0x4D, 0, 0], 0))"
  by (simp add: FreeImage_ValidateFIF_def sample_globals_def FindNodeFromFIF_def
      sample_registry_map sample_node_def sample_BMP_def null_Plugin_def sample_io_def)

text \<open>
  \<^bold>\<open>Claim C9.\<close>  On a stream whose \<^verbatim>\<open>seek\<close> to a position that \<^verbatim>\<open>tell\<close> has reported makes
  \<^verbatim>\<open>tell\<close> report that position again, the position after \<^verbatim>\<open>FreeImage_ValidateFIF\<close> is the
  position before it, for every format id and every state of the registry: whether the
  plugin exists, is enabled, has a validate hook, and whatever the hook answers and however
  it moves the stream.
\<close>

theorem ValidateFIF_restores_position:
  assumes "\<And>h h'. tell_proc io (seek_proc io h' (tell_proc io h) SEEK_SET) = tell_proc io h"
  shows "tell_proc io (snd (FreeImage_ValidateFIF g fif io handle)) = tell_proc io handle"
  using assms
  by (simp add: FreeImage_ValidateFIF_def Let_def split: option.splits prod.splits)

theorem ValidateFIF_restores_position_witness:
  "(\<forall>h h'. tell_proc sample_io (seek_proc sample_io h' (tell_proc sample_io h) SEEK_SET)
            = tell_proc sample_io h)
   \<and> fst (FreeImage_ValidateFIF sample_globals 0 sample_io ([0x42, 0x4D, 0, 0], 0))
   \<and> tell_proc sample_io (snd (FreeImage_ValidateFIF sample_globals 0 sample_io ([0x42, 0x4D, 0, 0], 0)))
      = tell_proc sample_io ([0x42, 0x4D, 0, 0], 0)"
  using ValidateFIF_restores_position [of sample_io sample_globals 0 "([0x42, 0x4D, 0, 0], 0)",
      OF sample_io_law]
  by (simp add: sample_io_law sample_validate)

section \<open>The lookup table\<close>

lemma update_prefix:
  "n \<le> length a \<Longrightarrow>
     fold (\<lambda>i a. a[i := f (a ! i)]) [0..<n] a = map f (take n a) @ drop n a"
proof (induction n)
  case 0
  then show ?case by simp
next
  case (Suc n)
  then have n: "n < length a" by simp
  have "fold (\<lambda>i a. a[i := f (a ! i)]) [0..<Suc n] a =
          (map f (take n a) @ drop n a)[n := f ((map f (take n a) @ drop n a) ! n)]"
    using Suc by simp
  also have "(map f (take n a) @ drop n a) ! n = a ! n"
    using n by (simp add: nth_append)
  also have "(map f (take n a) @ drop n a)[n := f (a ! n)] = map f (take (Suc n) a) @ drop (Suc n) a"
    using n by (simp add: list_update_append take_Suc_conv_app_nth Cons_nth_drop_Suc [symmetric])
  finally show ?case .
qed

lemma for_each_256_map: "length a = 256 \<Longrightarrow> for_each_256 f a = map f a"
  by (simp add: for_each_256_def update_prefix)

lemma fill_256_nth: "i < 256 \<Longrightarrow> fill_256 f ! i = f i"
  by (simp add: fill_256_def)

lemma fill_256_cong: "(\<And>i. i < 256 \<Longrightarrow> f i = g i) \<Longrightarrow> fill_256 f = fill_256 g"
  by (simp add: fill_256_def)

lemma GetAdjustColorsLookupTable_eq:
  "FreeImage_GetAdjustColorsLookupTable ops brightness contrast gamma invert
     = LookupTable_amended ops brightness contrast gamma invert"
proof (cases "all_neutral ops brightness contrast gamma invert")
  case True
  then show ?thesis
    by (simp add: FreeImage_GetAdjustColorsLookupTable_def LookupTable_amended_def all_neutral_def
        fill_256_def)
next
  case False
  define d0 where "d0 = fill_256 (\<lambda>i. fp_const ops (of_nat i))"
  have l0: "length d0 = 256" by (simp add: d0_def fill_256_def)
  show ?thesis
    using False
    by (auto simp: FreeImage_GetAdjustColorsLookupTable_def LookupTable_amended_def all_neutral_def
        Let_def for_each_256_map fill_256_def adjustment_count_def adjusted_def
        contrast_applies_def brightness_applies_def gamma_applies_def
        contrast_transform_def brightness_transform_def gamma_transform_def clamp_255_def
        round_half_up_def)
qed

lemma exact_ops_simps:
  "fp_const exact_ops = of_rat" "fp_add exact_ops = (+)" "fp_sub exact_ops = (-)"
  "fp_mul exact_ops = (*)" "fp_div exact_ops = (/)" "fp_less exact_ops = (<)"
  "fp_eq exact_ops = (=)" "fp_floor exact_ops = (\<lambda>x. of_int \<lfloor>x\<rfloor>)"
  "fp_to_uint8 exact_ops = (\<lambda>x. word_of_int (if 0 \<le> x then \<lfloor>x\<rfloor> else \<lceil>x\<rceil>))"
  "fp_to_uint32 exact_ops = (\<lambda>x. word_of_int (if 0 \<le> x then \<lfloor>x\<rfloor> else \<lceil>x\<rceil>))"
  by (simp_all add: exact_ops_def)

lemma amended_entry_1:
  "snd (LookupTable_amended exact_ops 50 0 1 True) ! 1 = 253"
proof -
  have "snd (LookupTable_amended exact_ops 50 0 1 True) ! 1 =
          255 - round_half_up exact_ops (adjusted exact_ops 50 0 1 (fp_const exact_ops (of_nat 1)))"
    by (simp add: LookupTable_amended_def all_neutral_def Let_def del: of_nat_Suc One_nat_def)
  also have "adjusted exact_ops 50 0 1 (fp_const exact_ops (of_nat 1)) = 3 / 2"
    by (simp add: adjusted_def contrast_applies_def brightness_applies_def gamma_applies_def
        brightness_transform_def clamp_255_def MAX_fp_def MIN_fp_def exact_ops_simps)
  also have "round_half_up exact_ops (3 / 2) = 2"
    by (simp add: round_half_up_def exact_ops_simps of_rat_divide)
  finally show ?thesis by simp
qed

lemma stated_entry_1:
  "snd (LookupTable_as_stated exact_ops 50 0 1 True) ! 1 = 254"
proof -
  have "snd (LookupTable_as_stated exact_ops 50 0 1 True) ! 1 =
          round_half_up exact_ops (invert_transform exact_ops
            (adjusted exact_ops 50 0 1 (fp_const exact_ops (of_nat 1))))"
    by (simp add: LookupTable_as_stated_def all_neutral_def Let_def del: of_nat_Suc One_nat_def)
  also have "adjusted exact_ops 50 0 1 (fp_const exact_ops (of_nat 1)) = 3 / 2"
    by (simp add: adjusted_def contrast_applies_def brightness_applies_def gamma_applies_def
        brightness_transform_def clamp_255_def MAX_fp_def MIN_fp_def exact_ops_simps)
  also have "invert_transform exact_ops (3 / 2) = 507 / 2"
    by (simp add: invert_transform_def clamp_255_def MAX_fp_def MIN_fp_def exact_ops_simps)
  also have "round_half_up exact_ops (507 / 2) = 254"
    by (simp add: round_half_up_def exact_ops_simps of_rat_divide)
  finally show ?thesis .
qed

text \<open>
  \<^bold>\<open>Claim C5.\<close>  As stated, the claim makes the inversion the last of the floating-point
  transforms and rounds its result.  The code rounds first and inverts the byte.  The two
  differ wherever the value before the inversion lies exactly half-way between two
  integers: for brightness 50, contrast 0, gamma 1 and inversion, entry 1 is 1.5 before the
  inversion (every operation up to there is exact in \<^verbatim>\<open>double\<close>), which the code turns
  into \<open>255 - 2 = 253\<close> and the stated order into \<open>floor (253.5 + 0.5) = 254\<close>.
\<close>

theorem LookupTable_inversion_counterexample:
  "snd (FreeImage_GetAdjustColorsLookupTable exact_ops 50 0 1 True) ! 1 = 253
   \<and> snd (LookupTable_as_stated exact_ops 50 0 1 True) ! 1 = 254
   \<and> FreeImage_GetAdjustColorsLookupTable exact_ops 50 0 1 True
       \<noteq> LookupTable_as_stated exact_ops 50 0 1 True"
proof -
  have a: "snd (FreeImage_GetAdjustColorsLookupTable exact_ops 50 0 1 True) ! 1 = 253"
    by (simp only: GetAdjustColorsLookupTable_eq amended_entry_1)
  have "snd (FreeImage_GetAdjustColorsLookupTable exact_ops 50 0 1 True) ! 1
          \<noteq> snd (LookupTable_as_stated exact_ops 50 0 1 True) ! 1"
    by (simp only: a stated_entry_1) simp
  then have "FreeImage_GetAdjustColorsLookupTable exact_ops 50 0 1 True
       \<noteq> LookupTable_as_stated exact_ops 50 0 1 True" by auto
  with a stated_entry_1 show ?thesis by blast
qed

text \<open>
  \<^bold>\<open>Claim C5, amended.\<close>  For every arithmetic and all parameter values,
  \<^verbatim>\<open>FreeImage_GetAdjustColorsLookupTable\<close> returns the identity table and 0 when all
  parameters are neutral.  Otherwise entry \<open>i\<close> is obtained from \<open>i\<close> by contrast (when
  non-zero), brightness (when non-zero) and gamma (when \<open>gamma > 0\<close> and \<open>gamma \<noteq> 1\<close>), in this
  order, each clamped to \<open>[0, 255]\<close>; the result is rounded into a byte by
  \<open>floor (x + 0.5)\<close>, and the inversion, when requested, is taken last, on the byte
  (\<open>255 - byte\<close>).  The number returned counts the adjustments applied.  Without inversion
  this is the table as the claim states it.
\<close>

theorem GetAdjustColorsLookupTable_amended:
  "FreeImage_GetAdjustColorsLookupTable ops brightness contrast gamma invert
     = LookupTable_amended ops brightness contrast gamma invert
   \<and> (all_neutral ops brightness contrast gamma invert \<longrightarrow>
        FreeImage_GetAdjustColorsLookupTable ops brightness contrast gamma invert
          = (0, map of_nat [0..<256]))
   \<and> (\<not> invert \<longrightarrow>
        FreeImage_GetAdjustColorsLookupTable ops brightness contrast gamma invert
          = LookupTable_as_stated ops brightness contrast gamma invert)"
  by (simp add: GetAdjustColorsLookupTable_eq LookupTable_amended_def LookupTable_as_stated_def)

theorem GetAdjustColorsLookupTable_amended_witness:
  "all_neutral exact_ops 0 0 1 False
   \<and> FreeImage_GetAdjustColorsLookupTable exact_ops 0 0 1 False = (0, map of_nat [0..<256])
   \<and> FreeImage_GetAdjustColorsLookupTable exact_ops 50 0 1 False
       = LookupTable_as_stated exact_ops 50 0 1 False
   \<and> fst (FreeImage_GetAdjustColorsLookupTable exact_ops 50 15 1 True) = 3"
proof -
  have n: "all_neutral exact_ops 0 0 1 False"
    by (simp add: all_neutral_def exact_ops_simps)
  have c: "adjustment_count exact_ops 50 15 1 True = 3"
    by (simp add: adjustment_count_def contrast_applies_def brightness_applies_def
        gamma_applies_def exact_ops_simps)
  have nn: "\<not> all_neutral exact_ops 50 15 1 True" by (simp add: all_neutral_def)
  have a: "FreeImage_GetAdjustColorsLookupTable exact_ops 0 0 1 False = (0, map of_nat [0..<256])"
    using GetAdjustColorsLookupTable_amended [of exact_ops 0 0 1 False] n by blast
  have b: "FreeImage_GetAdjustColorsLookupTable exact_ops 50 0 1 False
       = LookupTable_as_stated exact_ops 50 0 1 False"
    using GetAdjustColorsLookupTable_amended [of exact_ops 50 0 1 False] by blast
  have "FreeImage_GetAdjustColorsLookupTable exact_ops 50 15 1 True
       = LookupTable_amended exact_ops 50 15 1 True"
    using GetAdjustColorsLookupTable_amended [of exact_ops 50 15 1 True] by blast
  then have d: "fst (FreeImage_GetAdjustColorsLookupTable exact_ops 50 15 1 True) = 3"
    using nn c by (simp add: LookupTable_amended_def)
  from n a b d show ?thesis by blast
qed

section \<open>Applying a lookup table\<close>

lemma sample_rgb24_red_channel:
  "FreeImage_AdjustCurve sample_rgb24 (Some (map (\<lambda>i. 255 - of_nat i) [0..<256])) FICC_RED
     = Inr (True, sample_rgb24\<lparr> GetScanLine := (GetScanLine sample_rgb24)(0 := [254, 2, 3, 251, 5, 6]) \<rparr>)"
  by (simp add: FreeImage_AdjustCurve_def sample_rgb24_def for_each_pixel_def apply_LUT_def
      FI_RGBA_RED_def upt_conv_Cons word_div_def)


section \<open>Histograms: one traversal\<close>

lemma InvokeWithBuildersImpl_filter:
  "InvokeWithBuildersImpl (length xs) f (xs @ kept) = f (kept @ filter (\<lambda>b. \<not> Discardable b) xs)"
proof (induction xs arbitrary: kept)
  case Nil
  then show ?case by simp
next
  case (Cons x xs)
  show ?case
  proof (cases "Discardable x")
    case True
    then show ?thesis using Cons.IH [of kept] by simp
  next
    case False
    then show ?thesis using Cons.IH [of "kept @ [x]"] by simp
  qed
qed

lemma InvokeWithBuilders_filter:
  "InvokeWithBuilders f builders = f (filter (\<lambda>b. \<not> Discardable b) builders)"
  using InvokeWithBuildersImpl_filter [of builders f "[]"] by (simp add: InvokeWithBuilders_def)

lemma fold_over_concat: "fold g (concat xss) s = fold (fold g) xss s"
  by (induction xss arbitrary: s) simp_all

lemma BitmapForEach_pixels:
  "BitmapForEach px dib (\<lambda>p x y. g p) s = fold g (bitmap_pixels px dib) s"
  by (simp add: BitmapForEach_def bitmap_pixels_def fold_over_concat fold_map comp_def)

lemma length_bitmap_pixels: "length (bitmap_pixels px dib) = pixel_count dib"
  by (simp add: bitmap_pixels_def pixel_count_def length_concat comp_def sum_list_triv mult.commute)

lemma Add_bump:
  "mHist b = Some a \<Longrightarrow> Add b p idx m = bump (a, mStride b) (idx (PixelSelector b p)) m"
  by (simp add: Add_def bump_def Let_def)

lemma active_Nil [simp]: "active [] = []"
  by (simp add: active_def)

lemma active_Cons_Some [simp]: "active ((Some a, s) # bufs) = (a, s) # active bufs"
  by (simp add: active_def)

lemma active_Cons_None [simp]: "active ((None, s) # bufs) = active bufs"
  by (simp add: active_def)

lemma active_append: "active (xs @ ys) = active xs @ active ys"
  by (simp add: active_def)

lemma AddAll_run_row:
  "AddAll (filter (\<lambda>b. \<not> Discardable b) bs) idx p m =
     run_row (active (map buffer_of bs))
       (map (\<lambda>b. idx (PixelSelector b p)) (filter (\<lambda>b. \<not> Discardable b) bs)) m"
proof (induction bs arbitrary: m)
  case Nil
  then show ?case by (simp add: AddAll_def run_row_def)
next
  case (Cons b bs)
  show ?case
  proof (cases "mHist b")
    case None
    then show ?thesis using Cons.IH by (simp add: Discardable_def buffer_of_def)
  next
    case (Some a)
    then show ?thesis using Cons.IH [of "Add b p idx m"]
      by (simp add: Discardable_def buffer_of_def AddAll_def run_row_def Add_bump)
  qed
qed

lemma length_active_filter:
  "length (filter (\<lambda>b. \<not> Discardable b) bs) = length (active (map buffer_of bs))"
proof (induction bs)
  case Nil
  then show ?case by simp
next
  case (Cons b bs)
  then show ?case by (cases "mHist b") (simp_all add: Discardable_def buffer_of_def)
qed

lemma traversal_run_trace:
  "BitmapForEach px dib (\<lambda>p x y. AddAll (filter (\<lambda>b. \<not> Discardable b) bs) idx p) m =
     run_trace (active (map buffer_of bs)) (rows_of idx bs (bitmap_pixels px dib)) m"
proof -
  have "\<And>ps m. fold (AddAll (filter (\<lambda>b. \<not> Discardable b) bs) idx) ps m =
          run_trace (active (map buffer_of bs)) (rows_of idx bs ps) m"
  proof -
    fix ps m show "fold (AddAll (filter (\<lambda>b. \<not> Discardable b) bs) idx) ps m =
          run_trace (active (map buffer_of bs)) (rows_of idx bs ps) m"
      by (induction ps arbitrary: m) (simp_all add: run_trace_def rows_of_def AddAll_run_row)
  qed
  then show ?thesis by (simp add: BitmapForEach_pixels)
qed

lemma rows_of_index_rows:
  assumes "\<And>v. idx v \<le> binsNumber - 1"
  shows "index_rows binsNumber (length (active (map buffer_of bs))) (length pixels)
           (rows_of idx bs pixels)"
  using assms
  by (simp add: index_rows_def rows_of_def list_all_iff length_active_filter)

lemma fold_inc_count:
  "fold inc qs m q = m q + of_nat (count_list qs q)"
  by (induction qs arbitrary: m) (simp_all add: inc_def)

lemma run_row_inc: "run_row act row m = fold inc (row_addrs act row) m"
proof -
  have "\<And>zs m. fold (\<lambda>(buf, k). bump buf k) zs m
          = fold inc (map (\<lambda>(buf, k). fst buf + unat (k * snd buf)) zs) m"
  proof -
    fix zs :: "((nat \<times> 32 word) \<times> 32 word) list" and m
    show "fold (\<lambda>(buf, k). bump buf k) zs m
          = fold inc (map (\<lambda>(buf, k). fst buf + unat (k * snd buf)) zs) m"
      by (induction zs arbitrary: m) (simp_all add: bump_def inc_def case_prod_unfold)
  qed
  then show ?thesis by (simp add: run_row_def row_addrs_def)
qed

lemma run_trace_inc: "run_trace act rows m = fold inc (trace_addrs act rows) m"
  by (induction rows arbitrary: m) (simp_all add: run_trace_def trace_addrs_def run_row_inc)

lemma run_trace_count:
  "run_trace act rows m q = m q + of_nat (count_list (trace_addrs act rows) q)"
  by (simp add: run_trace_inc fold_inc_count)

lemma index_in_slots:
  assumes "fits binsNumber t" and "k \<le> binsNumber - 1" and "1 \<le> binsNumber"
  shows "b + unat (k * t) = slot b t (unat k) \<and> unat k < unat binsNumber"
proof -
  from assms(3) have pos: "0 < unat binsNumber"
    by (simp add: word_le_nat_alt)
  then have u1: "unat (binsNumber - 1) = unat binsNumber - 1"
    using assms(3) by (simp add: unat_sub)
  from assms(2) have le: "unat k \<le> unat binsNumber - 1"
    by (simp add: word_le_nat_alt u1)
  then have "unat k * unat t \<le> (unat binsNumber - 1) * unat t"
    by (rule mult_le_mono1)
  moreover from assms(1) have "(unat binsNumber - 1) * unat t < 2 ^ 32" by (simp only: fits_def)
  ultimately have "unat k * unat t < 2 ^ 32" by (rule le_less_trans)
  then have "unat (k * t) = unat k * unat t"
    by (simp add: unat_mult_lem [THEN iffD1])
  with le pos show ?thesis by (simp add: slot_def)
qed

lemma slot_inj: "s \<noteq> 0 \<Longrightarrow> inj_on (slot a s) A"
  by (auto simp: inj_on_def slot_def unat_eq_zero)

lemma sum_count_list_image:
  assumes "inj_on f {..<n::nat}"
  shows "(\<Sum>k<n. count_list qs (f k)) = length (filter (\<lambda>q. q \<in> f ` {..<n}) qs)"
proof (induction qs)
  case Nil
  then show ?case by simp
next
  case (Cons q qs)
  show ?case
  proof (cases "q \<in> f ` {..<n}")
    case False
    then have "\<And>k. k < n \<Longrightarrow> q \<noteq> f k" by auto
    then have "(\<Sum>k<n. count_list (q # qs) (f k)) = (\<Sum>k<n. count_list qs (f k))"
      by (intro sum.cong) auto
    with False Cons show ?thesis by simp
  next
    case True
    then obtain k0 where k0: "k0 < n" "q = f k0" by auto
    have "\<And>k. k < n \<Longrightarrow> (q = f k) = (k = k0)"
      using assms k0 by (auto simp: inj_on_def)
    then have "(\<Sum>k<n. count_list (q # qs) (f k))
                 = (\<Sum>k<n. count_list qs (f k) + (if k = k0 then 1 else 0))"
      by (intro sum.cong) auto
    also have "\<dots> = (\<Sum>k<n. count_list qs (f k)) + (\<Sum>k<n. if k = k0 then 1 else 0)"
      by (simp add: sum.distrib)
    also have "(\<Sum>k<n. if k = k0 then 1 else 0) = (if k0 \<in> {..<n} then (1::nat) else 0)"
      by (rule sum.delta) simp
    also have "\<dots> = 1" using k0(1) by simp
    finally show ?thesis using True Cons by simp
  qed
qed

lemma count_list_le_filter:
  "q \<in> S \<Longrightarrow> count_list qs q \<le> length (filter (\<lambda>q. q \<in> S) qs)"
  by (induction qs) auto

lemma filter_length_concat_const:
  assumes "\<And>xs. xs \<in> set xss \<Longrightarrow> length (filter P xs) = c"
  shows "length (filter P (concat xss)) = c * length xss"
  using assms by (induction xss) simp_all

text \<open>In a row of addresses the target buffer's entry is one of its bins, and no other
  entry is.\<close>

lemma row_hits_once:
  assumes row: "length row = length (pre @ [(a, s)] @ post)"
    and le: "list_all (\<lambda>k. k \<le> binsNumber - 1) row"
    and bins: "1 \<le> binsNumber"
    and fit: "fits binsNumber s"
    and others: "\<And>b t. (b, t) \<in> set (pre @ post) \<Longrightarrow>
                   fits binsNumber t \<and> slots b t binsNumber \<inter> slots a s binsNumber = {}"
  shows "length (filter (\<lambda>q. q \<in> slots a s binsNumber) (row_addrs (pre @ [(a, s)] @ post) row)) = 1"
proof -
  define n where "n = length pre"
  have len: "length row = n + 1 + length post" using row by (simp add: n_def)
  define r1 where "r1 = take n row"
  define k where "k = row ! n"
  define r2 where "r2 = drop (Suc n) row"
  have split: "row = r1 @ [k] @ r2"
    using len by (simp add: r1_def k_def r2_def Cons_nth_drop_Suc)
  have l1: "length r1 = length pre" using len by (simp add: r1_def n_def)
  have l2: "length r2 = length post" using len by (simp add: r2_def)
  have allk: "\<And>j. j \<in> set row \<Longrightarrow> j \<le> binsNumber - 1"
    using le by (simp add: list_all_iff)
  have eq: "row_addrs (pre @ [(a, s)] @ post) row =
              row_addrs pre r1 @ [a + unat (k * s)] @ row_addrs post r2"
    using l1 l2 by (simp add: split row_addrs_def)
  have miss: "\<And>act r. set act \<subseteq> set (pre @ post) \<Longrightarrow> set r \<subseteq> set row \<Longrightarrow>
                filter (\<lambda>q. q \<in> slots a s binsNumber) (row_addrs act r) = []"
  proof -
    fix act :: "(nat \<times> 32 word) list" and r :: "32 word list"
    assume sub: "set act \<subseteq> set (pre @ post)" "set r \<subseteq> set row"
    have "\<And>q. q \<in> set (row_addrs act r) \<Longrightarrow> q \<notin> slots a s binsNumber"
    proof -
      fix q assume "q \<in> set (row_addrs act r)"
      then obtain b t j where bt: "(b, t) \<in> set act" "j \<in> set r" "q = b + unat (j * t)"
        by (auto simp: row_addrs_def elim!: in_set_zipE)
      from bt(1) sub(1) have o: "fits binsNumber t"
        "slots b t binsNumber \<inter> slots a s binsNumber = {}" using others by blast+
      from bt(2) sub(2) have "j \<le> binsNumber - 1" using allk by blast
      from index_in_slots [OF o(1) this bins, of b] have "q \<in> slots b t binsNumber"
        by (auto simp: bt(3) slots_def)
      with o(2) show "q \<notin> slots a s binsNumber" by blast
    qed
    then show "filter (\<lambda>q. q \<in> slots a s binsNumber) (row_addrs act r) = []"
      by (simp add: filter_empty_conv)
  qed
  have kin: "a + unat (k * s) \<in> slots a s binsNumber"
  proof -
    have "k \<in> set row" by (simp add: split)
    then have "k \<le> binsNumber - 1" by (rule allk)
    from index_in_slots [OF fit this bins, of a] show ?thesis by (auto simp: slots_def)
  qed
  have m1: "filter (\<lambda>q. q \<in> slots a s binsNumber) (row_addrs pre r1) = []"
    by (rule miss) (auto simp: split)
  have m2: "filter (\<lambda>q. q \<in> slots a s binsNumber) (row_addrs post r2) = []"
    by (rule miss) (auto simp: split)
  show ?thesis unfolding eq by (simp add: m1 m2 kin)
qed

lemma trace_addrs_in_slots:
  assumes rows: "index_rows binsNumber (length act) n rows"
    and bins: "1 \<le> binsNumber"
    and fit: "\<And>b t. (b, t) \<in> set act \<Longrightarrow> fits binsNumber t"
    and q: "q \<in> set (trace_addrs act rows)"
  shows "\<exists>(b, t) \<in> set act. q \<in> slots b t binsNumber"
proof -
  from q obtain row where row: "row \<in> set rows" "q \<in> set (row_addrs act row)"
    by (auto simp: trace_addrs_def)
  then obtain b t k where bt: "(b, t) \<in> set act" "k \<in> set row" "q = b + unat (k * t)"
    by (auto simp: row_addrs_def elim!: in_set_zipE)
  from rows row(1) bt(2) have "k \<le> binsNumber - 1"
    by (auto simp: index_rows_def list_all_iff)
  from index_in_slots [OF fit [OF bt(1)] this bins, of b] have "q \<in> slots b t binsNumber"
    by (auto simp: bt(3) slots_def)
  with bt(1) show ?thesis by blast
qed

lemma trace_untouched:
  assumes "index_rows binsNumber (length act) n rows" and "1 \<le> binsNumber"
    and "\<And>b t. (b, t) \<in> set act \<Longrightarrow> fits binsNumber t \<and> q \<notin> slots b t binsNumber"
  shows "run_trace act rows m q = m q"
proof -
  have "q \<notin> set (trace_addrs act rows)"
    using trace_addrs_in_slots [OF assms(1,2), of q] assms(3) by blast
  then have "count_list (trace_addrs act rows) q = 0" by (simp add: count_list_0_iff)
  then show ?thesis by (simp add: run_trace_count)
qed

lemma trace_mass:
  assumes rows: "index_rows binsNumber (length (pre @ [(a, s)] @ post)) n rows"
    and bins: "1 \<le> binsNumber" and s0: "s \<noteq> 0" and fit: "fits binsNumber s"
    and others: "\<And>b t. (b, t) \<in> set (pre @ post) \<Longrightarrow>
                   fits binsNumber t \<and> slots b t binsNumber \<inter> slots a s binsNumber = {}"
    and zero: "\<And>k. k < unat binsNumber \<Longrightarrow> m (slot a s k) = 0"
    and small: "n < 2 ^ 32"
  shows "bin_sum (run_trace (pre @ [(a, s)] @ post) rows m) a s binsNumber = n"
proof -
  define act where "act = pre @ [(a, s)] @ post"
  define addrs where "addrs = trace_addrs act rows"
  define S where "S = slots a s binsNumber"
  have each: "\<And>xs. xs \<in> set (map (row_addrs act) rows) \<Longrightarrow> length (filter (\<lambda>q. q \<in> S) xs) = 1"
  proof -
    fix xs assume "xs \<in> set (map (row_addrs act) rows)"
    then obtain row where row: "row \<in> set rows" "xs = row_addrs act row" by auto
    from rows row(1) have r: "length row = length (pre @ [(a, s)] @ post)"
      "list_all (\<lambda>k. k \<le> binsNumber - 1) row"
      by (auto simp: index_rows_def list_all_iff)
    from row_hits_once [OF r bins fit others]
    show "length (filter (\<lambda>q. q \<in> S) xs) = 1" by (simp add: row(2) act_def S_def)
  qed
  have hits: "length (filter (\<lambda>q. q \<in> S) addrs) = n"
    using filter_length_concat_const [of "map (row_addrs act) rows" "\<lambda>q. q \<in> S" 1, OF each] rows
    by (simp add: addrs_def trace_addrs_def index_rows_def)
  have inj: "inj_on (slot a s) {..<unat binsNumber}" by (rule slot_inj [OF s0])
  have val: "\<And>k. k < unat binsNumber \<Longrightarrow>
               unat (run_trace act rows m (slot a s k)) = count_list addrs (slot a s k)"
  proof -
    fix k assume k: "k < unat binsNumber"
    then have "slot a s k \<in> S" by (simp add: S_def slots_def)
    from count_list_le_filter [OF this, of addrs] hits small
    have "count_list addrs (slot a s k) < 2 ^ 32" by simp
    then have "unat (word_of_nat (count_list addrs (slot a s k)) :: 32 word)
                 = count_list addrs (slot a s k)"
      by (simp add: unat_of_nat)
    then show "unat (run_trace act rows m (slot a s k)) = count_list addrs (slot a s k)"
      by (simp add: run_trace_count zero [OF k] addrs_def)
  qed
  have "bin_sum (run_trace act rows m) a s binsNumber
          = (\<Sum>k<unat binsNumber. count_list addrs (slot a s k))"
    by (simp add: bin_sum_def val)
  also have "\<dots> = length (filter (\<lambda>q. q \<in> slot a s ` {..<unat binsNumber}) addrs)"
    by (rule sum_count_list_image [OF inj])
  also have "\<dots> = n" using hits by (simp add: S_def slots_def)
  finally show ?thesis by (simp add: act_def)
qed

lemma fold_clear:
  "fold (\<lambda>i m. m(a + i * t := 0)) [0..<n] m q = (if \<exists>i<n. q = a + i * t then (0::32 word) else m q)"
  by (induction n arbitrary: m) (auto simp: less_Suc_eq)

lemma ClearHistogram_eq:
  "ClearHistogram hist stride binsNumber m =
     (case hist of None \<Rightarrow> m
      | Some a \<Rightarrow> (\<lambda>q. if q \<in> slots a stride binsNumber then 0 else m q))"
proof (cases hist)
  case None
  then show ?thesis by (simp add: ClearHistogram_def)
next
  case (Some a)
  show ?thesis
  proof (cases "stride = 1")
    case True
    have "\<And>q. (a \<le> q \<and> q < a + unat binsNumber) = (q \<in> slots a 1 binsNumber)"
    proof -
      fix q
      show "(a \<le> q \<and> q < a + unat binsNumber) = (q \<in> slots a 1 binsNumber)"
      proof
        assume h: "a \<le> q \<and> q < a + unat binsNumber"
        then have "q = slot a 1 (q - a)" "q - a < unat binsNumber" by (auto simp: slot_def)
        then show "q \<in> slots a 1 binsNumber" unfolding slots_def by blast
      next
        assume "q \<in> slots a 1 binsNumber"
        then show "a \<le> q \<and> q < a + unat binsNumber" by (auto simp: slots_def slot_def)
      qed
    qed
    then show ?thesis using Some True by (simp add: ClearHistogram_def)
  next
    case False
    have "\<And>q. (\<exists>i<unat binsNumber. q = a + i * unat stride) = (q \<in> slots a stride binsNumber)"
      by (auto simp: slots_def slot_def)
    then show ?thesis using Some False by (simp add: ClearHistogram_def fold_clear fun_eq_iff)
  qed
qed

lemma degenerate_fill_apply:
  "degenerate_fill act v m q = (if q \<in> fst ` set act then v else m q)"
  by (induction act arbitrary: m) (auto simp: degenerate_fill_def)

lemma degenerate_fill_Cons:
  "degenerate_fill (buf # act) v m = degenerate_fill act v (m(fst buf := v))"
  by (simp add: degenerate_fill_def)

lemma SetZero_fill:
  "fold (\<lambda>b. SetZero b v) (filter (\<lambda>b. \<not> Discardable b) bs) m
     = degenerate_fill (active (map buffer_of bs)) v m"
proof (induction bs arbitrary: m)
  case Nil
  then show ?case by (simp add: degenerate_fill_def)
next
  case (Cons b bs)
  show ?case
  proof (cases "mHist b")
    case None
    then show ?thesis using Cons.IH by (simp add: Discardable_def buffer_of_def)
  next
    case (Some a)
    have "SetZero b v m = m(a := v)" using Some by (simp add: SetZero_def)
    then show ?thesis using Some Cons.IH [of "m(a := v)"]
      by (simp add: Discardable_def buffer_of_def degenerate_fill_Cons del: fun_upd_apply)
  qed
qed

lemma traversal_ofI:
  assumes "\<And>v. idx v \<le> binsNumber - 1"
  shows "traversal_of binsNumber (active (map buffer_of bs)) (pixel_count dib) m
           (BitmapForEach px dib (\<lambda>p x y. AddAll (filter (\<lambda>b. \<not> Discardable b) bs) idx p) m)"
  unfolding traversal_of_def traversal_run_trace
  using rows_of_index_rows [of idx binsNumber bs "bitmap_pixels px dib", OF assms]
  by (auto simp: length_bitmap_pixels)

lemma HistogramUInt_shape:
  assumes "1 \<le> binsNumber"
  shows "fst (InvokeWithBuilders (HistogramUInt wide px dib binsNumber) bs m)
       \<and> traversal_of binsNumber (active (map buffer_of bs)) (pixel_count dib) m
           (snd (InvokeWithBuilders (HistogramUInt wide px dib binsNumber) bs m))"
proof -
  from assms have nz: "\<not> binsNumber < 1" by (simp add: word_less_nat_alt word_le_nat_alt)
  show ?thesis
    using nz
    by (simp add: InvokeWithBuilders_filter HistogramUInt_def traversal_ofI
        CalculateBinIndexWithoutScale_def CalculateBinIndexWithScale_def Let_def)
qed

lemma HistogramSInt_shape:
  assumes "1 \<le> binsNumber"
  shows "fst (InvokeWithBuilders (HistogramSInt wide px dib binsNumber) bs m)
       \<and> traversal_of binsNumber (active (map buffer_of bs)) (pixel_count dib) m
           (snd (InvokeWithBuilders (HistogramSInt wide px dib binsNumber) bs m))"
proof -
  from assms have nz: "\<not> binsNumber < 1" by (simp add: word_less_nat_alt word_le_nat_alt)
  show ?thesis
    using nz
    by (simp add: InvokeWithBuilders_filter HistogramSInt_def traversal_ofI
        CalculateBinIndexSigned_def Let_def)
qed

lemma HistogramFloat_shape:
  fixes ops :: "'f fp_ops" and px :: "8 word list \<Rightarrow> nat \<Rightarrow> 'p" and dib :: FIBITMAP
    and mn mx :: 'f and bs :: "('p, 'f) HistogramBuilder list" and m :: counters
  assumes "1 \<le> binsNumber"
  defines "r \<equiv> InvokeWithBuilders (HistogramFloat ops px dib binsNumber mn mx) bs m"
  shows "if fp_less ops mx mn then r = (False, m)
         else if fp_eq ops mn mx then
           r = (True, degenerate_fill (active (map buffer_of bs)) (GetWidth dib * GetHeight dib) m)
         else fst r \<and> traversal_of binsNumber (active (map buffer_of bs)) (pixel_count dib) m (snd r)"
proof -
  from assms(1) have nz: "\<not> binsNumber < 1" by (simp add: word_less_nat_alt word_le_nat_alt)
  show ?thesis
    using nz
    by (simp add: r_def InvokeWithBuilders_filter HistogramFloat_def traversal_ofI SetZero_fill Let_def)
qed

section \<open>Histograms: the cases of the switch\<close>

lemma buffer_of_HistogramBuilder [simp]: "buffer_of (HistogramBuilder sel h s) = (h, s)"
  by (simp add: buffer_of_def HistogramBuilder_def)

lemma int_outcome:
  assumes "discovered tools dib = None" and "\<not> is_float (GetImageType dib)"
    and "0 < supported_count dib"
    and "fst x \<and> traversal_of binsNumber act (pixel_count dib) m (snd x)"
  shows "histogram_outcome tools dib binsNumber outMinVal outMaxVal act m
           (SetIntMinMax lowest highest outMinVal outMaxVal x)"
  using assms by (simp add: histogram_outcome_def degenerate_def accepted_def SetIntMinMax_def)

lemma float_outcome:
  fixes tools :: "('f, 'd) SimpleTools" and ops :: "'v fp_ops"
    and as_scalar :: "'v \<Rightarrow> ('f, 'd) scalar"
  assumes disc: "discovered tools dib = map_option (map_prod as_scalar as_scalar) (FindMinMax dib)"
    and fl: "is_float (GetImageType dib)" and sup: "0 < supported_count dib"
    and less: "\<And>a b. scalar_less tools (as_scalar a) (as_scalar b) = fp_less ops a b"
    and eq: "\<And>a b. scalar_eq tools (as_scalar a) (as_scalar b) = fp_eq ops a b"
    and run: "\<And>mn mx.
       if fp_less ops mx mn then run mn mx m = (False, m)
       else if fp_eq ops mn mx then
         run mn mx m = (True, degenerate_fill act (GetWidth dib * GetHeight dib) m)
       else fst (run mn mx m) \<and> traversal_of binsNumber act (pixel_count dib) m (snd (run mn mx m))"
  shows "histogram_outcome tools dib binsNumber outMinVal outMaxVal act m
           (float_case (FindHistogramBounds FindMinMax as_scalar dib outMinVal outMaxVal) run m)"
proof (cases "FindMinMax dib")
  case None
  then show ?thesis
    using fl
    by (simp add: histogram_outcome_def degenerate_def accepted_def disc float_case_def
        FindHistogramBounds_def)
next
  case (Some b)
  obtain mn mx where b: "b = (mn, mx)" by (cases b)
  show ?thesis
    using run [where mn = mn and mx = mx] sup
    by (cases "run mn mx m")
       (auto simp: histogram_outcome_def degenerate_def accepted_def disc Some b float_case_def
          FindHistogramBounds_def less eq split: if_splits)
qed

lemma HistogramUInt_bufs:
  assumes "1 \<le> binsNumber" and "map buffer_of bs = bufs"
  shows "fst (InvokeWithBuilders (HistogramUInt wide px dib binsNumber) bs m)
       \<and> traversal_of binsNumber (active bufs) (pixel_count dib) m
           (snd (InvokeWithBuilders (HistogramUInt wide px dib binsNumber) bs m))"
  using HistogramUInt_shape [OF assms(1), of wide px dib bs m] assms(2) by simp

lemma HistogramSInt_bufs:
  assumes "1 \<le> binsNumber" and "map buffer_of bs = bufs"
  shows "fst (InvokeWithBuilders (HistogramSInt wide px dib binsNumber) bs m)
       \<and> traversal_of binsNumber (active bufs) (pixel_count dib) m
           (snd (InvokeWithBuilders (HistogramSInt wide px dib binsNumber) bs m))"
  using HistogramSInt_shape [OF assms(1), of wide px dib bs m] assms(2) by simp

lemma HistogramFloat_bufs:
  fixes ops :: "'f fp_ops" and px :: "8 word list \<Rightarrow> nat \<Rightarrow> 'p" and dib :: FIBITMAP
    and mn mx :: 'f and bs :: "('p, 'f) HistogramBuilder list" and m :: counters
  assumes "1 \<le> binsNumber" and "map buffer_of bs = bufs"
  shows "if fp_less ops mx mn then
           InvokeWithBuilders (HistogramFloat ops px dib binsNumber mn mx) bs m = (False, m)
         else if fp_eq ops mn mx then
           InvokeWithBuilders (HistogramFloat ops px dib binsNumber mn mx) bs m
             = (True, degenerate_fill (active bufs) (GetWidth dib * GetHeight dib) m)
         else fst (InvokeWithBuilders (HistogramFloat ops px dib binsNumber mn mx) bs m)
              \<and> traversal_of binsNumber (active bufs) (pixel_count dib) m
                   (snd (InvokeWithBuilders (HistogramFloat ops px dib binsNumber mn mx) bs m))"
  unfolding assms(2) [symmetric] by (rule HistogramFloat_shape [OF assms(1)])

lemma failed_outcome:
  "discovered tools dib = None \<Longrightarrow> supported_count dib = 0 \<Longrightarrow>
     histogram_outcome tools dib binsNumber outMinVal outMaxVal act m
       \<lparr> success = False, outMin = None, outMax = None, store = m \<rparr>"
  by (simp add: histogram_outcome_def degenerate_def accepted_def)

lemma switch_outcome:
  assumes bins: "1 \<le> binsNumber"
  shows "histogram_outcome tools dib binsNumber outMinVal outMaxVal
           (active (take (supported_count dib)
              [(histR, strideR), (histG, strideG), (histB, strideB), (histL, strideL)])) m
           (MakeHistogram_switch tools dib binsNumber outMinVal outMaxVal
              histR strideR histG strideG histB strideB histL strideL m)"
proof (cases "GetImageType dib")
  case FIT_UNKNOWN
  then show ?thesis
    by (simp add: MakeHistogram_switch_def failed_outcome discovered_def supported_count_def)
next
  case FIT_BITMAP
  then have d: "discovered tools dib = None" and nf: "\<not> is_float (GetImageType dib)"
    by (simp_all add: discovered_def is_float_def)
  consider (rgba) "(GetColorType2 dib = FIC_RGBALPHA \<or> GetColorType2 dib = FIC_YUV) \<and> GetBPP dib = 32"
    | (rgb) "\<not> ((GetColorType2 dib = FIC_RGBALPHA \<or> GetColorType2 dib = FIC_YUV) \<and> GetBPP dib = 32)"
        "(GetColorType2 dib = FIC_RGB \<or> GetColorType2 dib = FIC_YUV) \<and> GetBPP dib = 24"
    | (gray) "\<not> ((GetColorType2 dib = FIC_RGBALPHA \<or> GetColorType2 dib = FIC_YUV) \<and> GetBPP dib = 32)"
        "\<not> ((GetColorType2 dib = FIC_RGB \<or> GetColorType2 dib = FIC_YUV) \<and> GetBPP dib = 24)"
        "GetColorType2 dib = FIC_MINISBLACK \<and> GetBPP dib = 8"
    | (none) "\<not> ((GetColorType2 dib = FIC_RGBALPHA \<or> GetColorType2 dib = FIC_YUV) \<and> GetBPP dib = 32)"
        "\<not> ((GetColorType2 dib = FIC_RGB \<or> GetColorType2 dib = FIC_YUV) \<and> GetBPP dib = 24)"
        "\<not> (GetColorType2 dib = FIC_MINISBLACK \<and> GetBPP dib = 8)"
    by blast
  then show ?thesis
  proof cases
    case rgba
    then have s: "supported_count dib = 4" using FIT_BITMAP by (simp add: supported_count_def)
    show ?thesis
      unfolding MakeHistogram_switch_def s using FIT_BITMAP rgba
      by (simp add: Let_def) (intro int_outcome HistogramUInt_bufs bins d nf, simp_all add: s)
  next
    case rgb
    then have s: "supported_count dib = 4" using FIT_BITMAP by (simp add: supported_count_def)
    show ?thesis
      unfolding MakeHistogram_switch_def s using FIT_BITMAP rgb
      by (simp add: Let_def) (intro int_outcome HistogramUInt_bufs bins d nf, simp_all add: s)
  next
    case gray
    then have s: "supported_count dib = 1" using FIT_BITMAP by (simp add: supported_count_def)
    show ?thesis
      unfolding MakeHistogram_switch_def s using FIT_BITMAP gray
      by (simp add: Let_def) (intro int_outcome HistogramUInt_bufs bins d nf, simp_all add: s)
  next
    case none
    have "MakeHistogram_switch tools dib binsNumber outMinVal outMaxVal
              histR strideR histG strideG histB strideB histL strideL m
            = SetIntMinMax (Uint8 0) (Uint8 255) outMinVal outMaxVal (False, m)"
      unfolding MakeHistogram_switch_def
      by (simp only: FIT_BITMAP FREE_IMAGE_TYPE.case Let_def none if_False)
    moreover have "supported_count dib = 0"
      using FIT_BITMAP none by (simp add: supported_count_def)
    ultimately show ?thesis using d
      by (simp add: histogram_outcome_def degenerate_def accepted_def SetIntMinMax_def)
  qed
next
  case FIT_UINT16
  then have d: "discovered tools dib = None" and s: "supported_count dib = 1"
    and nf: "\<not> is_float (GetImageType dib)"
    by (simp_all add: discovered_def supported_count_def is_float_def)
  show ?thesis
    unfolding MakeHistogram_switch_def s using FIT_UINT16
    by simp (intro int_outcome HistogramUInt_bufs bins d nf, simp_all add: s)
next
  case FIT_INT16
  then have d: "discovered tools dib = None" and s: "supported_count dib = 1"
    and nf: "\<not> is_float (GetImageType dib)"
    by (simp_all add: discovered_def supported_count_def is_float_def)
  show ?thesis
    unfolding MakeHistogram_switch_def s using FIT_INT16
    by simp (intro int_outcome HistogramSInt_bufs bins d nf, simp_all add: s)
next
  case FIT_UINT32
  then have d: "discovered tools dib = None" and s: "supported_count dib = 1"
    and nf: "\<not> is_float (GetImageType dib)"
    by (simp_all add: discovered_def supported_count_def is_float_def)
  show ?thesis
    unfolding MakeHistogram_switch_def s using FIT_UINT32
    by simp (intro int_outcome HistogramUInt_bufs bins d nf, simp_all add: s)
next
  case FIT_INT32
  then have d: "discovered tools dib = None" and s: "supported_count dib = 1"
    and nf: "\<not> is_float (GetImageType dib)"
    by (simp_all add: discovered_def supported_count_def is_float_def)
  show ?thesis
    unfolding MakeHistogram_switch_def s using FIT_INT32
    by simp (intro int_outcome HistogramSInt_bufs bins d nf, simp_all add: s)
next
  case FIT_RGB16
  then have d: "discovered tools dib = None" and s: "supported_count dib = 4"
    and nf: "\<not> is_float (GetImageType dib)"
    by (simp_all add: discovered_def supported_count_def is_float_def)
  show ?thesis
    unfolding MakeHistogram_switch_def s using FIT_RGB16
    by simp (intro int_outcome HistogramUInt_bufs bins d nf, simp_all add: s)
next
  case FIT_RGBA16
  then have d: "discovered tools dib = None" and s: "supported_count dib = 4"
    and nf: "\<not> is_float (GetImageType dib)"
    by (simp_all add: discovered_def supported_count_def is_float_def)
  show ?thesis
    unfolding MakeHistogram_switch_def s using FIT_RGBA16
    by simp (intro int_outcome HistogramUInt_bufs bins d nf, simp_all add: s)
next
  case FIT_RGB32
  then have d: "discovered tools dib = None" and s: "supported_count dib = 4"
    and nf: "\<not> is_float (GetImageType dib)"
    by (simp_all add: discovered_def supported_count_def is_float_def)
  show ?thesis
    unfolding MakeHistogram_switch_def s using FIT_RGB32
    by simp (intro int_outcome HistogramUInt_bufs bins d nf, simp_all add: s)
next
  case FIT_RGBA32
  then have d: "discovered tools dib = None" and s: "supported_count dib = 4"
    and nf: "\<not> is_float (GetImageType dib)"
    by (simp_all add: discovered_def supported_count_def is_float_def)
  show ?thesis
    unfolding MakeHistogram_switch_def s using FIT_RGBA32
    by simp (intro int_outcome HistogramUInt_bufs bins d nf, simp_all add: s)
next
  case FIT_FLOAT
  then have d: "discovered tools dib = map_option (map_prod Float Float) (bounds_float tools dib)"
    and s: "supported_count dib = 1" and fl: "is_float (GetImageType dib)"
    by (simp_all add: discovered_def supported_count_def is_float_def)
  show ?thesis
    unfolding MakeHistogram_switch_def s using FIT_FLOAT
    by simp (rule float_outcome [where ops = "float_ops tools"], rule d, rule fl, simp add: s,
             simp, simp, rule HistogramFloat_bufs [OF bins], simp)
next
  case FIT_DOUBLE
  then have d: "discovered tools dib = map_option (map_prod Double Double) (bounds_double tools dib)"
    and s: "supported_count dib = 1" and fl: "is_float (GetImageType dib)"
    by (simp_all add: discovered_def supported_count_def is_float_def)
  show ?thesis
    unfolding MakeHistogram_switch_def s using FIT_DOUBLE
    by simp (rule float_outcome [where ops = "double_ops tools"], rule d, rule fl, simp add: s,
             simp, simp, rule HistogramFloat_bufs [OF bins], simp)
next
  case FIT_COMPLEX
  then have d: "discovered tools dib = map_option (map_prod Double Double) (bounds_FICOMPLEX tools dib)"
    and s: "supported_count dib = 3" and fl: "is_float (GetImageType dib)"
    by (simp_all add: discovered_def supported_count_def is_float_def)
  show ?thesis
    unfolding MakeHistogram_switch_def s using FIT_COMPLEX
    by simp (rule float_outcome [where ops = "double_ops tools"], rule d, rule fl, simp add: s,
             simp, simp, rule HistogramFloat_bufs [OF bins], simp)
next
  case FIT_COMPLEXF
  then have d: "discovered tools dib = map_option (map_prod Float Float) (bounds_FICOMPLEXF tools dib)"
    and s: "supported_count dib = 3" and fl: "is_float (GetImageType dib)"
    by (simp_all add: discovered_def supported_count_def is_float_def)
  show ?thesis
    unfolding MakeHistogram_switch_def s using FIT_COMPLEXF
    by simp (rule float_outcome [where ops = "float_ops tools"], rule d, rule fl, simp add: s,
             simp, simp, rule HistogramFloat_bufs [OF bins], simp)
next
  case FIT_RGBF
  then have d: "discovered tools dib = map_option (map_prod Float Float) (bounds_FIRGBF tools dib)"
    and s: "supported_count dib = 4" and fl: "is_float (GetImageType dib)"
    by (simp_all add: discovered_def supported_count_def is_float_def)
  show ?thesis
    unfolding MakeHistogram_switch_def s using FIT_RGBF
    by simp (rule float_outcome [where ops = "float_ops tools"], rule d, rule fl, simp add: s,
             simp, simp, rule HistogramFloat_bufs [OF bins], simp)
next
  case FIT_RGBAF
  then have d: "discovered tools dib = map_option (map_prod Float Float) (bounds_FIRGBAF tools dib)"
    and s: "supported_count dib = 4" and fl: "is_float (GetImageType dib)"
    by (simp_all add: discovered_def supported_count_def is_float_def)
  show ?thesis
    unfolding MakeHistogram_switch_def s using FIT_RGBAF
    by simp (rule float_outcome [where ops = "float_ops tools"], rule d, rule fl, simp add: s,
             simp, simp, rule HistogramFloat_bufs [OF bins], simp)
qed

section \<open>Histograms: the entry point\<close>

lemma MakeHistogram_unfold:
  "FreeImage_MakeHistogram tools dib binsNumber outMinVal outMaxVal
       histR strideR histG strideG histB strideB histL strideL m =
     (if \<not> valid_request dib binsNumber
             [(histR, strideR), (histG, strideG), (histB, strideB), (histL, strideL)]
      then \<lparr> success = False, outMin = None, outMax = None, store = m \<rparr>
      else if all_null [(histR, strideR), (histG, strideG), (histB, strideB), (histL, strideL)]
      then \<lparr> success = True, outMin = None, outMax = None, store = m \<rparr>
      else MakeHistogram_switch tools dib binsNumber outMinVal outMaxVal
             histR strideR histG strideG histB strideB histL strideL
             (cleared binsNumber
                [(histR, strideR), (histG, strideG), (histB, strideB), (histL, strideL)] m))"
proof -
  have b: "1 \<le> binsNumber \<longleftrightarrow> binsNumber \<noteq> 0" by (metis not_less word_less_1)
  have v: "valid_request dib binsNumber
             [(histR, strideR), (histG, strideG), (histB, strideB), (histL, strideL)] \<longleftrightarrow>
           \<not> (\<not> HasPixels dib \<or> binsNumber < 1)
           \<and> \<not> ((histR \<noteq> None \<and> strideR \<le> 0) \<or> (histG \<noteq> None \<and> strideG \<le> 0)
                \<or> (histB \<noteq> None \<and> strideB \<le> 0) \<or> (histL \<noteq> None \<and> strideL \<le> 0))"
    using b by (simp add: valid_request_def)
  have n: "all_null [(histR, strideR), (histG, strideG), (histB, strideB), (histL, strideL)] \<longleftrightarrow>
           histR = None \<and> histG = None \<and> histB = None \<and> histL = None"
    by (simp add: all_null_def)
  have c: "cleared binsNumber
             [(histR, strideR), (histG, strideG), (histB, strideB), (histL, strideL)] m =
           ClearHistogram histL strideL binsNumber
            (ClearHistogram histB strideB binsNumber
              (ClearHistogram histG strideG binsNumber
                (ClearHistogram histR strideR binsNumber m)))"
    by (simp add: cleared_def)
  show ?thesis
    unfolding FreeImage_MakeHistogram_def v n c
    by (cases "\<not> HasPixels dib \<or> binsNumber < 1";
        cases "(histR \<noteq> None \<and> strideR \<le> 0) \<or> (histG \<noteq> None \<and> strideG \<le> 0)
                \<or> (histB \<noteq> None \<and> strideB \<le> 0) \<or> (histL \<noteq> None \<and> strideL \<le> 0)")
       (simp_all only: if_True if_False simp_thms)
qed

lemma active_mem: "(b, t) \<in> set (active ys) \<longleftrightarrow> (Some b, t) \<in> set ys"
  by (induction ys) (auto simp: active_def split: option.splits)

lemma cleared_apply:
  "cleared binsNumber bufs m q =
     (if \<exists>(a, s) \<in> set (active bufs). q \<in> slots a s binsNumber then 0 else m q)"
proof (induction bufs arbitrary: m)
  case Nil
  then show ?case by (simp add: cleared_def)
next
  case (Cons x bufs)
  obtain h s where x: "x = (h, s)" by (cases x)
  have "cleared binsNumber (x # bufs) m q
          = cleared binsNumber bufs (ClearHistogram h s binsNumber m) q"
    by (simp add: cleared_def x)
  then show ?case
    using Cons.IH [of "ClearHistogram h s binsNumber m"]
    by (cases h) (auto simp: x ClearHistogram_eq)
qed

lemma active_split:
  assumes "j < length xs" and "xs ! j = (Some a, s)"
  shows "active xs = active (take j xs) @ [(a, s)] @ active (drop (Suc j) xs)"
proof -
  have "active xs = active (take j xs @ xs ! j # drop (Suc j) xs)"
    by (rule arg_cong [OF id_take_nth_drop [OF assms(1)]])
  also have "\<dots> = active (take j xs) @ [(a, s)] @ active (drop (Suc j) xs)"
    by (simp add: assms(2) active_append)
  finally show ?thesis .
qed

lemma others_of_split:
  assumes "(b, t) \<in> set (active (take j xs) @ active (drop (Suc j) xs))"
  shows "\<exists>i<length xs. i \<noteq> j \<and> xs ! i = (Some b, t)"
proof -
  from assms consider "(Some b, t) \<in> set (take j xs)" | "(Some b, t) \<in> set (drop (Suc j) xs)"
    by (auto simp: active_mem)
  then show ?thesis
  proof cases
    case 1
    then obtain i where "i < length (take j xs)" "take j xs ! i = (Some b, t)"
      by (auto simp: in_set_conv_nth)
    then have "i < length xs \<and> i \<noteq> j \<and> xs ! i = (Some b, t)" by simp
    then show ?thesis by blast
  next
    case 2
    then obtain i where "i < length (drop (Suc j) xs)" "drop (Suc j) xs ! i = (Some b, t)"
      by (auto simp: in_set_conv_nth)
    then have "Suc j + i < length xs \<and> Suc j + i \<noteq> j \<and> xs ! (Suc j + i) = (Some b, t)"
      by simp
    then show ?thesis by blast
  qed
qed

lemma base_in_slots: "1 \<le> binsNumber \<Longrightarrow> b \<in> slots b t binsNumber"
proof -
  assume "1 \<le> binsNumber"
  then have "0 < unat binsNumber" by (simp add: word_le_nat_alt)
  then have "slot b t 0 \<in> slots b t binsNumber" unfolding slots_def by blast
  then show ?thesis by (simp add: slot_def)
qed

text \<open>The buffers the switch adds to are buffers of the request.\<close>

lemma act_members:
  assumes "length bufs = 4" and "(b, t) \<in> set (active (take n bufs))"
  shows "\<exists>i<4. i < n \<and> bufs ! i = (Some b, t)"
proof -
  from assms(2) have "(Some b, t) \<in> set (take n bufs)" by (simp add: active_mem)
  then obtain i where "i < length (take n bufs)" "take n bufs ! i = (Some b, t)"
    by (auto simp: in_set_conv_nth)
  then have "i < 4 \<and> i < n \<and> bufs ! i = (Some b, t)" using assms(1) by simp
  then show ?thesis by blast
qed

lemma supported_count_le: "supported_count dib \<le> 4"
  by (cases "GetImageType dib") (simp_all add: supported_count_def)

text \<open>The request passes the checks and has a buffer: the switch runs on the cleared
  store.\<close>

lemma MakeHistogram_outcome:
  fixes tools :: "('f, 'd) SimpleTools"
    and histR histG histB histL :: "nat option" and strideR strideG strideB strideL :: "32 word"
    and dib :: FIBITMAP and binsNumber :: "32 word" and outMinVal outMaxVal :: bool
    and m :: counters
  defines "bufs \<equiv> [(histR, strideR), (histG, strideG), (histB, strideB), (histL, strideL)]"
  assumes valid: "valid_request dib binsNumber bufs" and nn: "\<not> all_null bufs"
  shows "histogram_outcome tools dib binsNumber outMinVal outMaxVal
           (active (take (supported_count dib) bufs)) (cleared binsNumber bufs m)
           (FreeImage_MakeHistogram tools dib binsNumber outMinVal outMaxVal
              histR strideR histG strideG histB strideB histL strideL m)"
proof -
  from valid have bins: "1 \<le> binsNumber" by (simp add: valid_request_def)
  have "FreeImage_MakeHistogram tools dib binsNumber outMinVal outMaxVal
          histR strideR histG strideG histB strideB histL strideL m
        = MakeHistogram_switch tools dib binsNumber outMinVal outMaxVal
             histR strideR histG strideG histB strideB histL strideL
             (cleared binsNumber bufs m)"
    using valid nn unfolding bufs_def by (simp only: MakeHistogram_unfold not_True_eq_False if_False)
  then show ?thesis
    unfolding bufs_def by (simp only: switch_outcome [OF bins])
qed

lemma MakeHistogram_success_valid:
  assumes "success (FreeImage_MakeHistogram tools dib binsNumber outMinVal outMaxVal
              histR strideR histG strideG histB strideB histL strideL m)"
  shows "valid_request dib binsNumber
           [(histR, strideR), (histG, strideG), (histB, strideB), (histL, strideL)]"
proof (rule ccontr)
  assume "\<not> valid_request dib binsNumber
           [(histR, strideR), (histG, strideG), (histB, strideB), (histL, strideL)]"
  then have "\<not> success (FreeImage_MakeHistogram tools dib binsNumber outMinVal outMaxVal
              histR strideR histG strideG histB strideB histL strideL m)"
    by (simp add: MakeHistogram_unfold)
  with assms show False by contradiction
qed

lemma cleared_zero:
  assumes "(Some a, s) \<in> set bufs" and "k < unat binsNumber"
  shows "cleared binsNumber bufs m (slot a s k) = 0"
proof -
  have "slot a s k \<in> slots a s binsNumber" using assms(2) by (simp add: slots_def)
  moreover have "(a, s) \<in> set (active bufs)" using assms(1) by (simp add: active_mem)
  ultimately show ?thesis by (auto simp: cleared_apply)
qed

lemma degenerate_accepted: "degenerate tools dib \<Longrightarrow> accepted tools dib"
  by (cases "GetImageType dib")
     (auto simp: degenerate_def accepted_def discovered_def supported_count_def
           split: option.splits)

text \<open>What an outcome of the switch means for the buffer at position \<open>j\<close> of the request,
  entered with this buffer's bins zero.\<close>

lemma fill_bins:
  assumes len: "length bufs = 4" and jn: "j < n" and n4: "n \<le> 4"
    and buf: "bufs ! j = (Some a, s)"
    and apart: "\<And>i b t. i < 4 \<Longrightarrow> i \<noteq> j \<Longrightarrow> bufs ! i = (Some b, t) \<Longrightarrow>
                  slots b t binsNumber \<inter> slots a s binsNumber = {}"
    and bins: "1 \<le> binsNumber" and s0: "s \<noteq> 0"
    and zero: "\<And>k. k < unat binsNumber \<Longrightarrow> m0 (slot a s k) = 0"
  shows "degenerate_fill (active (take n bufs)) v m0 a = v
       \<and> (\<forall>k<unat binsNumber. k \<noteq> 0 \<longrightarrow> degenerate_fill (active (take n bufs)) v m0 (slot a s k) = 0)"
proof -
  have jl: "j < length (take n bufs)" and jb: "take n bufs ! j = (Some a, s)"
    using len n4 jn buf by simp_all
  from nth_mem [OF jl] have "(a, s) \<in> set (active (take n bufs))"
    by (simp only: jb active_mem)
  then have "a \<in> fst ` set (active (take n bufs))" by (rule rev_image_eqI) simp
  then have at0: "degenerate_fill (active (take n bufs)) v m0 a = v"
    by (simp add: degenerate_fill_apply)
  have rest: "degenerate_fill (active (take n bufs)) v m0 (slot a s k) = 0"
    if k: "k < unat binsNumber" "k \<noteq> 0" for k
  proof -
    have "slot a s k \<notin> fst ` set (active (take n bufs))"
    proof
      assume "slot a s k \<in> fst ` set (active (take n bufs))"
      then obtain t where "(slot a s k, t) \<in> set (active (take n bufs))" by auto
      from act_members [OF len this] obtain i where
        i: "i < 4" "bufs ! i = (Some (slot a s k), t)" by blast
      show False
      proof (cases "i = j")
        case True
        with i(2) buf have "slot a s k = a" by auto
        then have "k * unat s = 0" by (simp add: slot_def)
        with k(2) s0 show False by (simp add: unat_eq_zero)
      next
        case False
        from apart [OF i(1) False i(2)]
        have "slots (slot a s k) t binsNumber \<inter> slots a s binsNumber = {}" .
        moreover have "slot a s k \<in> slots (slot a s k) t binsNumber"
          by (rule base_in_slots [OF bins])
        moreover have "slot a s k \<in> slots a s binsNumber" using k(1) by (simp add: slots_def)
        ultimately show False by blast
      qed
    qed
    then show ?thesis by (simp add: degenerate_fill_apply zero [OF k(1)])
  qed
  from at0 rest show ?thesis by blast
qed

lemma outcome_supported_mass:
  assumes out: "histogram_outcome tools dib binsNumber outMinVal outMaxVal
                  (active (take n bufs)) m0 r"
    and ok: "success r"
    and len: "length bufs = 4" and jn: "j < n" and n4: "n \<le> 4"
    and buf: "bufs ! j = (Some a, s)"
    and fit: "\<And>i b t. i < 4 \<Longrightarrow> bufs ! i = (Some b, t) \<Longrightarrow> fits binsNumber t"
    and apart: "\<And>i b t. i < 4 \<Longrightarrow> i \<noteq> j \<Longrightarrow> bufs ! i = (Some b, t) \<Longrightarrow>
                  slots b t binsNumber \<inter> slots a s binsNumber = {}"
    and small: "pixel_count dib < 2 ^ 32"
    and bins: "1 \<le> binsNumber" and s0: "s \<noteq> 0"
    and zero: "\<And>k. k < unat binsNumber \<Longrightarrow> m0 (slot a s k) = 0"
  shows "bin_sum (store r) a s binsNumber = pixel_count dib"
proof (cases "degenerate tools dib")
  case False
  define act where "act = active (take n bufs)"
  have acc: "accepted tools dib" using out ok by (simp add: histogram_outcome_def)
  have j4: "j < 4" using jn n4 by simp
  have jl: "j < length (take n bufs)" and jb: "take n bufs ! j = (Some a, s)"
    using len n4 jn buf by simp_all
  define pre where "pre = active (take j (take n bufs))"
  define post where "post = active (drop (Suc j) (take n bufs))"
  have split: "act = pre @ [(a, s)] @ post"
    unfolding act_def pre_def post_def by (rule active_split [OF jl jb])
  have others: "fits binsNumber t \<and> slots b t binsNumber \<inter> slots a s binsNumber = {}"
    if "(b, t) \<in> set (pre @ post)" for b t
  proof -
    from that
    have "(b, t) \<in> set (active (take j (take n bufs)) @ active (drop (Suc j) (take n bufs)))"
      by (simp add: pre_def post_def)
    from others_of_split [OF this] obtain i where
      i: "i < length (take n bufs)" "i \<noteq> j" "take n bufs ! i = (Some b, t)" by blast
    then have "i < 4" "bufs ! i = (Some b, t)" using len by simp_all
    with i(2) fit apart show ?thesis by blast
  qed
  from False out acc have "traversal_of binsNumber act (pixel_count dib) m0 (store r)"
    by (simp add: histogram_outcome_def act_def)
  then obtain rows where rows: "index_rows binsNumber (length act) (pixel_count dib) rows"
    "store r = run_trace act rows m0" by (auto simp: traversal_of_def)
  have "bin_sum (run_trace (pre @ [(a, s)] @ post) rows m0) a s binsNumber = pixel_count dib"
  proof (rule trace_mass [where pre = pre and post = post])
    show "index_rows binsNumber (length (pre @ [(a, s)] @ post)) (pixel_count dib) rows"
      using rows(1) unfolding split .
    show "1 \<le> binsNumber" by (rule bins)
    show "s \<noteq> 0" by (rule s0)
    show "fits binsNumber s" by (rule fit [OF j4 buf])
    show "\<And>b t. (b, t) \<in> set (pre @ post) \<Longrightarrow>
            fits binsNumber t \<and> slots b t binsNumber \<inter> slots a s binsNumber = {}"
      by (rule others)
    show "\<And>k. k < unat binsNumber \<Longrightarrow> m0 (slot a s k) = 0" by (rule zero)
    show "pixel_count dib < 2 ^ 32" by (rule small)
  qed
  then show ?thesis unfolding rows(2) split .
next
  case True
  define v where "v = GetWidth dib * GetHeight dib"
  from True out have st: "store r = degenerate_fill (active (take n bufs)) v m0"
    by (simp add: histogram_outcome_def v_def)
  have um: "unat v = pixel_count dib"
    using small by (simp add: v_def pixel_count_def unat_mult_lem [THEN iffD1])
  have pos: "0 < unat binsNumber" using bins by (simp add: word_le_nat_alt)
  have "degenerate_fill (active (take n bufs)) v m0 a = v
       \<and> (\<forall>k<unat binsNumber. k \<noteq> 0 \<longrightarrow> degenerate_fill (active (take n bufs)) v m0 (slot a s k) = 0)"
  proof (rule fill_bins [OF len jn n4 buf _ bins s0])
    show "\<And>i b t. i < 4 \<Longrightarrow> i \<noteq> j \<Longrightarrow> bufs ! i = (Some b, t) \<Longrightarrow>
            slots b t binsNumber \<inter> slots a s binsNumber = {}" by (rule apart)
    show "\<And>k. k < unat binsNumber \<Longrightarrow> m0 (slot a s k) = 0" by (rule zero)
  qed
  then have at0: "store r (slot a s 0) = v"
    and rest: "\<And>k. k < unat binsNumber \<Longrightarrow> k \<noteq> 0 \<Longrightarrow> store r (slot a s k) = 0"
    by (simp_all add: st slot_def)
  have "bin_sum (store r) a s binsNumber
          = (\<Sum>k<unat binsNumber. if k = 0 then pixel_count dib else 0)"
    unfolding bin_sum_def
    by (rule sum.cong) (auto simp: at0 um rest)
  also have "\<dots> = (if 0 \<in> {..<unat binsNumber} then pixel_count dib else 0)"
    by (rule sum.delta) simp
  finally show ?thesis using pos by simp
qed

lemma outcome_oversupplied_zero:
  assumes out: "histogram_outcome tools dib binsNumber outMinVal outMaxVal
                  (active (take n bufs)) m0 r"
    and len: "length bufs = 4" and nj: "\<not> j < n"
    and fit: "\<And>i b t. i < 4 \<Longrightarrow> bufs ! i = (Some b, t) \<Longrightarrow> fits binsNumber t"
    and apart: "\<And>i b t. i < 4 \<Longrightarrow> i \<noteq> j \<Longrightarrow> bufs ! i = (Some b, t) \<Longrightarrow>
                  slots b t binsNumber \<inter> slots a s binsNumber = {}"
    and bins: "1 \<le> binsNumber"
    and zero: "\<And>k. k < unat binsNumber \<Longrightarrow> m0 (slot a s k) = 0"
    and k: "k < unat binsNumber"
  shows "store r (slot a s k) = 0"
proof -
  define act where "act = active (take n bufs)"
  have away: "fits binsNumber t \<and> slot a s k \<notin> slots b t binsNumber"
    if bt: "(b, t) \<in> set act" for b t
  proof -
    from act_members [OF len bt [unfolded act_def]] obtain i where
      i: "i < 4" "i < n" "bufs ! i = (Some b, t)" by blast
    with nj have "i \<noteq> j" by auto
    from apart [OF i(1) this i(3)] fit [OF i(1) i(3)] k
    show ?thesis by (auto simp: slots_def)
  qed
  consider (fill) "store r = degenerate_fill act (GetWidth dib * GetHeight dib) m0"
    | (trace) "traversal_of binsNumber act (pixel_count dib) m0 (store r)"
    | (none) "store r = m0"
    using out by (auto simp: histogram_outcome_def act_def split: if_splits)
  then show ?thesis
  proof cases
    case fill
    have "slot a s k \<notin> fst ` set act"
    proof
      assume "slot a s k \<in> fst ` set act"
      then obtain t where bt: "(slot a s k, t) \<in> set act" by auto
      from away [OF bt] base_in_slots [OF bins, of "slot a s k" t] show False by blast
    qed
    then show ?thesis by (simp add: fill degenerate_fill_apply zero [OF k])
  next
    case trace
    then obtain rows where rows: "index_rows binsNumber (length act) (pixel_count dib) rows"
      "store r = run_trace act rows m0" by (auto simp: traversal_of_def)
    have "run_trace act rows m0 (slot a s k) = m0 (slot a s k)"
      by (rule trace_untouched [OF rows(1) bins]) (rule away)
    then show ?thesis by (simp only: rows(2) zero [OF k])
  next
    case none
    then show ?thesis by (simp add: zero [OF k])
  qed
qed


lemma failed_store:
  assumes "histogram_outcome tools dib binsNumber outMinVal outMaxVal act m0 r"
    and "\<not> success r"
  shows "store r = m0"
  using assms degenerate_accepted [of tools dib]
  by (auto simp: histogram_outcome_def split: if_splits)

lemma supplied_stride:
  assumes "valid_request dib binsNumber bufs" and "(Some a, s) \<in> set bufs"
  shows "1 \<le> binsNumber \<and> s \<noteq> 0"
  using assms by (auto simp: valid_request_def list_all_iff)

lemma supplied_not_all_null: "(Some a, s) \<in> set bufs \<Longrightarrow> \<not> all_null bufs"
  by (auto simp: all_null_def list_all_iff)



section \<open>Histograms: 8-bit grayscale with 256 bins\<close>

lemma unat_byte: "unat (p :: 8 word) < 256"
proof -
  have "unat p < 2 ^ LENGTH(8)" by (rule unsigned_less)
  then show ?thesis by simp
qed

lemma unat_ucast_byte: "unat (ucast (p :: 8 word) :: 32 word) = unat p"
proof -
  have "unat p < 2 ^ 32" using unat_byte [of p] by simp
  then show ?thesis by (simp add: unsigned_ucast_eq take_bit_nat_eq_self)
qed

lemma ucast8_le_255: "(ucast (p :: 8 word) :: 32 word) \<le> 255"
  using unat_byte [of p] by (simp add: word_le_nat_alt unat_ucast_byte)

lemma CalculateBinIndexWithoutScale_256:
  "CalculateBinIndexWithoutScale 256 (p :: 8 word) = ucast p"
  using ucast8_le_255 [of p] by (simp add: CalculateBinIndexWithoutScale_def Let_def min_def)

lemma count_list_map_inj: "inj f \<Longrightarrow> count_list (map f xs) (f x) = count_list xs x"
  by (induction xs) (auto dest: injD)

lemma gray8_address:
  assumes "fits 256 s"
  shows "a + unat ((ucast (p :: 8 word) :: 32 word) * s) = slot a s (unat p)"
proof -
  have p: "unat p < 256" by (rule unat_byte)
  have up: "unat (ucast p :: 32 word) = unat p" by (rule unat_ucast_byte)
  from assms have lim: "255 * unat s < 2 ^ 32" by (simp add: fits_def)
  have le: "unat p * unat s \<le> 255 * unat s" using p by (simp add: mult_le_mono1)
  have "unat p * unat s < 2 ^ 32" by (rule le_less_trans [OF le lim])
  then have "unat (ucast p :: 32 word) * unat s < 2 ^ LENGTH(32)" by (simp add: up)
  then have "unat ((ucast p :: 32 word) * s) = unat (ucast p :: 32 word) * unat s"
    by (simp only: unat_mult_lem [THEN iffD1])
  then show ?thesis by (simp add: slot_def up)
qed

lemma gray8_switch:
  assumes "GetImageType dib = FIT_BITMAP" and "GetBPP dib = 8"
    and "GetColorType2 dib = FIC_MINISBLACK"
  shows "MakeHistogram_switch tools dib 256 outMinVal outMaxVal
           (Some a) s histG strideG histB strideB histL strideL m0 =
         \<lparr> success = True,
           outMin = (if outMinVal then Some (Uint8 0) else None),
           outMax = (if outMaxVal then Some (Uint8 255) else None),
           store = fold inc (map (\<lambda>p. a + unat ((ucast p :: 32 word) * s))
                               (bitmap_pixels px_uint8 dib)) m0 \<rparr>"
proof -
  have one: "AddAll [HistogramBuilder SelectIdentity (Some a) s]
               (CalculateBinIndexWithoutScale 256) p
             = inc (a + unat ((ucast (p :: 8 word) :: 32 word) * s))" for p
    by (rule ext)
       (simp add: AddAll_def Add_def HistogramBuilder_def SelectIdentity_def inc_def Let_def
          CalculateBinIndexWithoutScale_256)
  have run: "HistogramUInt TYPE(32) px_uint8 dib 256
               [HistogramBuilder SelectIdentity (Some a) s] m0
             = (True, fold inc (map (\<lambda>p. a + unat ((ucast p :: 32 word) * s))
                                  (bitmap_pixels px_uint8 dib)) m0)"
    by (simp add: HistogramUInt_def BitmapForEach_pixels one fold_map comp_def)
  show ?thesis
    by (simp add: MakeHistogram_switch_def assms Let_def InvokeWithBuilders_filter
        Discardable_def HistogramBuilder_def [where hist = "Some a"] SetIntMinMax_def
        run [unfolded HistogramBuilder_def])
qed

text \<open>The store of an 8-bit grayscale request with 256 bins and the first buffer.\<close>

lemma gray8_store:
  assumes "GetImageType dib = FIT_BITMAP" and "GetBPP dib = 8"
    and "GetColorType2 dib = FIC_MINISBLACK"
    and "valid_request dib 256
           [(Some a, s), (histG, strideG), (histB, strideB), (histL, strideL)]"
  shows "FreeImage_MakeHistogram tools dib 256 outMinVal outMaxVal
           (Some a) s histG strideG histB strideB histL strideL m =
         \<lparr> success = True,
           outMin = (if outMinVal then Some (Uint8 0) else None),
           outMax = (if outMaxVal then Some (Uint8 255) else None),
           store = fold inc (map (\<lambda>p. a + unat ((ucast p :: 32 word) * s))
                               (bitmap_pixels px_uint8 dib))
                     (cleared 256 [(Some a, s), (histG, strideG), (histB, strideB),
                                   (histL, strideL)] m) \<rparr>"
proof -
  have nn: "\<not> all_null [(Some a, s), (histG, strideG), (histB, strideB), (histL, strideL)]"
    by (rule supplied_not_all_null [of a s]) simp
  show ?thesis
    using assms(4) nn
    by (simp only: MakeHistogram_unfold gray8_switch [OF assms(1-3)] not_True_eq_False if_False)
qed

lemma AddAll_no_builders: "fold (AddAll [] idx) ps m = m"
  by (induction ps) (simp_all add: AddAll_def)

lemma count_list_replicate: "count_list (replicate n x) y = (if x = y then n else 0)"
  by (induction n) auto

lemma bin_sum_3:
  "bin_sum m a s 3 = unat (m (slot a s 0)) + unat (m (slot a s 1)) + unat (m (slot a s 2))"
proof -
  have "{..<unat (3 :: 32 word)} = {0, 1, 2}" by auto
  then show ?thesis by (simp add: bin_sum_def)
qed

lemma bin_sum_4:
  "bin_sum m a s 4 = unat (m (slot a s 0)) + unat (m (slot a s 1)) + unat (m (slot a s 2))
                     + unat (m (slot a s 3))"
proof -
  have "{..<unat (4 :: 32 word)} = {0, 1, 2, 3}" by auto
  then show ?thesis by (simp add: bin_sum_def)
qed

section \<open>Histograms of the samples\<close>

lemma sample_strides_fit:
  "i < 4 \<Longrightarrow> [(h0, 1), (h1, 1), (h2, 1), (h3, 1)] ! i = (Some b, t) \<Longrightarrow> fits 4 t"
  by (auto simp: nth_Cons' fits_def split: if_splits)

lemma sample_slots: "slots 8 1 4 \<inter> slots 0 1 4 = {}"
  by (auto simp: slots_def slot_def)

lemma sample_gray_accepted:
  "valid_request sample_gray 4 [(Some 0, 1), (Some 8, 1), (None, 1), (None, 1)]"
  "\<not> all_null [(Some 0, 1), (Some 8, 1), (None, 1), (None, 1)]"
  "accepted sample_tools sample_gray"
  "supported_count sample_gray = 1"
  "pixel_count sample_gray = 6"
  by (simp_all add: valid_request_def all_null_def accepted_def supported_count_def
      discovered_def is_float_def pixel_count_def sample_gray_def)

lemma sample_gray_two_buffers:
  "success (FreeImage_MakeHistogram sample_tools sample_gray 4 False False
              (Some 0) 1 (Some 8) 1 None 1 None 1 stale)"
  using MakeHistogram_outcome [OF sample_gray_accepted(1,2), of sample_tools False False stale]
  by (simp add: histogram_outcome_def sample_gray_accepted)

lemma sample_gray_oversupplied:
  "success (FreeImage_MakeHistogram sample_tools sample_gray 4 False False
              (Some 0) 1 (Some 8) 1 None 1 None 1 stale)
   \<and> bin_sum (store (FreeImage_MakeHistogram sample_tools sample_gray 4 False False
                       (Some 0) 1 (Some 8) 1 None 1 None 1 stale)) 8 1 4 = 0
   \<and> pixel_count sample_gray = 6"
proof -
  let ?bufs = "[(Some 0, 1), (Some 8, 1), (None, 1), (None, 1)] :: (nat option \<times> 32 word) list"
  let ?r = "FreeImage_MakeHistogram sample_tools sample_gray 4 False False
              (Some 0) 1 (Some 8) 1 None 1 None 1 stale"
  have out: "histogram_outcome sample_tools sample_gray 4 False False
               (active (take 1 ?bufs)) (cleared 4 ?bufs stale) ?r"
    using MakeHistogram_outcome [OF sample_gray_accepted(1,2), of sample_tools False False stale]
    by (simp only: sample_gray_accepted(4))
  have z: "store ?r (slot 8 1 k) = 0" if k: "k < unat (4 :: 32 word)" for k
  proof (rule outcome_oversupplied_zero [OF out, where j = 1, OF _ _ _ _ _ _ k])
    show "length ?bufs = 4" by simp
    show "\<not> (1 :: nat) < 1" by simp
    show "\<And>i b t. i < 4 \<Longrightarrow> ?bufs ! i = (Some b, t) \<Longrightarrow> fits 4 t"
      by (rule sample_strides_fit)
    show "\<And>i b t. i < 4 \<Longrightarrow> i \<noteq> 1 \<Longrightarrow> ?bufs ! i = (Some b, t) \<Longrightarrow>
            slots b t 4 \<inter> slots 8 1 4 = {}"
      using sample_slots by (auto simp: nth_Cons' split: if_splits)
    show "(1 :: 32 word) \<le> 4" by simp
    show "\<And>k. k < unat (4 :: 32 word) \<Longrightarrow> cleared 4 ?bufs stale (slot 8 1 k) = 0"
      by (rule cleared_zero) simp
  qed
  have "bin_sum (store ?r) 8 1 4 = 0"
    unfolding bin_sum_def by (rule sum.neutral) (simp add: z)
  with sample_gray_two_buffers sample_gray_accepted(5) show ?thesis by simp
qed

lemma sample_gray_256:
  "GetImageType sample_gray = FIT_BITMAP" "GetBPP sample_gray = 8"
  "GetColorType2 sample_gray = FIC_MINISBLACK"
  "valid_request sample_gray 256 [(Some 0, 2), (None, 1), (None, 1), (None, 1)]"
  "fits 256 2"
  "pixel_count sample_gray < 2 ^ 32"
  by (simp_all add: valid_request_def fits_def pixel_count_def sample_gray_def)

lemma sample_gray_pixels: "bitmap_pixels px_uint8 sample_gray = [5, 7, 5, 7, 7, 0]"
  by (simp add: bitmap_pixels_def px_uint8_def sample_gray_def upt_conv_Cons)

lemma sample_gray_rejected:
  "\<not> success (FreeImage_MakeHistogram sample_tools sample_gray 256 False False
                (Some 0) 0 None 1 None 1 None 1 stale)
   \<and> \<not> success (FreeImage_MakeHistogram sample_tools (sample_gray\<lparr> HasPixels := False \<rparr>) 256
                  False False (Some 0) 1 None 1 None 1 None 1 stale)"
  by (simp add: MakeHistogram_unfold valid_request_def)

lemma sample_white_fails:
  "\<not> success (FreeImage_MakeHistogram sample_tools sample_white 256 False False
                (Some 0) 1 None 1 None 1 None 1 stale)
   \<and> store (FreeImage_MakeHistogram sample_tools sample_white 256 False False
               (Some 0) 1 None 1 None 1 None 1 stale) 7 = 0
   \<and> count_list (bitmap_pixels px_uint8 sample_white) 7 = 3"
proof -
  let ?bufs = "[(Some 0, 1), (None, 1), (None, 1), (None, 1)] :: (nat option \<times> 32 word) list"
  let ?r = "FreeImage_MakeHistogram sample_tools sample_white 256 False False
              (Some 0) 1 None 1 None 1 None 1 stale"
  have v: "valid_request sample_white 256 ?bufs" "\<not> all_null ?bufs"
    by (simp_all add: valid_request_def all_null_def sample_white_def sample_gray_def)
  have sw: "MakeHistogram_switch sample_tools sample_white 256 False False
              (Some 0) 1 None 1 None 1 None 1 m
            = \<lparr> success = False, outMin = None, outMax = None, store = m \<rparr>" for m
    by (simp add: MakeHistogram_switch_def sample_white_def sample_gray_def SetIntMinMax_def)
  have r: "?r = \<lparr> success = False, outMin = None, outMax = None,
                  store = cleared 256 ?bufs stale \<rparr>"
    using v by (simp only: MakeHistogram_unfold sw not_True_eq_False if_False)
  have s: "slot 0 1 7 = 7" by (simp add: slot_def)
  have "cleared 256 ?bufs stale (slot 0 1 7) = 0" by (rule cleared_zero) simp_all
  then have z: "store ?r 7 = 0" unfolding r s by simp
  have c: "count_list (bitmap_pixels px_uint8 sample_white) 7 = 3"
    by (simp add: bitmap_pixels_def px_uint8_def sample_white_def sample_gray_def upt_conv_Cons)
  from r z c show ?thesis by simp
qed

lemma sample_gray_fourth_buffer:
  "success (FreeImage_MakeHistogram sample_tools sample_gray 256 False False
              None 1 None 1 None 1 (Some 0) 1 stale)
   \<and> store (FreeImage_MakeHistogram sample_tools sample_gray 256 False False
               None 1 None 1 None 1 (Some 0) 1 stale) 7 = 0"
proof -
  let ?bufs = "[(None, 1), (None, 1), (None, 1), (Some 0, 1)] :: (nat option \<times> 32 word) list"
  let ?r = "FreeImage_MakeHistogram sample_tools sample_gray 256 False False
              None 1 None 1 None 1 (Some 0) 1 stale"
  have v: "valid_request sample_gray 256 ?bufs" "\<not> all_null ?bufs"
    by (simp_all add: valid_request_def all_null_def sample_gray_def)
  have sw: "MakeHistogram_switch sample_tools sample_gray 256 False False
              None 1 None 1 None 1 (Some 0) 1 m
            = \<lparr> success = True, outMin = None, outMax = None, store = m \<rparr>" for m
    by (simp add: MakeHistogram_switch_def sample_gray_def SetIntMinMax_def
        InvokeWithBuilders_filter Discardable_def HistogramBuilder_def HistogramUInt_def
        BitmapForEach_pixels AddAll_no_builders)
  have r: "?r = \<lparr> success = True, outMin = None, outMax = None,
                  store = cleared 256 ?bufs stale \<rparr>"
    using v by (simp only: MakeHistogram_unfold sw not_True_eq_False if_False)
  have s: "slot 0 1 7 = 7" by (simp add: slot_def)
  have "cleared 256 ?bufs stale (slot 0 1 7) = 0" by (rule cleared_zero) simp_all
  then have z: "store ?r 7 = 0" unfolding r s by simp
  from r z show ?thesis by simp
qed

lemma sample_gray_wrapped_stride:
  "success (FreeImage_MakeHistogram sample_tools sample_gray 256 False False
              (Some 0) 0x80000001 None 1 None 1 None 1 stale)
   \<and> store (FreeImage_MakeHistogram sample_tools sample_gray 256 False False
               (Some 0) 0x80000001 None 1 None 1 None 1 stale) (7 * 0x80000001) = 0
   \<and> count_list (bitmap_pixels px_uint8 sample_gray) 7 = 3"
proof -
  let ?bufs = "[(Some 0, 0x80000001), (None, 1), (None, 1), (None, 1)]
                 :: (nat option \<times> 32 word) list"
  let ?r = "FreeImage_MakeHistogram sample_tools sample_gray 256 False False
              (Some 0) 0x80000001 None 1 None 1 None 1 stale"
  have v: "valid_request sample_gray 256 ?bufs"
    by (simp add: valid_request_def sample_gray_def)
  have r: "?r = \<lparr> success = True, outMin = None, outMax = None,
             store = fold inc (map (\<lambda>p. 0 + unat ((ucast p :: 32 word) * 0x80000001))
                                 (bitmap_pixels px_uint8 sample_gray))
                       (cleared 256 ?bufs stale) \<rparr>"
    using gray8_store [OF sample_gray_256(1-3) v, of sample_tools False False stale] by simp
  have s: "slot 0 0x80000001 7 = 7 * 0x80000001" by (simp add: slot_def)
  have "cleared 256 ?bufs stale (slot 0 0x80000001 7) = 0" by (rule cleared_zero) simp_all
  then have z: "cleared 256 ?bufs stale 15032385543 = 0" unfolding s by simp
  have "store ?r (7 * 0x80000001) = 0"
    unfolding r by (simp add: inc_def z sample_gray_pixels)
  with r sample_gray_pixels show ?thesis by simp
qed

lemma sample_huge_facts:
  "GetImageType sample_huge = FIT_BITMAP" "GetBPP sample_huge = 8"
  "GetColorType2 sample_huge = FIC_MINISBLACK"
  "valid_request sample_huge 256 [(Some 0, 1), (None, 1), (None, 1), (None, 1)]"
  "pixel_count sample_huge = 4294967296"
  by (simp_all add: valid_request_def pixel_count_def sample_huge_def)

lemma sample_huge_pixels: "bitmap_pixels px_uint8 sample_huge = replicate 4294967296 0"
proof (rule replicate_eqI)
  show "length (bitmap_pixels px_uint8 sample_huge) = 4294967296"
    by (simp only: length_bitmap_pixels sample_huge_facts)
  fix p assume "p \<in> set (bitmap_pixels px_uint8 sample_huge)"
  then show "p = 0"
    by (auto simp: bitmap_pixels_def px_uint8_def sample_huge_def)
qed

lemma sample_huge_store:
  "store (FreeImage_MakeHistogram sample_tools sample_huge 256 False False
            (Some 0) 1 None 1 None 1 None 1 stale) (slot 0 1 k)
     = cleared 256 [(Some 0, 1), (None, 1), (None, 1), (None, 1)] stale (slot 0 1 k)"
  and sample_huge_success:
  "success (FreeImage_MakeHistogram sample_tools sample_huge 256 False False
            (Some 0) 1 None 1 None 1 None 1 stale)"
proof -
  let ?bufs = "[(Some 0, 1), (None, 1), (None, 1), (None, 1)] :: (nat option \<times> 32 word) list"
  let ?r = "FreeImage_MakeHistogram sample_tools sample_huge 256 False False
              (Some 0) 1 None 1 None 1 None 1 stale"
  have a: "(\<lambda>p :: 8 word. 0 + unat ((ucast p :: 32 word) * 1)) 0 = 0" by simp
  have r: "?r = \<lparr> success = True, outMin = None, outMax = None,
             store = fold inc (replicate 4294967296 0) (cleared 256 ?bufs stale) \<rparr>"
    using gray8_store [OF sample_huge_facts(1-4), of sample_tools False False stale]
    by (simp only: sample_huge_pixels map_replicate a if_False)
  have st: "store ?r = fold inc (replicate 4294967296 0) (cleared 256 ?bufs stale)"
    unfolding r by (simp del: fold_replicate)
  show "store ?r (slot 0 1 k) = cleared 256 ?bufs stale (slot 0 1 k)"
    unfolding st fold_inc_count count_list_replicate by simp
  show "success ?r" unfolding r by simp
qed

lemma sample_huge_wraps:
  "success (FreeImage_MakeHistogram sample_tools sample_huge 256 False False
              (Some 0) 1 None 1 None 1 None 1 stale)
   \<and> store (FreeImage_MakeHistogram sample_tools sample_huge 256 False False
               (Some 0) 1 None 1 None 1 None 1 stale) 0 = 0
   \<and> count_list (bitmap_pixels px_uint8 sample_huge) 0 = 4294967296"
proof -
  have s: "slot 0 1 0 = 0" by (simp add: slot_def)
  have "cleared 256 [(Some 0, 1), (None, 1), (None, 1), (None, 1)] stale (slot 0 1 0) = 0"
    by (rule cleared_zero) simp_all
  with sample_huge_store [of 0] sample_huge_success show ?thesis
    unfolding s by (simp add: sample_huge_pixels count_list_replicate)
qed

lemma sample_huge_mass:
  "bin_sum (store (FreeImage_MakeHistogram sample_tools sample_huge 256 False False
                     (Some 0) 1 None 1 None 1 None 1 stale)) 0 1 256 = 0
   \<and> pixel_count sample_huge = 4294967296"
proof -
  have "cleared 256 [(Some 0, 1), (None, 1), (None, 1), (None, 1)] stale (slot 0 1 k) = 0"
    if "k < unat (256 :: 32 word)" for k
    using _ that by (rule cleared_zero) simp
  then have "bin_sum (store (FreeImage_MakeHistogram sample_tools sample_huge 256 False False
                     (Some 0) 1 None 1 None 1 None 1 stale)) 0 1 256 = 0"
    unfolding bin_sum_def by (simp only: sample_huge_store) simp
  with sample_huge_facts(5) show ?thesis by simp
qed

lemma sample_rgb24_shared_buffer:
  "success (FreeImage_MakeHistogram sample_tools sample_rgb24 4 False False
              (Some 0) 1 (Some 0) 1 None 1 None 1 stale)
   \<and> bin_sum (store (FreeImage_MakeHistogram sample_tools sample_rgb24 4 False False
                       (Some 0) 1 (Some 0) 1 None 1 None 1 stale)) 0 1 4 = 4
   \<and> pixel_count sample_rgb24 = 2"
proof -
  let ?r = "FreeImage_MakeHistogram sample_tools sample_rgb24 4 False False
              (Some 0) 1 (Some 0) 1 None 1 None 1 stale"
  have r: "?r = \<lparr> success = True, outMin = None, outMax = None,
                 store = (\<lambda>p. if p < 4 then 0 else 9)(0 := 4) \<rparr>"
    by (simp add: MakeHistogram_unfold valid_request_def all_null_def MakeHistogram_switch_def
        sample_rgb24_def Let_def InvokeWithBuilders_filter Discardable_def HistogramBuilder_def
        HistogramUInt_def BitmapForEach_pixels bitmap_pixels_def upt_conv_Cons sample_tools_def
        AddAll_def Add_def SelectRed_def SelectGreen_def CalculateBinIndexWithScale_def
        SetIntMinMax_def cleared_def ClearHistogram_def stale_def fun_eq_iff)
  have "bin_sum (store ?r) 0 1 4 = 4"
    unfolding r by (simp add: bin_sum_4 slot_def)
  moreover have "pixel_count sample_rgb24 = 2" by (simp add: pixel_count_def sample_rgb24_def)
  ultimately show ?thesis by (simp add: r)
qed

lemma sample_bright_wrapped_stride:
  "success (FreeImage_MakeHistogram sample_tools sample_bright 3 False False
              (Some 0) 0x80000001 None 1 None 1 None 1 stale)
   \<and> bin_sum (store (FreeImage_MakeHistogram sample_tools sample_bright 3 False False
                       (Some 0) 0x80000001 None 1 None 1 None 1 stale)) 0 0x80000001 3 = 0
   \<and> pixel_count sample_bright = 1"
proof -
  let ?r = "FreeImage_MakeHistogram sample_tools sample_bright 3 False False
              (Some 0) 0x80000001 None 1 None 1 None 1 stale"
  have r: "?r = \<lparr> success = True, outMin = None, outMax = None,
                 store = stale(0 := 0, 0x80000001 := 0, 0x100000002 := 0, 2 := 10) \<rparr>"
    by (simp add: MakeHistogram_unfold valid_request_def all_null_def MakeHistogram_switch_def
        sample_bright_def Let_def InvokeWithBuilders_filter Discardable_def HistogramBuilder_def
        HistogramUInt_def BitmapForEach_pixels bitmap_pixels_def upt_conv_Cons px_uint8_def
        AddAll_def Add_def SelectIdentity_def CalculateBinIndexWithScale_def
        SetIntMinMax_def cleared_def ClearHistogram_def stale_def fun_eq_iff)
  have "bin_sum (store ?r) 0 0x80000001 3 = 0"
    unfolding r by (simp add: bin_sum_3 slot_def)
  moreover have "pixel_count sample_bright = 1" by (simp add: pixel_count_def sample_bright_def)
  ultimately show ?thesis by (simp add: r)
qed

lemma sample_bilevel_facts:
  "\<not> HasPixels (sample_gray\<lparr> HasPixels := False \<rparr>)"
  "valid_request sample_gray 4 [(None, 1), (None, 1), (None, 1), (None, 1)]"
  "all_null [(None, 1), (None, 1), (None, 1), (None, 1)]"
  "valid_request sample_bilevel 4 [(Some 0, 2), (None, 1), (None, 1), (None, 1)]"
  "\<not> all_null [(Some 0, 2), (None, 1), (None, 1), (None, 1)]"
  by (simp_all add: valid_request_def all_null_def sample_gray_def sample_bilevel_def)

lemma sample_bilevel_switch:
  "\<not> success (MakeHistogram_switch sample_tools sample_bilevel 4 False False
                (Some 0) 2 None 1 None 1 None 1 m)"
  by (simp add: MakeHistogram_switch_def sample_bilevel_def SetIntMinMax_def)

lemma sample_cleared:
  "cleared 4 [(Some 0, 2), (None, 1), (None, 1), (None, 1)] stale 1 = 9"
  by (simp add: cleared_def ClearHistogram_def stale_def upt_conv_Cons)













section \<open>Histogram mass\<close>

text \<open>
  \<^bold>\<open>Claim C1.\<close>  As stated, every non-null buffer of an accepted request ends with its
  bins summing to the pixel count.  Four accepted requests end otherwise.  A buffer of a
  channel that the encoding does not have stays zeroed, as the claim says too: for the 3
  by 2 grayscale sample with a first and a second buffer, the four bins of the second sum
  to 0, with 6 pixels.  Buffers that overlap receive each other's increments: for the 24-bit
  sample with the red and the green buffer at one address, the four bins sum to 4, with 2
  pixels.  The index is multiplied by the stride in 32 bits: with three bins and the stride
  \<open>0x80000001\<close>, a pixel of value 255 has index 2, the product wraps to 2, and the increment
  falls outside the buffer, whose bins sum to 0, with 1 pixel.  The counters have 32 bits:
  for a 65536 by 65536 bitmap of zeros, bin 0 returns to 0 and the bins sum to 0, with
  \<open>2^32\<close> pixels.
\<close>

theorem histogram_mass_counterexample:
  "success (FreeImage_MakeHistogram sample_tools sample_gray 4 False False
              (Some 0) 1 (Some 8) 1 None 1 None 1 stale)
   \<and> bin_sum (store (FreeImage_MakeHistogram sample_tools sample_gray 4 False False
                       (Some 0) 1 (Some 8) 1 None 1 None 1 stale)) 8 1 4 = 0
   \<and> pixel_count sample_gray = 6
   \<and> success (FreeImage_MakeHistogram sample_tools sample_rgb24 4 False False
                (Some 0) 1 (Some 0) 1 None 1 None 1 stale)
   \<and> bin_sum (store (FreeImage_MakeHistogram sample_tools sample_rgb24 4 False False
                       (Some 0) 1 (Some 0) 1 None 1 None 1 stale)) 0 1 4 = 4
   \<and> pixel_count sample_rgb24 = 2
   \<and> success (FreeImage_MakeHistogram sample_tools sample_bright 3 False False
                (Some 0) 0x80000001 None 1 None 1 None 1 stale)
   \<and> bin_sum (store (FreeImage_MakeHistogram sample_tools sample_bright 3 False False
                       (Some 0) 0x80000001 None 1 None 1 None 1 stale)) 0 0x80000001 3 = 0
   \<and> pixel_count sample_bright = 1
   \<and> success (FreeImage_MakeHistogram sample_tools sample_huge 256 False False
                (Some 0) 1 None 1 None 1 None 1 stale)
   \<and> bin_sum (store (FreeImage_MakeHistogram sample_tools sample_huge 256 False False
                       (Some 0) 1 None 1 None 1 None 1 stale)) 0 1 256 = 0
   \<and> pixel_count sample_huge = 4294967296"
  using sample_gray_oversupplied sample_rgb24_shared_buffer
    sample_bright_wrapped_stride sample_huge_success sample_huge_mass
  by blast

text \<open>
  \<^bold>\<open>Claim C1, amended.\<close>  For every bitmap of fewer than \<open>2^32\<close> pixels and every request
  that \<^verbatim>\<open>FreeImage_MakeHistogram\<close> accepts (it returns \<open>TRUE\<close>) and in which every supplied
  stride has \<open>(binsNumber - 1) * stride < 2^32\<close>: every non-null buffer that no other supplied
  buffer overlaps ends, when its channel is one that the bitmap's encoding supports (its
  position \<open>j\<close> among red, green, blue and brightness is below \<open>supported_count\<close>), with its
  \<open>binsNumber\<close> strided entries summing to the pixel count, width times height; and when
  its channel is one that the encoding does not support, with all these entries zero.
\<close>

theorem histogram_mass_of_supported_buffers:
  fixes tools :: "('f, 'd) SimpleTools"
    and histR histG histB histL :: "nat option" and strideR strideG strideB strideL :: "32 word"
    and dib :: FIBITMAP and binsNumber :: "32 word" and outMinVal outMaxVal :: bool
    and m :: counters
  defines "bufs \<equiv> [(histR, strideR), (histG, strideG), (histB, strideB), (histL, strideL)]"
  defines "r \<equiv> FreeImage_MakeHistogram tools dib binsNumber outMinVal outMaxVal
                  histR strideR histG strideG histB strideB histL strideL m"
  assumes ok: "success r"
    and j: "j < 4" and buf: "bufs ! j = (Some a, s)"
    and fit: "\<And>i b t. i < 4 \<Longrightarrow> bufs ! i = (Some b, t) \<Longrightarrow> fits binsNumber t"
    and apart: "\<And>i b t. i < 4 \<Longrightarrow> i \<noteq> j \<Longrightarrow> bufs ! i = (Some b, t) \<Longrightarrow>
                  slots b t binsNumber \<inter> slots a s binsNumber = {}"
    and small: "pixel_count dib < 2 ^ 32"
  shows "(j < supported_count dib \<longrightarrow> bin_sum (store r) a s binsNumber = pixel_count dib)
       \<and> (\<not> j < supported_count dib \<longrightarrow> (\<forall>k<unat binsNumber. store r (slot a s k) = 0))"
proof -
  have len: "length bufs = 4" by (simp add: bufs_def)
  have mem: "(Some a, s) \<in> set bufs" using j buf len by (metis nth_mem)
  have valid: "valid_request dib binsNumber bufs"
    using ok unfolding r_def bufs_def by (rule MakeHistogram_success_valid)
  from supplied_stride [OF valid mem] have bins: "1 \<le> binsNumber" and s0: "s \<noteq> 0" by simp_all
  have out: "histogram_outcome tools dib binsNumber outMinVal outMaxVal
               (active (take (supported_count dib) bufs)) (cleared binsNumber bufs m) r"
    unfolding r_def bufs_def
    by (rule MakeHistogram_outcome [OF valid [unfolded bufs_def]
          supplied_not_all_null [OF mem, unfolded bufs_def]])
  have zero: "\<And>k. k < unat binsNumber \<Longrightarrow> cleared binsNumber bufs m (slot a s k) = 0"
    by (rule cleared_zero [OF mem])
  show ?thesis
  proof (intro conjI impI allI)
    assume jn: "j < supported_count dib"
    show "bin_sum (store r) a s binsNumber = pixel_count dib"
    proof (rule outcome_supported_mass [OF out ok len jn supported_count_le buf _ _ small bins s0])
      show "\<And>i b t. i < 4 \<Longrightarrow> bufs ! i = (Some b, t) \<Longrightarrow> fits binsNumber t" by (rule fit)
      show "\<And>i b t. i < 4 \<Longrightarrow> i \<noteq> j \<Longrightarrow> bufs ! i = (Some b, t) \<Longrightarrow>
              slots b t binsNumber \<inter> slots a s binsNumber = {}" by (rule apart)
      show "\<And>k. k < unat binsNumber \<Longrightarrow> cleared binsNumber bufs m (slot a s k) = 0"
        by (rule zero)
    qed
  next
    fix k assume nj: "\<not> j < supported_count dib" and k: "k < unat binsNumber"
    show "store r (slot a s k) = 0"
    proof (rule outcome_oversupplied_zero [OF out len nj _ _ bins _ k])
      show "\<And>i b t. i < 4 \<Longrightarrow> bufs ! i = (Some b, t) \<Longrightarrow> fits binsNumber t" by (rule fit)
      show "\<And>i b t. i < 4 \<Longrightarrow> i \<noteq> j \<Longrightarrow> bufs ! i = (Some b, t) \<Longrightarrow>
              slots b t binsNumber \<inter> slots a s binsNumber = {}" by (rule apart)
      show "\<And>k. k < unat binsNumber \<Longrightarrow> cleared binsNumber bufs m (slot a s k) = 0"
        by (rule zero)
    qed
  qed
qed

theorem histogram_mass_of_supported_buffers_witness:
  "bin_sum (store (FreeImage_MakeHistogram sample_tools sample_gray 4 False False
                     (Some 0) 1 (Some 8) 1 None 1 None 1 stale)) 0 1 4 = 6
   \<and> store (FreeImage_MakeHistogram sample_tools sample_gray 4 False False
               (Some 0) 1 (Some 8) 1 None 1 None 1 stale) 8 = 0"
proof -
  let ?bufs = "[(Some 0, 1), (Some 8, 1), (None, 1), (None, 1)] :: (nat option \<times> 32 word) list"
  let ?r = "FreeImage_MakeHistogram sample_tools sample_gray 4 False False
              (Some 0) 1 (Some 8) 1 None 1 None 1 stale"
  have small: "pixel_count sample_gray < 2 ^ 32" by (simp add: sample_gray_accepted)
  have "(0 < supported_count sample_gray \<longrightarrow> bin_sum (store ?r) 0 1 4 = pixel_count sample_gray)
      \<and> (\<not> 0 < supported_count sample_gray \<longrightarrow> (\<forall>k<unat (4 :: 32 word). store ?r (slot 0 1 k) = 0))"
  proof (rule histogram_mass_of_supported_buffers [OF sample_gray_two_buffers _ _ _ _ small])
    show "(0 :: nat) < 4" by simp
    show "?bufs ! 0 = (Some 0, 1)" by simp
    show "\<And>i b t. i < 4 \<Longrightarrow> ?bufs ! i = (Some b, t) \<Longrightarrow> fits 4 t"
      by (rule sample_strides_fit)
    show "\<And>i b t. i < 4 \<Longrightarrow> i \<noteq> 0 \<Longrightarrow> ?bufs ! i = (Some b, t) \<Longrightarrow>
            slots b t 4 \<inter> slots 0 1 4 = {}"
      using sample_slots by (auto simp: nth_Cons' split: if_splits)
  qed
  then have a: "bin_sum (store ?r) 0 1 4 = 6" by (simp add: sample_gray_accepted)
  have "(1 < supported_count sample_gray \<longrightarrow> bin_sum (store ?r) 8 1 4 = pixel_count sample_gray)
      \<and> (\<not> 1 < supported_count sample_gray \<longrightarrow> (\<forall>k<unat (4 :: 32 word). store ?r (slot 8 1 k) = 0))"
  proof (rule histogram_mass_of_supported_buffers [OF sample_gray_two_buffers _ _ _ _ small])
    show "(1 :: nat) < 4" by simp
    show "?bufs ! 1 = (Some 8, 1)" by simp
    show "\<And>i b t. i < 4 \<Longrightarrow> ?bufs ! i = (Some b, t) \<Longrightarrow> fits 4 t"
      by (rule sample_strides_fit)
    show "\<And>i b t. i < 4 \<Longrightarrow> i \<noteq> 1 \<Longrightarrow> ?bufs ! i = (Some b, t) \<Longrightarrow>
            slots b t 4 \<inter> slots 8 1 4 = {}"
      using sample_slots by (auto simp: nth_Cons' split: if_splits)
  qed
  then have "\<forall>k<unat (4 :: 32 word). store ?r (slot 8 1 k) = 0"
    by (simp add: sample_gray_accepted)
  then have "store ?r (slot 8 1 0) = 0" by simp
  then have b: "store ?r 8 = 0" by (simp add: slot_def)
  from a b show ?thesis by simp
qed

section \<open>Checks and clearing\<close>

text \<open>
  \<^bold>\<open>Claim C2.\<close>  \<^verbatim>\<open>FreeImage_MakeHistogram\<close> fails and leaves every counter as it is when the
  bitmap has no pixels, when \<open>binsNumber < 1\<close>, or when a supplied buffer has a stride that is
  not positive.  When these checks pass and all four pointers are null it succeeds and
  leaves every counter as it is.  Otherwise the switch over the encodings is entered with
  the cleared store, in which each of the \<open>binsNumber\<close> strided slots of every supplied
  buffer is 0; and when the call then fails (an encoding that no case takes, bounds that are
  not found) the store it leaves is this cleared store.
\<close>

theorem MakeHistogram_checks_then_clears:
  fixes tools :: "('f, 'd) SimpleTools"
    and histR histG histB histL :: "nat option" and strideR strideG strideB strideL :: "32 word"
    and dib :: FIBITMAP and binsNumber :: "32 word" and outMinVal outMaxVal :: bool
    and m :: counters
  defines "bufs \<equiv> [(histR, strideR), (histG, strideG), (histB, strideB), (histL, strideL)]"
  defines "r \<equiv> FreeImage_MakeHistogram tools dib binsNumber outMinVal outMaxVal
                  histR strideR histG strideG histB strideB histL strideL m"
  shows "(\<not> HasPixels dib \<or> binsNumber < 1 \<or> list_ex (\<lambda>(h, s). h \<noteq> None \<and> s \<le> 0) bufs
            \<longrightarrow> \<not> success r \<and> store r = m)
       \<and> (valid_request dib binsNumber bufs \<and> all_null bufs \<longrightarrow> success r \<and> store r = m)
       \<and> (valid_request dib binsNumber bufs \<and> \<not> all_null bufs \<longrightarrow>
            r = MakeHistogram_switch tools dib binsNumber outMinVal outMaxVal
                  histR strideR histG strideG histB strideB histL strideL
                  (cleared binsNumber bufs m)
            \<and> (\<forall>(a, s) \<in> set (active bufs). \<forall>k<unat binsNumber.
                  cleared binsNumber bufs m (slot a s k) = 0)
            \<and> (\<not> success r \<longrightarrow> store r = cleared binsNumber bufs m))"
proof (intro conjI impI)
  assume "\<not> HasPixels dib \<or> binsNumber < 1 \<or> list_ex (\<lambda>(h, s). h \<noteq> None \<and> s \<le> 0) bufs"
  then have nv: "\<not> valid_request dib binsNumber bufs"
    by (auto simp: valid_request_def list_all_iff list_ex_iff)
  then show "\<not> success r" "store r = m"
    unfolding r_def bufs_def by (simp_all add: MakeHistogram_unfold)
next
  assume "valid_request dib binsNumber bufs \<and> all_null bufs"
  then show "success r" "store r = m"
    unfolding r_def bufs_def by (simp_all add: MakeHistogram_unfold)
next
  assume a: "valid_request dib binsNumber bufs \<and> \<not> all_null bufs"
  then show sw: "r = MakeHistogram_switch tools dib binsNumber outMinVal outMaxVal
                  histR strideR histG strideG histB strideB histL strideL
                  (cleared binsNumber bufs m)"
    unfolding r_def bufs_def by (simp add: MakeHistogram_unfold)
  show "\<forall>(a, s) \<in> set (active bufs). \<forall>k<unat binsNumber.
          cleared binsNumber bufs m (slot a s k) = 0"
    by (auto simp: active_mem intro: cleared_zero)
  assume f: "\<not> success r"
  from a have bins: "1 \<le> binsNumber" by (simp add: valid_request_def)
  have "histogram_outcome tools dib binsNumber outMinVal outMaxVal
          (active (take (supported_count dib) bufs)) (cleared binsNumber bufs m) r"
    unfolding sw bufs_def by (rule switch_outcome [OF bins])
  from failed_store [OF this f] show "store r = cleared binsNumber bufs m" .
qed

theorem MakeHistogram_checks_then_clears_witness:
  "\<not> success (FreeImage_MakeHistogram sample_tools (sample_gray\<lparr> HasPixels := False \<rparr>) 4
                False False (Some 0) 1 None 1 None 1 None 1 stale)
   \<and> store (FreeImage_MakeHistogram sample_tools (sample_gray\<lparr> HasPixels := False \<rparr>) 4
               False False (Some 0) 1 None 1 None 1 None 1 stale) = stale
   \<and> success (FreeImage_MakeHistogram sample_tools sample_gray 4
                False False None 1 None 1 None 1 None 1 stale)
   \<and> store (FreeImage_MakeHistogram sample_tools sample_gray 4
               False False None 1 None 1 None 1 None 1 stale) = stale
   \<and> \<not> success (FreeImage_MakeHistogram sample_tools sample_bilevel 4
                  False False (Some 0) 2 None 1 None 1 None 1 stale)
   \<and> store (FreeImage_MakeHistogram sample_tools sample_bilevel 4
               False False (Some 0) 2 None 1 None 1 None 1 stale) 2 = 0
   \<and> store (FreeImage_MakeHistogram sample_tools sample_bilevel 4
               False False (Some 0) 2 None 1 None 1 None 1 stale) 1 = 9"
proof -
  let ?a = "FreeImage_MakeHistogram sample_tools (sample_gray\<lparr> HasPixels := False \<rparr>) 4
              False False (Some 0) 1 None 1 None 1 None 1 stale"
  let ?b = "FreeImage_MakeHistogram sample_tools sample_gray 4
              False False None 1 None 1 None 1 None 1 stale"
  let ?c = "FreeImage_MakeHistogram sample_tools sample_bilevel 4
              False False (Some 0) 2 None 1 None 1 None 1 stale"
  let ?bufs = "[(Some 0, 2), (None, 1), (None, 1), (None, 1)] :: (nat option \<times> 32 word) list"
  from MakeHistogram_checks_then_clears
         [of "sample_gray\<lparr> HasPixels := False \<rparr>" 4 "Some 0" 1 None 1 None 1 None 1
             sample_tools False False stale]
  have a: "\<not> success ?a \<and> store ?a = stale"
    using sample_bilevel_facts(1) by blast
  from MakeHistogram_checks_then_clears
         [of sample_gray 4 None 1 None 1 None 1 None 1 sample_tools False False stale]
  have b: "success ?b \<and> store ?b = stale"
    using sample_bilevel_facts(2,3) by blast
  from MakeHistogram_checks_then_clears
         [of sample_bilevel 4 "Some 0" 2 None 1 None 1 None 1 sample_tools False False stale]
  have c: "?c = MakeHistogram_switch sample_tools sample_bilevel 4 False False
                  (Some 0) 2 None 1 None 1 None 1 (cleared 4 ?bufs stale)"
    and z: "\<forall>(a, s) \<in> set (active ?bufs). \<forall>k<unat (4 :: 32 word).
              cleared 4 ?bufs stale (slot a s k) = 0"
    and f: "\<not> success ?c \<longrightarrow> store ?c = cleared 4 ?bufs stale"
    using sample_bilevel_facts(4,5) by blast+
  have nf: "\<not> success ?c" unfolding c by (rule sample_bilevel_switch)
  with f have st: "store ?c = cleared 4 ?bufs stale" by simp
  have s: "slot 0 2 1 = 2" by (simp add: slot_def)
  from z have "cleared 4 ?bufs stale (slot 0 2 1) = 0" by simp
  then have "store ?c 2 = 0" unfolding s st .
  with a b nf st sample_cleared show ?thesis by simp
qed

section \<open>Exact counts of an 8-bit grayscale bitmap\<close>

text \<open>
  \<^bold>\<open>Claim C3.\<close>  As stated, the claim is of every 8-bit grayscale bitmap and every
  request with 256 bins.  The case of the switch takes the colour type \<open>FIC_MINISBLACK\<close>
  only and adds to the first buffer only.  For the inverted-grey (\<open>FIC_MINISWHITE\<close>) sample
  the call fails and bin 7 stays 0, with three pixels of value 7.  With the fourth buffer
  alone the call succeeds and bin 7 of that buffer stays 0.  With the stride \<open>0x80000001\<close> the
  32-bit product of index and stride wraps and bin 7 stays 0.  For a 65536 by 65536 bitmap
  of zeros the 32-bit counter of bin 0 returns to 0, with \<open>2^32\<close> pixels of value 0.  A
  request with stride 0, or for a bitmap without pixels, fails the checks.
\<close>

theorem gray8_counterexample:
  "\<not> success (FreeImage_MakeHistogram sample_tools sample_white 256 False False
                (Some 0) 1 None 1 None 1 None 1 stale)
   \<and> store (FreeImage_MakeHistogram sample_tools sample_white 256 False False
               (Some 0) 1 None 1 None 1 None 1 stale) 7 = 0
   \<and> count_list (bitmap_pixels px_uint8 sample_white) 7 = 3
   \<and> success (FreeImage_MakeHistogram sample_tools sample_gray 256 False False
                None 1 None 1 None 1 (Some 0) 1 stale)
   \<and> store (FreeImage_MakeHistogram sample_tools sample_gray 256 False False
               None 1 None 1 None 1 (Some 0) 1 stale) 7 = 0
   \<and> success (FreeImage_MakeHistogram sample_tools sample_gray 256 False False
                (Some 0) 0x80000001 None 1 None 1 None 1 stale)
   \<and> store (FreeImage_MakeHistogram sample_tools sample_gray 256 False False
               (Some 0) 0x80000001 None 1 None 1 None 1 stale) (7 * 0x80000001) = 0
   \<and> count_list (bitmap_pixels px_uint8 sample_gray) 7 = 3
   \<and> success (FreeImage_MakeHistogram sample_tools sample_huge 256 False False
                (Some 0) 1 None 1 None 1 None 1 stale)
   \<and> store (FreeImage_MakeHistogram sample_tools sample_huge 256 False False
               (Some 0) 1 None 1 None 1 None 1 stale) 0 = 0
   \<and> count_list (bitmap_pixels px_uint8 sample_huge) 0 = 4294967296
   \<and> \<not> success (FreeImage_MakeHistogram sample_tools sample_gray 256 False False
                  (Some 0) 0 None 1 None 1 None 1 stale)
   \<and> \<not> success (FreeImage_MakeHistogram sample_tools (sample_gray\<lparr> HasPixels := False \<rparr>) 256
                  False False (Some 0) 1 None 1 None 1 None 1 stale)"
  using sample_white_fails sample_gray_fourth_buffer sample_gray_wrapped_stride
    sample_huge_wraps sample_gray_rejected
  by blast

text \<open>
  \<^bold>\<open>Claim C3, amended.\<close>  For every 8-bit grayscale bitmap of colour type
  \<open>FIC_MINISBLACK\<close> (a \<open>FIT_BITMAP\<close> of 8 bits per pixel) with fewer than \<open>2^32\<close> pixels, and
  every request with \<open>binsNumber = 256\<close> that passes the checks (the bitmap has pixels, no
  supplied stride is 0) and supplies the first buffer, with a stride such that
  \<open>255 * stride < 2^32\<close>: the call succeeds, the bin index of a value is the value itself,
  without scaling, and for every \<open>i\<close> in \<open>[0, 255]\<close> bin \<open>i\<close> of the first buffer ends as the
  number of pixels of value \<open>i\<close>.
\<close>

theorem gray8_256_bins_count_values:
  fixes tools :: "('f, 'd) SimpleTools"
    and histG histB histL :: "nat option" and strideR strideG strideB strideL :: "32 word"
    and dib :: FIBITMAP and outMinVal outMaxVal :: bool and m :: counters and a :: nat
  defines "r \<equiv> FreeImage_MakeHistogram tools dib 256 outMinVal outMaxVal
                  (Some a) strideR histG strideG histB strideB histL strideL m"
  assumes gray: "GetImageType dib = FIT_BITMAP" "GetBPP dib = 8"
                "GetColorType2 dib = FIC_MINISBLACK"
    and valid: "valid_request dib 256
                  [(Some a, strideR), (histG, strideG), (histB, strideB), (histL, strideL)]"
    and fit: "fits 256 strideR"
    and small: "pixel_count dib < 2 ^ 32"
  shows "success r
       \<and> (\<forall>i :: 8 word.
            CalculateBinIndexWithoutScale 256 i = ucast i
            \<and> unat (store r (slot a strideR (unat i))) = count_list (bitmap_pixels px_uint8 dib) i)"
proof -
  define bufs where "bufs = [(Some a, strideR), (histG, strideG), (histB, strideB), (histL, strideL)]"
  define ps where "ps = bitmap_pixels px_uint8 dib"
  have mem: "(Some a, strideR) \<in> set bufs" by (simp add: bufs_def)
  from supplied_stride [OF valid [folded bufs_def] mem] have s0: "strideR \<noteq> 0" by simp
  have sw: "r = MakeHistogram_switch tools dib 256 outMinVal outMaxVal
                  (Some a) strideR histG strideG histB strideB histL strideL (cleared 256 bufs m)"
    using valid supplied_not_all_null [OF mem] unfolding r_def bufs_def
    by (simp only: MakeHistogram_unfold not_True_eq_False if_False)
  have addr: "(\<lambda>p :: 8 word. a + unat ((ucast p :: 32 word) * strideR))
                = (\<lambda>p. slot a strideR (unat p))"
    by (rule ext) (rule gray8_address [OF fit])
  have st: "store r = fold inc (map (\<lambda>p. slot a strideR (unat p)) ps) (cleared 256 bufs m)"
    and ok: "success r"
    unfolding sw gray8_switch [OF gray] addr ps_def by simp_all
  have inj: "inj (\<lambda>p :: 8 word. slot a strideR (unat p))"
  proof (rule injI)
    fix p q :: "8 word"
    assume "slot a strideR (unat p) = slot a strideR (unat q)"
    then have "unat p * unat strideR = unat q * unat strideR" by (simp add: slot_def)
    moreover have "unat strideR \<noteq> 0" using s0 by (simp add: unat_eq_zero)
    ultimately have "unat p = unat q" by simp
    then show "p = q" by (rule unsigned_word_eqI)
  qed
  have count: "unat (store r (slot a strideR (unat i))) = count_list ps i" for i :: "8 word"
  proof -
    have "unat i < unat (256 :: 32 word)" using unat_byte [of i] by simp
    then have z: "cleared 256 bufs m (slot a strideR (unat i)) = 0"
      by (rule cleared_zero [OF mem])
    have "count_list ps i \<le> length ps" by (rule count_le_length)
    also have "\<dots> < 2 ^ 32" using small by (simp add: ps_def length_bitmap_pixels)
    finally have lt: "count_list ps i < 2 ^ 32" .
    have "store r (slot a strideR (unat i)) = of_nat (count_list ps i)"
      unfolding st fold_inc_count z by (simp add: count_list_map_inj [OF inj])
    then show ?thesis using lt by (simp add: unat_of_nat)
  qed
  from ok count show ?thesis by (simp add: CalculateBinIndexWithoutScale_256 ps_def)
qed

theorem gray8_256_bins_count_values_witness:
  "success (FreeImage_MakeHistogram sample_tools sample_gray 256 False False
              (Some 0) 2 None 1 None 1 None 1 stale)
   \<and> unat (store (FreeImage_MakeHistogram sample_tools sample_gray 256 False False
                     (Some 0) 2 None 1 None 1 None 1 stale) 14) = 3
   \<and> unat (store (FreeImage_MakeHistogram sample_tools sample_gray 256 False False
                     (Some 0) 2 None 1 None 1 None 1 stale) 10) = 2
   \<and> unat (store (FreeImage_MakeHistogram sample_tools sample_gray 256 False False
                     (Some 0) 2 None 1 None 1 None 1 stale) 2) = 0
   \<and> unat (store (FreeImage_MakeHistogram sample_tools sample_gray 256 False False
                     (Some 0) 2 None 1 None 1 None 1 stale) 0) = 1
   \<and> unat (store (FreeImage_MakeHistogram sample_tools sample_gray 256 False False
                     (Some 0) 2 None 1 None 1 None 1 stale) 510) = 0"
proof -
  let ?r = "FreeImage_MakeHistogram sample_tools sample_gray 256 False False
              (Some 0) 2 None 1 None 1 None 1 stale"
  from gray8_256_bins_count_values [OF sample_gray_256, of sample_tools False False stale]
  have ok: "success ?r"
    and c: "\<And>i :: 8 word. unat (store ?r (slot 0 2 (unat i)))
                = count_list (bitmap_pixels px_uint8 sample_gray) i"
    by simp_all
  have s: "slot 0 2 (unat (7 :: 8 word)) = 14" "slot 0 2 (unat (5 :: 8 word)) = 10"
    "slot 0 2 (unat (1 :: 8 word)) = 2" "slot 0 2 (unat (0 :: 8 word)) = 0"
    "slot 0 2 (unat (255 :: 8 word)) = 510"
    by (simp_all add: slot_def)
  from c [of 7] c [of 5] c [of 1] c [of 0] c [of 255] ok show ?thesis
    unfolding s sample_gray_pixels by simp
qed

section \<open>Degenerate floating-point range\<close>




end
